theory Spec2Isabelle
  imports
    Main
    "HOL-Library.List_Lexorder"
    "HOL-Library.Char_ord"
    "HOL-Library.Product_Lexorder"
    "HOL-Library.Multiset"
    "HOL-Library.AList"
begin

section \<open>Data model of package templates\<close>

text \<open>
  Go strings and byte slices are sequences of bytes; both are modelled as \<open>string\<close>
  (a list of 8-bit characters).  String comparison in Go is bytewise lexicographic,
  which is the order of \<open>List_Lexorder\<close> over \<open>Char_ord\<close>.
\<close>

type_synonym bytes = string

text \<open>
  Error values.  Errors built by \<open>fmt.Errorf\<close> in types.go have their own constructor;
  \<open>External\<close> stands for an error value handed back by a collaborator (the operating
  system, text/template, the yaegi interpreter, a hook of the template set).
  \<open>ErrNotExist\<close> is the error for which \<open>os.IsNotExist\<close> holds.
\<close>

datatype error =
    UnknownTemplate string
  | ErrNotExist string
  | Wrapped string error
  | IsDirectory string
  | BadInitSignature string
  | ErrPostFailed string error
  | External string

text \<open>
  How a call ends.  A Go function that returns \<open>error\<close> either returns (nil or an
  error value), or a run-time panic unwinds through it and it returns nothing: no
  caller on the way sees an error value, and the statements after the call are not
  run.  The only panic of types.go that the functions below can meet is the write to
  a nil map at the end of \<open>AddCustomFuncs\<close>.
\<close>

datatype exit =
    Returns "error option"
  | Panics string

text \<open>The struct \<open>Template\<close>; \<open>Data\<close> and \<open>Extra\<close> are opaque payload.\<close>

record Template =
  tSet :: string
  tTemplate :: string
  tType :: string
  tName :: string
  tData :: string
  tExtra :: "(string \<times> string) list"

text \<open>Method \<open>(*Template).File\<close>.\<close>

definition File_of :: "Template \<Rightarrow> string" where
  "File_of tpl = (if tSet tpl \<noteq> [] then tSet tpl @ ''/'' @ tTemplate tpl else tTemplate tpl)"

text \<open>
  The struct \<open>EmittedTemplate\<close> is used by the source in two roles that never mix:
  the entries of \<open>set.emitted\<close> are created by \<open>Emit\<close> alone (fields \<open>Template\<close> and
  \<open>Buf\<close>, later \<open>File\<close>), the entries of \<open>set.files\<close> are created by \<open>Process\<close> alone
  (fields \<open>Buf\<close>, \<open>File\<close>, later \<open>Err\<close>; \<open>Template\<close> stays nil and is never read).
  The first role is the record \<open>EmittedTemplate\<close>, the second the record \<open>EmittedFile\<close>.
\<close>

record EmittedTemplate =
  Template :: Template
  Buf :: bytes
  File :: string

record EmittedFile =
  fBuf :: bytes
  fFile :: string
  fErr :: "error list"

text \<open>
  Modelled from the spec: the types \<open>Flag\<close> and \<open>FlagSet\<close> of package types (imported
  as \<open>xo\<close>), which is not among the sources.  A flag is a declared extra option of
  a target, of which only the context key is read here; a flag set is a flag
  tagged with the name of its target and with its context key, as \<open>Flags\<close> builds it.
  The data model \<open>xo.XO\<close> of the same package is the type parameter \<open>'v\<close>.
\<close>

record Flag =
  ContextKey :: string
  flagInfo :: string

record FlagSet =
  fsType :: string
  fsName :: string
  fsFlag :: Flag

definition IsNotExist :: "error \<Rightarrow> bool" where
  "IsNotExist e = (case e of ErrNotExist _ \<Rightarrow> True | _ \<Rightarrow> False)"

text \<open>
  A resource tree (\<open>fs.FS\<close>, \<open>embed.FS\<close>): for a name, the error of \<open>Open\<close>, or else
  what \<open>ioutil.ReadAll\<close> gives on the opened file.
\<close>

type_synonym resources = "string \<Rightarrow> error + (error + bytes)"

text \<open>
  \<open>template.FuncMap\<close>: a Go map from names to callables, as an association list;
  \<open>None\<close> is the nil map (reading it is fine, writing to it panics).
\<close>

datatype callable = Callable string

type_synonym FuncMap = "(string \<times> callable) list"

text \<open>
  The context: the values behind the context keys of types.go.  The accessor
  functions \<open>TemplateType\<close>, \<open>Suffix\<close>, \<open>Src\<close>, \<open>Out\<close> of the source are the selectors
  (a missing key reads as the empty string, a missing \<open>src\<close> as nil).
\<close>

record Context =
  TemplateType :: string
  Suffix :: string
  Src :: "resources option"
  Out :: string
  GenType :: string
  ctxValues :: "(string \<times> string) list"

text \<open>
  The struct \<open>TemplateSet\<close>.  Function-valued fields that the source tests against
  nil are options.  \<open>FileName\<close> and \<open>Process\<close> are called without a test and are taken
  as declared, and the factories return non-nil descriptors.  The generation
  logic \<open>set.Process\<close> is a collaborator outside this package: it is modelled by
  what it does to the set, namely the descriptors it passes to \<open>set.Emit\<close>, in
  order, and the error it returns after them; an error of \<open>Emit\<close> ends it and is
  returned.  \<open>AddType\<close> is not used by types.go.
\<close>

record 'v TemplateSet =
  Files :: resources
  set_For :: "string list option"
  FileExt :: string
  set_Flags :: "Flag list"
  Order :: "string list"
  HeaderTemplate :: "(Context \<Rightarrow> Template) option"
  PackageTemplates :: "(Context \<Rightarrow> Template list) option"
  Funcs :: "(Context \<Rightarrow> FuncMap option) option"
  FileName :: "Context \<Rightarrow> Template \<Rightarrow> string"
  BuildContext :: "(Context \<Rightarrow> Context) option"
  set_Process :: "Context \<Rightarrow> bool \<Rightarrow> 'v \<Rightarrow> Template list \<times> error option"
  Post :: "(Context \<Rightarrow> bytes \<Rightarrow> error + bytes) option"
  emitted :: "EmittedTemplate list"
  funcs :: "FuncMap option"
  files :: "(string \<times> EmittedFile) list"

text \<open>
  The package variable \<open>templates\<close>, a Go map, as an association list read with
  \<open>map_of\<close> and written with \<open>AList.update\<close>.  The map holds pointers; here every
  name has a set of its own (no set is registered under two names, none is nil),
  and what a function does to the set of a name is written back under that name.
\<close>

type_synonym 'v registry = "(string \<times> 'v TemplateSet) list"

subsection \<open>Helpers at the end of types.go\<close>

text \<open>\<open>contains\<close> returns true when s is in v.\<close>

fun contains :: "string list \<Rightarrow> string \<Rightarrow> bool" where
  "contains [] s = False"
| "contains (z # v) s = (if z = s then True else contains v s)"

text \<open>\<open>removeMatching\<close> builds a new slice from v with the strings not contained in s.\<close>

fun removeMatching :: "string list \<Rightarrow> string list \<Rightarrow> string list" where
  "removeMatching [] s = []"
| "removeMatching (z # v) s =
     (if contains s z then removeMatching v s else z # removeMatching v s)"

text \<open>The comparison closure of \<open>sortEmitted\<close>.\<close>

definition less_emitted :: "EmittedTemplate \<Rightarrow> EmittedTemplate \<Rightarrow> bool" where
  "less_emitted a b =
     (if tTemplate (Template a) \<noteq> tTemplate (Template b)
        then tTemplate (Template a) < tTemplate (Template b)
      else if tType (Template a) \<noteq> tType (Template b)
        then tType (Template a) < tType (Template b)
      else tName (Template a) < tName (Template b))"

section \<open>Registry\<close>

text \<open>\<open>Register\<close> registers a template set.\<close>

definition Register :: "string \<Rightarrow> 'v TemplateSet \<Rightarrow> 'v registry \<Rightarrow> 'v registry" where
  "Register typ tset templates = AList.update typ tset templates"

text \<open>\<open>Types\<close>: the keys of the map, sorted.\<close>

definition Types :: "'v registry \<Rightarrow> string list" where
  "Types templates = sort (remdups (map fst templates))"

text \<open>\<open>For\<close> returns true if the template is available for the command name.\<close>

definition For :: "'v registry \<Rightarrow> string \<Rightarrow> string \<Rightarrow> bool" where
  "For templates typ name =
     (if name = ''dump'' then True
      else case map_of templates typ of
             Some tset \<Rightarrow> (case set_For tset of Some l \<Rightarrow> contains l name | None \<Rightarrow> True)
           | None \<Rightarrow> True)"

text \<open>
  \<open>Flags\<close>: for each type of \<open>Types()\<close>, skip the set when its \<open>For\<close> list is not nil and
  does not contain the name, otherwise append one \<open>FlagSet\<close> per declared flag.
  The types come from the keys of the map, so the lookup always finds the set.
\<close>

definition flagsOf :: "string \<Rightarrow> 'v TemplateSet \<Rightarrow> string \<Rightarrow> FlagSet list" where
  "flagsOf typ tset name =
     (if (case set_For tset of Some l \<Rightarrow> \<not> contains l name | None \<Rightarrow> False) then []
      else map (\<lambda>flag. \<lparr>fsType = typ, fsName = ContextKey flag, fsFlag = flag\<rparr>) (set_Flags tset))"

definition Flags :: "'v registry \<Rightarrow> string \<Rightarrow> FlagSet list" where
  "Flags templates name =
     concat (map (\<lambda>typ. case map_of templates typ of
                          Some tset \<Rightarrow> flagsOf typ tset name
                        | None \<Rightarrow> [])
                 (Types templates))"

section \<open>Collaborators outside the package\<close>

text \<open>
  The value of \<open>funcs.Init\<close> inside the interpreter: a function of the required
  signature, or a value of another type (with the name of that type).
\<close>

datatype InitValue =
    InitFunc "Context \<Rightarrow> error + FuncMap"
  | OtherValue string

text \<open>
  What the libraries used by types.go answer; the functions below take them as
  a parameter.  \<open>Join\<close> is \<open>filepath.Join\<close>, \<open>TxtFuncMap\<close> is \<open>sprig.TxtFuncMap()\<close>,
  \<open>ParseTemplate\<close> and \<open>ExecuteTemplate\<close> are text/template (for a function map, a
  template name and its source), then the yaegi interpreter: the four calls of
  \<open>Use\<close>, \<open>Eval\<close> of the script and \<open>Eval\<close> of \<open>funcs.Init\<close> after it.  \<open>SortSlice\<close> is
  \<open>sort.Slice\<close> of the Go library, from the comparison closure and the slice to the
  slice as the call leaves it.  The library documents that the slice is sorted by
  the closure and that the sort is not stable; which algorithm runs depends on the
  length of the slice and on the version of the library.  Nothing is fixed about it
  here: what a statement needs of it is a hypothesis of that statement
  (\<open>sortsEmitted\<close> below).
\<close>

record Env =
  Join :: "string \<Rightarrow> string \<Rightarrow> string"
  SortSlice :: "(EmittedTemplate \<Rightarrow> EmittedTemplate \<Rightarrow> bool) \<Rightarrow> EmittedTemplate list \<Rightarrow> EmittedTemplate list"
  TxtFuncMap :: FuncMap
  ParseTemplate :: "FuncMap option \<Rightarrow> string \<Rightarrow> bytes \<Rightarrow> error option"
  ExecuteTemplate :: "FuncMap option \<Rightarrow> string \<Rightarrow> bytes \<Rightarrow> Template \<Rightarrow> error + bytes"
  UseStdlib :: "error option"
  UseSyscall :: "error option"
  UseUnsafe :: "error option"
  UseSymbols :: "Context \<Rightarrow> error option"
  EvalScript :: "bytes \<Rightarrow> error option"
  EvalInit :: "bytes \<Rightarrow> error + InitValue"

text \<open>\<open>sortEmitted\<close> sorts the emitted templates: \<open>sort.Slice\<close> with the closure above.\<close>

definition sortEmitted :: "Env \<Rightarrow> EmittedTemplate list \<Rightarrow> EmittedTemplate list" where
  "sortEmitted env tpl = SortSlice env less_emitted tpl"

text \<open>
  The output directory tree, flat: a path is absent, a directory, a regular file
  with its content, a regular file that may not be opened (\<open>Locked\<close>), or a path
  whose \<open>Stat\<close> fails for another reason than absence (\<open>NoAccess\<close>).  Writing to an
  absent path creates the file: the output directory itself is taken to exist.
  \<open>ops\<close> is the log of the calls made to the operating system, oldest first.
\<close>

datatype node =
    Directory
  | Regular bytes
  | Locked error
  | NoAccess error

datatype fsop =
    OpStat string
  | OpReadFile string
  | OpWriteFile string bytes

record World =
  fs :: "string \<rightharpoonup> node"
  ops :: "fsop list"

text \<open>\<open>os.Stat\<close>: the error, or else whether the path is a directory.\<close>

definition os_Stat :: "World \<Rightarrow> string \<Rightarrow> (error + bool) \<times> World" where
  "os_Stat w name =
     (case fs w name of
        None \<Rightarrow> Inl (ErrNotExist name)
      | Some Directory \<Rightarrow> Inr True
      | Some (Regular _) \<Rightarrow> Inr False
      | Some (Locked _) \<Rightarrow> Inr False
      | Some (NoAccess e) \<Rightarrow> Inl e,
      w\<lparr>ops := ops w @ [OpStat name]\<rparr>)"

definition ioutil_ReadFile :: "World \<Rightarrow> string \<Rightarrow> (error + bytes) \<times> World" where
  "ioutil_ReadFile w name =
     (case fs w name of
        None \<Rightarrow> Inl (ErrNotExist name)
      | Some Directory \<Rightarrow> Inl (External ''is a directory'')
      | Some (Regular b) \<Rightarrow> Inr b
      | Some (Locked e) \<Rightarrow> Inl e
      | Some (NoAccess e) \<Rightarrow> Inl e,
      w\<lparr>ops := ops w @ [OpReadFile name]\<rparr>)"

definition ioutil_WriteFile :: "World \<Rightarrow> string \<Rightarrow> bytes \<Rightarrow> error option \<times> World" where
  "ioutil_WriteFile w name data =
     (let w1 = w\<lparr>ops := ops w @ [OpWriteFile name data]\<rparr> in
      case fs w name of
        None \<Rightarrow> (None, w1\<lparr>fs := (fs w)(name \<mapsto> Regular data)\<rparr>)
      | Some Directory \<Rightarrow> (Some (External ''is a directory''), w1)
      | Some (Regular _) \<Rightarrow> (None, w1\<lparr>fs := (fs w)(name \<mapsto> Regular data)\<rparr>)
      | Some (Locked e) \<Rightarrow> (Some e, w1)
      | Some (NoAccess e) \<Rightarrow> (Some e, w1))"

section \<open>Function environment\<close>

text \<open>
  The template source, as \<open>AddCustomFuncs\<close> and \<open>Load\<close> both determine it: the \<open>src\<close>
  option of the context, or the set's embedded files when that is nil.
\<close>

definition templateSrc :: "Context \<Rightarrow> 'v TemplateSet \<Rightarrow> resources" where
  "templateSrc ctx tset = (case Src ctx of None \<Rightarrow> Files tset | Some s \<Rightarrow> s)"

text \<open>
  \<open>AddCustomFuncs\<close>.  Of the set it reads the template source and \<open>set.funcs\<close>, and
  it writes \<open>set.funcs\<close>: \<open>customFuncs\<close> is its body, from the source and the function
  map to the way the call ends and the function map left.  The call of
  \<open>go env GOPATH\<close> only sets an option of the interpreter and its failure is
  ignored; the interpreter's answers are in \<open>Env\<close>.  The final loop writes every
  entry of the returned map into \<open>set.funcs\<close>; when \<open>set.funcs\<close> is the nil map and
  there is an entry to write, the first write panics.
\<close>

definition mergeFuncs :: "FuncMap \<Rightarrow> FuncMap \<Rightarrow> FuncMap" where
  "mergeFuncs m fm = fold (\<lambda>(k, v) acc. AList.update k v acc) m fm"

definition customFuncs ::
  "Env \<Rightarrow> Context \<Rightarrow> resources \<Rightarrow> FuncMap option \<Rightarrow> exit \<times> FuncMap option" where
  "customFuncs env ctx src fm0 =
     (case src ''funcs.go.tpl'' of
        Inl err \<Rightarrow>
          if IsNotExist err then (Returns None, fm0)
          else (Returns (Some (Wrapped ''unable to load funcs.go.tpl'' err)), fm0)
      | Inr (Inl err) \<Rightarrow> (Returns (Some (Wrapped ''unable to read funcs.go.tpl'' err)), fm0)
      | Inr (Inr buf) \<Rightarrow>
      (case UseStdlib env of
        Some err \<Rightarrow> (Returns (Some (Wrapped ''unable to add stdlib to yaegi interpreter'' err)), fm0)
      | None \<Rightarrow>
      (case UseSyscall env of
        Some err \<Rightarrow> (Returns (Some (Wrapped ''unable to add syscall to yaegi interpreter'' err)), fm0)
      | None \<Rightarrow>
      (case UseUnsafe env of
        Some err \<Rightarrow> (Returns (Some (Wrapped ''unable to add unsafe to yaegi interpreter'' err)), fm0)
      | None \<Rightarrow>
      (case UseSymbols env ctx of
        Some err \<Rightarrow> (Returns (Some (Wrapped ''unable to add xo to yaegi interpreter'' err)), fm0)
      | None \<Rightarrow>
      (case EvalScript env buf of
        Some err \<Rightarrow> (Returns (Some (Wrapped ''unable to eval funcs.go.tpl'' err)), fm0)
      | None \<Rightarrow>
      (case EvalInit env buf of
        Inl err \<Rightarrow> (Returns (Some (Wrapped ''unable to eval funcs.Init'' err)), fm0)
      | Inr (OtherValue ty) \<Rightarrow> (Returns (Some (BadInitSignature ty)), fm0)
      | Inr (InitFunc z) \<Rightarrow>
      (case z ctx of
        Inl err \<Rightarrow> (Returns (Some (Wrapped ''funcs.Init error'' err)), fm0)
      | Inr m \<Rightarrow>
          if m = [] then (Returns None, fm0)
          else (case fm0 of
                  None \<Rightarrow> (Panics ''assignment to entry in nil map'', fm0)
                | Some fm \<Rightarrow> (Returns None, Some (mergeFuncs m fm)))))))))))"

definition AddCustomFuncs ::
  "Env \<Rightarrow> Context \<Rightarrow> 'v TemplateSet \<Rightarrow> exit \<times> 'v TemplateSet" where
  "AddCustomFuncs env ctx tset =
     (case customFuncs env ctx (templateSrc ctx tset) (funcs tset) of
        (ex, fm) \<Rightarrow> (ex, tset\<lparr>funcs := fm\<rparr>))"

text \<open>\<open>BaseFuncs\<close> returns base template funcs.\<close>

definition BaseFuncs :: "Env \<Rightarrow> FuncMap option" where
  "BaseFuncs env = Some (TxtFuncMap env)"

text \<open>\<open>BuildFuncs\<close> builds the template funcs.\<close>

definition BuildFuncs ::
  "Env \<Rightarrow> Context \<Rightarrow> 'v TemplateSet \<Rightarrow> exit \<times> 'v TemplateSet" where
  "BuildFuncs env ctx tset =
     AddCustomFuncs env ctx
       (case Funcs tset of
          None \<Rightarrow> tset\<lparr>funcs := BaseFuncs env\<rparr>
        | Some f \<Rightarrow> tset\<lparr>funcs := f ctx\<rparr>)"

section \<open>Renderer\<close>

text \<open>\<open>Load\<close> loads a template: its name and, read and parsed, its source.\<close>

definition Load ::
  "Env \<Rightarrow> Context \<Rightarrow> 'v TemplateSet \<Rightarrow> Template \<Rightarrow> error + (string \<times> bytes)" where
  "Load env ctx tset tpl =
     (let src = templateSrc ctx tset;
          name = File_of tpl @ FileExt tset @ ''.tpl''
      in case src name of
           Inl err \<Rightarrow> Inl (Wrapped (''unable to open template '' @ name) err)
         | Inr (Inl err) \<Rightarrow> Inl (Wrapped (''unable to read template '' @ name) err)
         | Inr (Inr buf) \<Rightarrow>
             (case ParseTemplate env (funcs tset) name buf of
                Some err \<Rightarrow> Inl (Wrapped (''unable to parse template '' @ name) err)
              | None \<Rightarrow> Inr (name, buf)))"

text \<open>\<open>Exec\<close> loads and executes a template.\<close>

definition Exec :: "Env \<Rightarrow> Context \<Rightarrow> 'v TemplateSet \<Rightarrow> Template \<Rightarrow> error + bytes" where
  "Exec env ctx tset tpl =
     (case Load env ctx tset tpl of
        Inl err \<Rightarrow> Inl err
      | Inr (name, src) \<Rightarrow>
          (case ExecuteTemplate env (funcs tset) name src tpl of
             Inl err \<Rightarrow> Inl (Wrapped (''unable to exec template '' @ File_of tpl) err)
           | Inr buf \<Rightarrow> Inr buf))"

text \<open>\<open>Emit\<close> emits a template to the template set.\<close>

definition Emit ::
  "Env \<Rightarrow> Context \<Rightarrow> 'v TemplateSet \<Rightarrow> Template \<Rightarrow> error option \<times> 'v TemplateSet" where
  "Emit env ctx tset tpl =
     (case Exec env ctx tset tpl of
        Inl err \<Rightarrow> (Some err, tset)
      | Inr buf \<Rightarrow>
          (None, tset\<lparr>emitted := emitted tset @ [\<lparr>Template = tpl, Buf = buf, File = []\<rparr>]\<rparr>))"

text \<open>\<open>LoadFile\<close> loads a file.\<close>

definition LoadFile ::
  "Env \<Rightarrow> Context \<Rightarrow> 'v TemplateSet \<Rightarrow> string \<Rightarrow> bool \<Rightarrow> World \<Rightarrow> (error + bytes) \<times> World" where
  "LoadFile env ctx tset file doAppend w =
     (let name = Join env (Out ctx) file in
      case os_Stat w name of (st, w1) \<Rightarrow>
        if (case st of Inl err \<Rightarrow> IsNotExist err | Inr _ \<Rightarrow> False) \<or> \<not> doAppend then
          (case HeaderTemplate tset of
             None \<Rightarrow> (Inr [], w1)
           | Some h \<Rightarrow> (Exec env ctx tset (h ctx), w1))
        else
          (case st of
             Inl err \<Rightarrow> (Inl err, w1)
           | Inr isDir \<Rightarrow>
               if isDir then
                 (Inl (IsDirectory name), w1)
               else ioutil_ReadFile w1 name))"

section \<open>Emission orchestrator\<close>

text \<open>
  The call \<open>set.Process(ctx, doAppend, set, v)\<close> of the generation logic: its
  descriptors go through \<open>Emit\<close> one after the other.
\<close>

fun emitAll ::
  "Env \<Rightarrow> Context \<Rightarrow> 'v TemplateSet \<Rightarrow> Template list \<Rightarrow> error option \<times> 'v TemplateSet" where
  "emitAll env ctx tset [] = (None, tset)"
| "emitAll env ctx tset (tpl # tpls) =
     (case Emit env ctx tset tpl of
        (Some err, tset') \<Rightarrow> (Some err, tset')
      | (None, tset') \<Rightarrow> emitAll env ctx tset' tpls)"

definition runLogic ::
  "Env \<Rightarrow> Context \<Rightarrow> bool \<Rightarrow> 'v \<Rightarrow> 'v TemplateSet \<Rightarrow> error option \<times> 'v TemplateSet" where
  "runLogic env ctx doAppend v tset =
     (case set_Process tset ctx doAppend v of (tpls, result) \<Rightarrow>
        (case emitAll env ctx tset tpls of
           (Some err, tset') \<Rightarrow> (Some err, tset')
         | (None, tset') \<Rightarrow> (result, tset')))"

text \<open>
  The block "add package templates" of \<open>Process\<close>: the error if an \<open>Emit\<close> fails, the
  set, and the processing order.
\<close>

definition packageStep ::
  "Env \<Rightarrow> Context \<Rightarrow> bool \<Rightarrow> 'v TemplateSet \<Rightarrow> error option \<times> 'v TemplateSet \<times> string list" where
  "packageStep env ctx doAppend tset =
     (case PackageTemplates tset of
        None \<Rightarrow> (None, tset, Order tset)
      | Some pt \<Rightarrow>
          if doAppend then (None, tset, Order tset)
          else (case emitAll env ctx tset (pt ctx) of
                  (Some err, tset') \<Rightarrow> (Some err, tset', Order tset)
                | (None, tset') \<Rightarrow>
                    (let additional = map tTemplate (pt ctx) in
                     (None, tset', additional @ removeMatching (Order tset) additional))))"

text \<open>The output file name of a fragment (the lines "determine filename").\<close>

definition fileNameOf :: "Context \<Rightarrow> 'v TemplateSet \<Rightarrow> string \<Rightarrow> Template \<Rightarrow> string" where
  "fileNameOf ctx tset single tpl =
     (let fileExt = (if Suffix ctx \<noteq> [] then Suffix ctx else FileExt tset) in
      if single \<noteq> [] then single else FileName tset ctx tpl @ fileExt)"

text \<open>
  The inner loop of \<open>Process\<close> for one name \<open>n\<close> of the order, over the emitted
  fragments: it sets \<open>tpl.File\<close>, loads the file on its first fragment, and appends
  the fragment's bytes.  It returns the error (if \<open>LoadFile\<close> failed), the fragments,
  the file map and the world as they are at that point.
\<close>

fun mergeEmitted ::
  "Env \<Rightarrow> Context \<Rightarrow> 'v TemplateSet \<Rightarrow> bool \<Rightarrow> string \<Rightarrow> string \<Rightarrow> EmittedTemplate list \<Rightarrow>
   (string \<times> EmittedFile) list \<Rightarrow> World \<Rightarrow>
   error option \<times> EmittedTemplate list \<times> (string \<times> EmittedFile) list \<times> World" where
  "mergeEmitted env ctx tset doAppend single n [] fl w = (None, [], fl, w)"
| "mergeEmitted env ctx tset doAppend single n (tpl # tpls) fl w =
     (if tTemplate (Template tpl) \<noteq> n then
        (case mergeEmitted env ctx tset doAppend single n tpls fl w of
           (err, tpls', fl', w') \<Rightarrow> (err, tpl # tpls', fl', w'))
      else
        (let name = fileNameOf ctx tset single (Template tpl);
             tpl' = tpl\<lparr>File := name\<rparr>
         in case map_of fl name of
              Some file \<Rightarrow>
                (case mergeEmitted env ctx tset doAppend single n tpls
                        (AList.update name (file\<lparr>fBuf := fBuf file @ Buf tpl\<rparr>) fl) w of
                   (err, tpls', fl', w') \<Rightarrow> (err, tpl' # tpls', fl', w'))
            | None \<Rightarrow>
                (case LoadFile env ctx tset name doAppend w of
                   (Inl err, w1) \<Rightarrow> (Some err, tpl' # tpls, fl, w1)
                 | (Inr buf, w1) \<Rightarrow>
                     (case mergeEmitted env ctx tset doAppend single n tpls
                             (AList.update name \<lparr>fBuf = buf @ Buf tpl, fFile = name, fErr = []\<rparr> fl) w1 of
                        (err, tpls', fl', w') \<Rightarrow> (err, tpl' # tpls', fl', w')))))"

text \<open>The outer loop of \<open>Process\<close> over the order.\<close>

fun mergeOrder ::
  "Env \<Rightarrow> Context \<Rightarrow> 'v TemplateSet \<Rightarrow> bool \<Rightarrow> string \<Rightarrow> string list \<Rightarrow> EmittedTemplate list \<Rightarrow>
   (string \<times> EmittedFile) list \<Rightarrow> World \<Rightarrow>
   error option \<times> EmittedTemplate list \<times> (string \<times> EmittedFile) list \<times> World" where
  "mergeOrder env ctx tset doAppend single [] tpls fl w = (None, tpls, fl, w)"
| "mergeOrder env ctx tset doAppend single (n # ns) tpls fl w =
     (case mergeEmitted env ctx tset doAppend single n tpls fl w of
        (Some err, tpls', fl', w') \<Rightarrow> (Some err, tpls', fl', w')
      | (None, tpls', fl', w') \<Rightarrow> mergeOrder env ctx tset doAppend single ns tpls' fl' w')"

text \<open>
  \<open>Process\<close> from "build funcs" up to the reset of \<open>set.files\<close>: the function
  environment, the generation logic, \<open>sortEmitted\<close>, the package templates.  It
  gives the way this part ends (the error of the step that returned one, or the
  panic of \<open>BuildFuncs\<close>, which no step wraps), the set, and the processing order.
\<close>

definition prepare ::
  "Env \<Rightarrow> Context \<Rightarrow> bool \<Rightarrow> 'v \<Rightarrow> 'v TemplateSet \<Rightarrow> exit \<times> 'v TemplateSet \<times> string list" where
  "prepare env ctx doAppend v tset =
     (case BuildFuncs env ctx tset of
        (Panics msg, s1) \<Rightarrow> (Panics msg, s1, [])
      | (Returns (Some err), s1) \<Rightarrow>
          (Returns (Some (Wrapped ''unable to build template funcs'' err)), s1, [])
      | (Returns None, s1) \<Rightarrow>
      (case runLogic env ctx doAppend v s1 of
        (Some err, s2) \<Rightarrow> (Returns (Some err), s2, [])
      | (None, s2) \<Rightarrow>
      (case packageStep env ctx doAppend (s2\<lparr>emitted := sortEmitted env (emitted s2)\<rparr>) of
        (err, s3, order) \<Rightarrow> (Returns err, s3, order))))"

text \<open>The lines "build context" of \<open>Process\<close>.\<close>

definition buildContext :: "'v TemplateSet \<Rightarrow> Context \<Rightarrow> Context" where
  "buildContext tset ctx0 = (case BuildContext tset of None \<Rightarrow> ctx0 | Some f \<Rightarrow> f ctx0)"

text \<open>
  \<open>Process\<close> from the line "build context" on, for the set found in the registry:
  the steps above, then \<open>set.files\<close> is a new map and the two loops fill it.
\<close>

definition processSet ::
  "Env \<Rightarrow> Context \<Rightarrow> bool \<Rightarrow> string \<Rightarrow> 'v \<Rightarrow> 'v TemplateSet \<Rightarrow> World \<Rightarrow>
   exit \<times> 'v TemplateSet \<times> World" where
  "processSet env ctx0 doAppend single v tset w =
     (let ctx = buildContext tset ctx0 in
      case prepare env ctx doAppend v tset of
        (Panics msg, s3, order) \<Rightarrow> (Panics msg, s3, w)
      | (Returns (Some err), s3, order) \<Rightarrow> (Returns (Some err), s3, w)
      | (Returns None, s3, order) \<Rightarrow>
      (case mergeOrder env ctx s3 doAppend single order (emitted s3) [] w of
        (err, tpls, fl, w') \<Rightarrow> (Returns err, s3\<lparr>emitted := tpls, files := fl\<rparr>, w')))"

text \<open>
  \<open>Process\<close> processes emitted templates for a template set.  The set is held by
  pointer in the registry, so what the run does to it is seen there, also when
  the run ends in a panic.
\<close>

definition Process ::
  "Env \<Rightarrow> Context \<Rightarrow> bool \<Rightarrow> string \<Rightarrow> 'v \<Rightarrow> 'v registry \<Rightarrow> World \<Rightarrow>
   exit \<times> 'v registry \<times> World" where
  "Process env ctx doAppend single v templates w =
     (let typ = TemplateType ctx in
      case map_of templates typ of
        None \<Rightarrow> (Returns (Some (UnknownTemplate typ)), templates, w)
      | Some tset \<Rightarrow>
          (case processSet env ctx doAppend single v tset w of
             (ex, tset', w') \<Rightarrow> (ex, AList.update typ tset' templates, w')))"

section \<open>Output pipeline\<close>

text \<open>The sorted keys of \<open>set.files\<close>.\<close>

definition fileNames :: "(string \<times> EmittedFile) list \<Rightarrow> string list" where
  "fileNames fl = sort (remdups (map fst fl))"

text \<open>The loop of \<open>Write\<close> over the sorted file names, for the hook \<open>post\<close>.\<close>

definition postFile ::
  "(bytes \<Rightarrow> error + bytes) \<Rightarrow> string \<Rightarrow> (string \<times> EmittedFile) list \<Rightarrow> (string \<times> EmittedFile) list" where
  "postFile post file fl =
     (case map_of fl file of
        None \<Rightarrow> fl
      | Some f \<Rightarrow>
          (case post (fBuf f) of
             Inl err \<Rightarrow> AList.update file (f\<lparr>fErr := fErr f @ [ErrPostFailed file err]\<rparr>) fl
           | Inr buf \<Rightarrow> AList.update file (f\<lparr>fBuf := buf\<rparr>) fl))"

text \<open>The loop of \<open>WriteFiles\<close> over the sorted file names.\<close>

definition writeFile ::
  "Env \<Rightarrow> string \<Rightarrow> string \<Rightarrow> (string \<times> EmittedFile) list \<times> World \<Rightarrow>
   (string \<times> EmittedFile) list \<times> World" where
  "writeFile env out file st =
     (case st of (fl, w) \<Rightarrow>
        (case map_of fl file of
           None \<Rightarrow> (fl, w)
         | Some f \<Rightarrow>
             (case ioutil_WriteFile w (Join env out file) (fBuf f) of
                (Some err, w') \<Rightarrow> (AList.update file (f\<lparr>fErr := fErr f @ [err]\<rparr>) fl, w')
              | (None, w') \<Rightarrow> (fl, w'))))"

text \<open>\<open>WriteFiles\<close> writes the generated files to disk.\<close>

definition WriteFiles ::
  "Env \<Rightarrow> Context \<Rightarrow> 'v registry \<Rightarrow> World \<Rightarrow> error option \<times> 'v registry \<times> World" where
  "WriteFiles env ctx templates w =
     (let typ = TemplateType ctx in
      case map_of templates typ of
        None \<Rightarrow> (Some (UnknownTemplate typ), templates, w)
      | Some tset \<Rightarrow>
          (case fold (writeFile env (Out ctx)) (fileNames (files tset)) (files tset, w) of
             (fl, w') \<Rightarrow> (None, AList.update typ (tset\<lparr>files := fl\<rparr>) templates, w')))"

text \<open>
  \<open>Write\<close> performs post processing of emitted templates to a template set,
  writing to disk the processed content.
\<close>

definition Write ::
  "Env \<Rightarrow> Context \<Rightarrow> 'v registry \<Rightarrow> World \<Rightarrow> error option \<times> 'v registry \<times> World" where
  "Write env ctx templates w =
     (let typ = TemplateType ctx in
      case map_of templates typ of
        None \<Rightarrow> (Some (UnknownTemplate typ), templates, w)
      | Some tset \<Rightarrow>
          (case Post tset of
             None \<Rightarrow> WriteFiles env ctx templates w
           | Some post \<Rightarrow>
               WriteFiles env ctx
                 (AList.update typ
                    (tset\<lparr>files := fold (postFile (post ctx)) (fileNames (files tset)) (files tset)\<rparr>)
                    templates) w))"

text \<open>\<open>Errors\<close> returns errors collected during file generation.\<close>

definition Errors :: "Context \<Rightarrow> 'v registry \<Rightarrow> error + error list" where
  "Errors ctx templates =
     (let typ = TemplateType ctx in
      case map_of templates typ of
        None \<Rightarrow> Inl (UnknownTemplate typ)
      | Some tset \<Rightarrow>
          Inr (concat (map (\<lambda>file. case map_of (files tset) file of
                                     Some f \<Rightarrow> fErr f | None \<Rightarrow> [])
                           (fileNames (files tset)))))"


section \<open>A small target used for examples\<close>

text \<open>
  A target \<open>demo\<close>: its resources are four templates, a template is rendered as
  its source followed by the instance name and the data of the descriptor, every
  fragment goes to the file \<open>out.go\<close>, the order is header, table, footer, and the
  generation logic emits the descriptors of the data model, in their order.

  In the examples \<open>sort.Slice\<close> is insertion sort: element i is swapped towards the
  front while the closure puts it before its left neighbour (\<open>insertLeft lt x acc\<close>
  does this for one element, \<open>acc\<close> being the sorted part in reverse, nearest
  neighbour first).  That is the code the Go library runs on a slice of fewer than
  seven elements, and no example sorts more than four.
\<close>

fun insertLeft ::
  "(EmittedTemplate \<Rightarrow> EmittedTemplate \<Rightarrow> bool) \<Rightarrow> EmittedTemplate \<Rightarrow> EmittedTemplate list \<Rightarrow>
   EmittedTemplate list" where
  "insertLeft lt x [] = [x]"
| "insertLeft lt x (p # acc) =
     (if lt x p then p # insertLeft lt x acc else x # p # acc)"

definition insertionSort ::
  "(EmittedTemplate \<Rightarrow> EmittedTemplate \<Rightarrow> bool) \<Rightarrow> EmittedTemplate list \<Rightarrow> EmittedTemplate list" where
  "insertionSort lt tpl = rev (foldl (\<lambda>acc x. insertLeft lt x acc) [] tpl)"

definition demoEnv :: Env where
  "demoEnv =
     \<lparr>Join = (\<lambda>out file. if out = [] then file else out @ ''/'' @ file),
      SortSlice = insertionSort,
      TxtFuncMap = [(''upper'', Callable ''strings.ToUpper'')],
      ParseTemplate = (\<lambda>fm name src. None),
      ExecuteTemplate = (\<lambda>fm name src tpl. Inr (src @ tName tpl @ tData tpl @ '';'')),
      UseStdlib = None, UseSyscall = None, UseUnsafe = None,
      UseSymbols = (\<lambda>ctx. None),
      EvalScript = (\<lambda>buf. None),
      EvalInit = (\<lambda>buf. Inr (InitFunc (\<lambda>ctx. Inr [(''lower'', Callable ''strings.ToLower'')])))\<rparr>"

definition demoFiles :: resources where
  "demoFiles name =
     (if name = ''header.go.tpl'' then Inr (Inr ''HEADER '')
      else if name = ''table.go.tpl'' then Inr (Inr ''TABLE '')
      else if name = ''footer.go.tpl'' then Inr (Inr ''FOOTER '')
      else if name = ''db.go.tpl'' then Inr (Inr ''DB '')
      else Inl (ErrNotExist name))"

definition demoCtx :: Context where
  "demoCtx = \<lparr>TemplateType = ''demo'', Suffix = [], Src = None, Out = ''out'',
              GenType = ''schema'', ctxValues = []\<rparr>"

definition mkTemplate :: "string \<Rightarrow> string \<Rightarrow> string \<Rightarrow> Template" where
  "mkTemplate template type name =
     \<lparr>tSet = [], tTemplate = template, tType = type, tName = name, tData = [], tExtra = []\<rparr>"

definition demoSet :: "Template list \<Rightarrow> (Template list) TemplateSet" where
  "demoSet pkg =
     \<lparr>Files = demoFiles,
      set_For = Some [''schema''],
      FileExt = ''.go'',
      set_Flags = [\<lparr>ContextKey = ''pkg'', flagInfo = ''package name''\<rparr>],
      Order = [''header'', ''table'', ''footer''],
      HeaderTemplate = None,
      PackageTemplates = (if pkg = [] then None else Some (\<lambda>ctx. pkg)),
      Funcs = None,
      FileName = (\<lambda>ctx tpl. ''out''),
      BuildContext = None,
      set_Process = (\<lambda>ctx doAppend v. (v, None)),
      Post = None,
      emitted = [],
      funcs = None,
      files = []\<rparr>"

definition demoWorld :: World where
  "demoWorld = \<lparr>fs = Map.empty, ops = []\<rparr>"

text \<open>
  The target with a script resource: what reading funcs.go.tpl gives is the argument.
\<close>

definition scriptedSet :: "(error + bytes) \<Rightarrow> (Template list) TemplateSet" where
  "scriptedSet script =
     (demoSet [])\<lparr>Files := (\<lambda>name. if name = ''funcs.go.tpl'' then Inr script else demoFiles name)\<rparr>"

text \<open>The same target when its function factory returns the nil map.\<close>

definition nilFuncsSet :: "(Template list) TemplateSet" where
  "nilFuncsSet = (scriptedSet (Inr ''package funcs''))\<lparr>Funcs := Some (\<lambda>ctx. None)\<rparr>"

text \<open>
  The target after a run that left three file buffers, with a hook that fails on the
  content \<open>bad\<close>; and an output directory where \<open>c.go\<close> is a directory.
\<close>

definition postSet :: "(Template list) TemplateSet" where
  "postSet =
     (demoSet [])
       \<lparr>Post := Some (\<lambda>ctx buf. if buf = ''bad'' then Inl (External ''gofmt'') else Inr (buf @ ''!'')),
        files := [(''b.go'', \<lparr>fBuf = ''ok'', fFile = ''b.go'', fErr = []\<rparr>),
                  (''a.go'', \<lparr>fBuf = ''bad'', fFile = ''a.go'', fErr = []\<rparr>),
                  (''c.go'', \<lparr>fBuf = ''dir'', fFile = ''c.go'', fErr = []\<rparr>)]\<rparr>"

definition dirWorld :: World where
  "dirWorld = \<lparr>fs = [''out/c.go'' \<mapsto> Directory], ops = []\<rparr>"

text \<open>
  Data models: a fragment whose template name is not in the order; one fragment.
\<close>

definition orphanModel :: "Template list" where
  "orphanModel = [mkTemplate ''table'' [] ''users'', mkTemplate ''db'' [] ''x'']"

text \<open>
  The target with a header template, and an output directory with something at the
  path of \<open>out.go\<close>.
\<close>

definition headedSet :: "(Template list) TemplateSet" where
  "headedSet = (demoSet [])\<lparr>HeaderTemplate := Some (\<lambda>ctx. mkTemplate ''header'' [] [])\<rparr>"

definition diskWorld :: "node \<Rightarrow> World" where
  "diskWorld n = \<lparr>fs = [''out/out.go'' \<mapsto> n], ops = []\<rparr>"

definition usersModel :: "Template list" where
  "usersModel = [mkTemplate ''table'' [] ''users'']"

text \<open>
  A data model with a descriptor whose template is not among the resources, and
  file buffers left by an earlier run.
\<close>

definition missingModel :: "Template list" where
  "missingModel = [mkTemplate ''nosuch'' [] ''x'']"

definition staleFiles :: "(string \<times> EmittedFile) list" where
  "staleFiles = [(''old.go'', \<lparr>fBuf = ''STALE'', fFile = ''old.go'', fErr = [External ''old'']\<rparr>)]"


text \<open>
  The scenario of two tables between header and footer; two descriptors with one
  key and different data.
\<close>

definition scenarioModel :: "Template list" where
  "scenarioModel =
     [mkTemplate ''table'' [] ''users'', mkTemplate ''footer'' [] [],
      mkTemplate ''table'' [] ''posts'', mkTemplate ''header'' [] []]"

definition twinModel :: "string \<Rightarrow> string \<Rightarrow> Template list" where
  "twinModel d1 d2 =
     [(mkTemplate ''table'' [] ''users'')\<lparr>tData := d1\<rparr>, (mkTemplate ''table'' [] ''users'')\<lparr>tData := d2\<rparr>]"

text \<open>
  The target with a package template \<open>db\<close> that the base order lists last; a data
  model with a fragment of its own under the name \<open>db\<close>.
\<close>

definition pkgSet :: "(Template list) TemplateSet" where
  "pkgSet = (demoSet [mkTemplate ''db'' [] ''pkg''])\<lparr>Order := [''header'', ''table'', ''footer'', ''db'']\<rparr>"

definition entityModel :: "Template list" where
  "entityModel = [mkTemplate ''db'' [] ''entity'', mkTemplate ''table'' [] ''users'']"

section \<open>Notions used in the statements\<close>





text \<open>What the loop of \<open>Write\<close> does to one file buffer, for the hook \<open>post\<close>.\<close>

definition postOne :: "(bytes \<Rightarrow> error + bytes) \<Rightarrow> string \<Rightarrow> EmittedFile \<Rightarrow> EmittedFile" where
  "postOne post fname f =
     (case post (fBuf f) of
        Inl err \<Rightarrow> f\<lparr>fErr := fErr f @ [ErrPostFailed fname err]\<rparr>
      | Inr buf \<Rightarrow> f\<lparr>fBuf := buf\<rparr>)"

text \<open>The error of \<open>ioutil.WriteFile\<close> on a path, as a list (empty when the write succeeds).\<close>

definition writeErrs :: "World \<Rightarrow> string \<Rightarrow> error list" where
  "writeErrs w path =
     (case fs w path of
        Some Directory \<Rightarrow> [External ''is a directory'']
      | Some (Locked e) \<Rightarrow> [e]
      | Some (NoAccess e) \<Rightarrow> [e]
      | _ \<Rightarrow> [])"

text \<open>The calls of \<open>ioutil.WriteFile\<close> for the file names \<open>names\<close>, in order.\<close>

definition writeOps :: "Env \<Rightarrow> string \<Rightarrow> (string \<times> EmittedFile) list \<Rightarrow> string list \<Rightarrow> fsop list" where
  "writeOps env out fl names =
     concat (map (\<lambda>n. case map_of fl n of
                        None \<Rightarrow> []
                      | Some f \<Rightarrow> [OpWriteFile (Join env out n) (fBuf f)]) names)"

text \<open>
  The content of a file buffer after the hook of the set (unchanged when there is
  no hook or the hook fails), the error the hook adds, and the file buffer after
  \<open>Write\<close>.
\<close>

definition postBuf :: "'v TemplateSet \<Rightarrow> Context \<Rightarrow> EmittedFile \<Rightarrow> bytes" where
  "postBuf tset ctx f =
     (case Post tset of
        None \<Rightarrow> fBuf f
      | Some post \<Rightarrow> (case post ctx (fBuf f) of Inl err \<Rightarrow> fBuf f | Inr buf \<Rightarrow> buf))"

definition postErrs :: "'v TemplateSet \<Rightarrow> Context \<Rightarrow> string \<Rightarrow> EmittedFile \<Rightarrow> error list" where
  "postErrs tset ctx fname f =
     (case Post tset of
        None \<Rightarrow> []
      | Some post \<Rightarrow> (case post ctx (fBuf f) of Inl err \<Rightarrow> [ErrPostFailed fname err] | Inr buf \<Rightarrow> []))"

definition written :: "Env \<Rightarrow> Context \<Rightarrow> 'v TemplateSet \<Rightarrow> World \<Rightarrow> string \<Rightarrow> EmittedFile \<Rightarrow> EmittedFile" where
  "written env ctx tset w fname f =
     f\<lparr>fBuf := postBuf tset ctx f,
       fErr := fErr f @ postErrs tset ctx fname f @ writeErrs w (Join env (Out ctx) fname)\<rparr>"

text \<open>The sort key of \<open>sortEmitted\<close>: template name, then type, then instance name.\<close>

definition fragKey :: "EmittedTemplate \<Rightarrow> string \<times> string \<times> string" where
  "fragKey e = (tTemplate (Template e), tType (Template e), tName (Template e))"

text \<open>
  What the Go library documents of \<open>sort.Slice\<close>, for the closure of \<open>sortEmitted\<close>:
  the slice holds the same elements after the call, and no element stands before
  one that the closure puts before it.  Nothing is said about elements neither of
  which the closure puts before the other.
\<close>

definition sortsEmitted :: "Env \<Rightarrow> bool" where
  "sortsEmitted env \<longleftrightarrow>
     (\<forall>tpl. mset (sortEmitted env tpl) = mset tpl \<and>
            sorted_wrt (\<lambda>a b. \<not> less_emitted b a) (sortEmitted env tpl))"

text \<open>A fragment: a descriptor with its rendered bytes.\<close>

type_synonym fragment = "Template \<times> bytes"

definition frag :: "EmittedTemplate \<Rightarrow> fragment" where
  "frag e = (Template e, Buf e)"

text \<open>
  The fragment is processed in the round of the order name \<open>n\<close> and its resolved
  output file is \<open>fname\<close>.
\<close>

definition destined :: "Context \<Rightarrow> 'v TemplateSet \<Rightarrow> string \<Rightarrow> string \<Rightarrow> string \<Rightarrow> fragment \<Rightarrow> bool" where
  "destined ctx tset single n fname fr \<longleftrightarrow>
     tTemplate (fst fr) = n \<and> fileNameOf ctx tset single (fst fr) = fname"

text \<open>
  The fragments the two loops of \<open>Process\<close> append to the file \<open>fname\<close>, in the order
  they append them: for each name of the processing order in turn, the emitted
  fragments of that name, as they stand in the emitted list.
\<close>

definition mergedInto ::
  "Context \<Rightarrow> 'v TemplateSet \<Rightarrow> string \<Rightarrow> string list \<Rightarrow> fragment list \<Rightarrow> string \<Rightarrow> fragment list" where
  "mergedInto ctx tset single order frs fname =
     concat (map (\<lambda>n. filter (destined ctx tset single n fname) frs) order)"

text \<open>What \<open>LoadFile\<close> returns for a file name.\<close>

definition seedOf :: "Env \<Rightarrow> Context \<Rightarrow> 'v TemplateSet \<Rightarrow> bool \<Rightarrow> World \<Rightarrow> string \<Rightarrow> error + bytes" where
  "seedOf env ctx tset doAppend w fname = fst (LoadFile env ctx tset fname doAppend w)"

text \<open>
  The file buffer of \<open>fname\<close> after the fragments \<open>sel\<close> have been appended, from the
  buffer \<open>fo\<close> before (none: the buffer starts from the seed).
\<close>

definition extendFile :: "string \<Rightarrow> error + bytes \<Rightarrow> fragment list \<Rightarrow> EmittedFile option \<Rightarrow> EmittedFile option" where
  "extendFile fname seed sel fo =
     (if sel = [] then fo
      else case fo of
             Some f \<Rightarrow> Some (f\<lparr>fBuf := fBuf f @ concat (map snd sel)\<rparr>)
           | None \<Rightarrow>
               (case seed of
                  Inr s \<Rightarrow> Some \<lparr>fBuf = s @ concat (map snd sel), fFile = fname, fErr = []\<rparr>
                | Inl e \<Rightarrow> None))"

text \<open>The entry \<open>Emit\<close> appends for a descriptor that renders.\<close>

definition renderOne :: "Env \<Rightarrow> Context \<Rightarrow> 'v TemplateSet \<Rightarrow> Template \<Rightarrow> EmittedTemplate" where
  "renderOne env ctx tset tpl =
     \<lparr>Template = tpl, Buf = (case Exec env ctx tset tpl of Inr b \<Rightarrow> b | Inl e \<Rightarrow> []), File = []\<rparr>"

text \<open>Every descriptor of the list renders without error.\<close>

definition renders :: "Env \<Rightarrow> Context \<Rightarrow> 'v TemplateSet \<Rightarrow> Template list \<Rightarrow> bool" where
  "renders env ctx tset tpls \<longleftrightarrow> list_all (\<lambda>tpl. \<not> isl (Exec env ctx tset tpl)) tpls"

text \<open>
  The package templates \<open>Process\<close> emits (none in append mode or without a factory),
  and the processing order it uses.
\<close>

definition packageTemplates :: "Context \<Rightarrow> bool \<Rightarrow> 'v TemplateSet \<Rightarrow> Template list" where
  "packageTemplates ctx doAppend tset =
     (case PackageTemplates tset of
        None \<Rightarrow> []
      | Some pt \<Rightarrow> if doAppend then [] else pt ctx)"

definition finalOrder :: "Context \<Rightarrow> bool \<Rightarrow> 'v TemplateSet \<Rightarrow> string list" where
  "finalOrder ctx doAppend tset =
     (case PackageTemplates tset of
        None \<Rightarrow> Order tset
      | Some pt \<Rightarrow>
          if doAppend then Order tset
          else map tTemplate (pt ctx) @
               filter (\<lambda>n. n \<notin> set (map tTemplate (pt ctx))) (Order tset))"

text \<open>
  The emitted list when the merge loops start: what was there and what the
  generation logic emitted, sorted, then the package templates.
\<close>

definition preparedEmitted :: "Env \<Rightarrow> Context \<Rightarrow> bool \<Rightarrow> 'v \<Rightarrow> 'v TemplateSet \<Rightarrow> EmittedTemplate list" where
  "preparedEmitted env ctx doAppend v s1 =
     sortEmitted env (emitted s1 @ map (renderOne env ctx s1) (fst (set_Process s1 ctx doAppend v))) @
     map (renderOne env ctx s1) (packageTemplates ctx doAppend s1)"

text \<open>
  How \<open>Process\<close> gets to its merge loops (\<open>Returns None\<close>: it does get there), and the
  set and the processing order it has then.
\<close>

definition prepareError :: "Env \<Rightarrow> Context \<Rightarrow> bool \<Rightarrow> 'v \<Rightarrow> 'v TemplateSet \<Rightarrow> exit" where
  "prepareError env ctx0 doAppend v tset = fst (prepare env (buildContext tset ctx0) doAppend v tset)"

definition preparedSet :: "Env \<Rightarrow> Context \<Rightarrow> bool \<Rightarrow> 'v \<Rightarrow> 'v TemplateSet \<Rightarrow> 'v TemplateSet" where
  "preparedSet env ctx0 doAppend v tset = fst (snd (prepare env (buildContext tset ctx0) doAppend v tset))"

definition preparedOrder :: "Env \<Rightarrow> Context \<Rightarrow> bool \<Rightarrow> 'v \<Rightarrow> 'v TemplateSet \<Rightarrow> string list" where
  "preparedOrder env ctx0 doAppend v tset = snd (snd (prepare env (buildContext tset ctx0) doAppend v tset))"

text \<open>The header \<open>LoadFile\<close> renders, or the empty buffer when no header template is declared.\<close>

definition headerSeed :: "Env \<Rightarrow> Context \<Rightarrow> 'v TemplateSet \<Rightarrow> error + bytes" where
  "headerSeed env ctx tset =
     (case HeaderTemplate tset of None \<Rightarrow> Inr [] | Some h \<Rightarrow> Exec env ctx tset (h ctx))"

text \<open>
  The seed of a file buffer, case by case: without append mode the header,
  whatever is at the path; in append mode the header when nothing is at the
  path, an error when the path is a directory or cannot be examined or read, and
  the content on disk otherwise.
\<close>

definition seedSpec :: "Env \<Rightarrow> Context \<Rightarrow> 'v TemplateSet \<Rightarrow> bool \<Rightarrow> World \<Rightarrow> string \<Rightarrow> error + bytes" where
  "seedSpec env ctx tset doAppend w fname =
     (if \<not> doAppend then headerSeed env ctx tset
      else case fs w (Join env (Out ctx) fname) of
             None \<Rightarrow> headerSeed env ctx tset
           | Some Directory \<Rightarrow> Inl (IsDirectory (Join env (Out ctx) fname))
           | Some (Regular b) \<Rightarrow> Inr b
           | Some (Locked e) \<Rightarrow> Inl e
           | Some (NoAccess e) \<Rightarrow> if IsNotExist e then headerSeed env ctx tset else Inl e)"

text \<open>The emitted list of a registered set (empty for a type that is not registered).\<close>

definition emittedOf :: "'v registry \<Rightarrow> string \<Rightarrow> EmittedTemplate list" where
  "emittedOf templates ty = (case map_of templates ty of None \<Rightarrow> [] | Some tset \<Rightarrow> emitted tset)"

text \<open>The file buffers of a registered set, and file buffers left over by an earlier run.\<close>

definition filesOf :: "'v registry \<Rightarrow> string \<Rightarrow> (string \<times> EmittedFile) list" where
  "filesOf templates ty = (case map_of templates ty of None \<Rightarrow> [] | Some tset \<Rightarrow> files tset)"

text \<open>
  The set after \<open>BuildFuncs\<close>, the emitted list when \<open>sortEmitted\<close> is called (what
  the set held, then the fragments of the generation logic in the order it
  emitted them), and the fragments of the package templates.
\<close>

definition builtSet :: "Env \<Rightarrow> Context \<Rightarrow> 'v TemplateSet \<Rightarrow> 'v TemplateSet" where
  "builtSet env ctx0 tset = snd (BuildFuncs env (buildContext tset ctx0) tset)"

definition logicEmitted :: "Env \<Rightarrow> Context \<Rightarrow> bool \<Rightarrow> 'v \<Rightarrow> 'v TemplateSet \<Rightarrow> EmittedTemplate list" where
  "logicEmitted env ctx0 doAppend v tset =
     emitted tset @
     map (renderOne env (buildContext tset ctx0) (builtSet env ctx0 tset))
       (fst (set_Process tset (buildContext tset ctx0) doAppend v))"

definition packageEmitted :: "Env \<Rightarrow> Context \<Rightarrow> bool \<Rightarrow> 'v TemplateSet \<Rightarrow> EmittedTemplate list" where
  "packageEmitted env ctx0 doAppend tset =
     map (renderOne env (buildContext tset ctx0) (builtSet env ctx0 tset))
       (packageTemplates (buildContext tset ctx0) doAppend tset)"

text \<open>The sort key of a fragment.\<close>

definition keyOf :: "fragment \<Rightarrow> string \<times> string \<times> string" where
  "keyOf fr = (tTemplate (fst fr), tType (fst fr), tName (fst fr))"

section \<open>Registry: capability queries\<close>

lemma contains_iff: "contains v s \<longleftrightarrow> s \<in> set v"
  by (induction v) auto

lemma removeMatching_filter: "removeMatching v s = filter (\<lambda>z. z \<notin> set s) v"
  by (induction v) (auto simp: contains_iff)

lemma set_Types: "set (Types templates) = fst ` set templates"
  by (simp add: Types_def)

lemma set_flagsOf:
  "set (flagsOf typ tset name) =
     {\<lparr>fsType = typ, fsName = ContextKey flag, fsFlag = flag\<rparr> | flag.
        (set_For tset = None \<or> (\<exists>l. set_For tset = Some l \<and> name \<in> set l)) \<and>
        flag \<in> set (set_Flags tset)}"
  by (auto simp: flagsOf_def contains_iff split: option.splits)

lemma Flags_mem:
  "x \<in> set (Flags templates name) \<longleftrightarrow>
     (\<exists>typ tset. map_of templates typ = Some tset \<and> x \<in> set (flagsOf typ tset name))"
proof
  assume "x \<in> set (Flags templates name)"
  then obtain t where "t \<in> set (Types templates)"
    and "x \<in> set (case map_of templates t of Some tset \<Rightarrow> flagsOf t tset name | None \<Rightarrow> [])"
    by (auto simp: Flags_def)
  then show "\<exists>typ tset. map_of templates typ = Some tset \<and> x \<in> set (flagsOf typ tset name)"
    by (cases "map_of templates t") auto
next
  assume "\<exists>typ tset. map_of templates typ = Some tset \<and> x \<in> set (flagsOf typ tset name)"
  then obtain t tset where m: "map_of templates t = Some tset"
    and x: "x \<in> set (flagsOf t tset name)" by blast
  from m have "t \<in> set (Types templates)"
    by (metis set_Types map_of_eq_None_iff option.distinct(1))
  with m x show "x \<in> set (Flags templates name)"
    by (auto simp: Flags_def intro!: bexI [of _ t])
qed

text \<open>
  What \<open>Flags\<close> returns, for any command name: the flags of the registered sets
  whose \<open>For\<close> list is nil or contains the name, each with the name of its set.
\<close>

lemma Flags_set:
  "set (Flags templates name) =
     {\<lparr>fsType = typ, fsName = ContextKey flag, fsFlag = flag\<rparr> | typ tset flag.
        map_of templates typ = Some tset \<and>
        (set_For tset = None \<or> (\<exists>l. set_For tset = Some l \<and> name \<in> set l)) \<and>
        flag \<in> set (set_Flags tset)}"
  by (rule set_eqI) (auto simp: Flags_mem set_flagsOf)

lemma For_registered:
  "name \<noteq> ''dump'' \<Longrightarrow> map_of templates t = Some tset \<Longrightarrow>
   For templates t name \<longleftrightarrow> (set_For tset = None \<or> (\<exists>l. set_For tset = Some l \<and> name \<in> set l))"
  by (auto simp: For_def contains_iff split: option.splits)

text \<open>
  C9, as the code has it.  For every command name, \<open>Flags\<close> returns the union, over
  the registered sets whose declared \<open>For\<close> list is nil or contains the name, of the
  set's declared flags, each tagged with the name of its set and its context key.
  For every command name other than \<open>dump\<close> these are the registered sets for which
  the function \<open>For\<close> holds.  (\<open>Flags\<close> tests the declared list itself and has no
  special case for \<open>dump\<close>.)
\<close>

theorem Flags_For:
  "set (Flags templates name) =
     {\<lparr>fsType = typ, fsName = ContextKey flag, fsFlag = flag\<rparr> | typ tset flag.
        map_of templates typ = Some tset \<and>
        (set_For tset = None \<or> (\<exists>l. set_For tset = Some l \<and> name \<in> set l)) \<and>
        flag \<in> set (set_Flags tset)} \<and>
   (name \<noteq> ''dump'' \<longrightarrow>
    set (Flags templates name) =
      {\<lparr>fsType = typ, fsName = ContextKey flag, fsFlag = flag\<rparr> | typ tset flag.
         map_of templates typ = Some tset \<and> For templates typ name \<and>
         flag \<in> set (set_Flags tset)})"
proof (intro conjI impI)
  show "set (Flags templates name) =
     {\<lparr>fsType = typ, fsName = ContextKey flag, fsFlag = flag\<rparr> | typ tset flag.
        map_of templates typ = Some tset \<and>
        (set_For tset = None \<or> (\<exists>l. set_For tset = Some l \<and> name \<in> set l)) \<and>
        flag \<in> set (set_Flags tset)}"
    by (rule Flags_set)
next
  assume "name \<noteq> ''dump''"
  then show "set (Flags templates name) =
      {\<lparr>fsType = typ, fsName = ContextKey flag, fsFlag = flag\<rparr> | typ tset flag.
         map_of templates typ = Some tset \<and> For templates typ name \<and>
         flag \<in> set (set_Flags tset)}"
    unfolding Flags_set by (intro set_eqI) (auto simp: For_registered)
qed

theorem Flags_For_witness:
  "set (Flags [(''demo'', demoSet [])] ''schema'') =
     {\<lparr>fsType = typ, fsName = ContextKey flag, fsFlag = flag\<rparr> | typ tset flag.
        map_of [(''demo'', demoSet [])] typ = Some tset \<and>
        For [(''demo'', demoSet [])] typ ''schema'' \<and>
        flag \<in> set (set_Flags tset)} \<and>
   Flags [(''demo'', demoSet [])] ''schema'' =
     [\<lparr>fsType = ''demo'', fsName = ''pkg'',
       fsFlag = \<lparr>ContextKey = ''pkg'', flagInfo = ''package name''\<rparr>\<rparr>]"
proof -
  have ne: "''schema'' \<noteq> ''dump''" by simp
  have "Flags [(''demo'', demoSet [])] ''schema'' =
     [\<lparr>fsType = ''demo'', fsName = ''pkg'',
       fsFlag = \<lparr>ContextKey = ''pkg'', flagInfo = ''package name''\<rparr>\<rparr>]"
    by code_simp
  with Flags_For [of "[(''demo'', demoSet [])]" "''schema''"] ne show ?thesis by blast
qed

text \<open>
  C9 as stated fails for \<open>dump\<close>: the set \<open>demo\<close> declares the list \<open>[schema]\<close> and one
  flag; \<open>For\<close> holds for \<open>demo\<close> and \<open>dump\<close>, yet \<open>Flags\<close> of \<open>dump\<close> is empty.
\<close>

theorem Flags_dump_counterexample:
  "For [(''demo'', demoSet [])] ''demo'' ''dump'' \<and>
   set_Flags (demoSet []) = [\<lparr>ContextKey = ''pkg'', flagInfo = ''package name''\<rparr>] \<and>
   Flags [(''demo'', demoSet [])] ''dump'' = []"
  by code_simp

section \<open>Unknown target\<close>

text \<open>
  C8.  For a template type that is not registered, \<open>Process\<close> returns the error
  "unknown template" with that type, and the registry and the world (the directory
  tree and the log of calls to the operating system) are as they were: nothing was
  looked up on disk, read or written.
\<close>

theorem Process_unknown:
  "map_of templates (TemplateType ctx) = None \<Longrightarrow>
   Process env ctx doAppend single v templates w =
     (Returns (Some (UnknownTemplate (TemplateType ctx))), templates, w)"
  by (simp add: Process_def)

theorem Process_unknown_witness:
  "map_of [(''demo'', demoSet [])] (TemplateType (demoCtx\<lparr>TemplateType := ''nosuch''\<rparr>)) = None \<and>
   Process demoEnv (demoCtx\<lparr>TemplateType := ''nosuch''\<rparr>) False [] [mkTemplate ''table'' [] ''users'']
       [(''demo'', demoSet [])] demoWorld =
     (Returns (Some (UnknownTemplate ''nosuch'')), [(''demo'', demoSet [])], demoWorld)"
proof -
  have h: "map_of [(''demo'', demoSet [])] (TemplateType (demoCtx\<lparr>TemplateType := ''nosuch''\<rparr>)) = None"
    by simp
  from Process_unknown [OF h, of demoEnv False "[]" "[mkTemplate ''table'' [] ''users'']" demoWorld] h
  show ?thesis by simp
qed

section \<open>Function environment: the script funcs.go.tpl\<close>

lemma templateSrc_funcs: "templateSrc ctx (tset\<lparr>funcs := x\<rparr>) = templateSrc ctx tset"
  by (simp add: templateSrc_def split: option.splits)

lemma templateSrc_emitted: "templateSrc ctx (tset\<lparr>emitted := x\<rparr>) = templateSrc ctx tset"
  by (simp add: templateSrc_def split: option.splits)











lemma processSet_BuildFuncs_panics:
  assumes "fst (BuildFuncs env (buildContext tset ctx0) tset) = Panics msg"
  shows "processSet env ctx0 doAppend single v tset w =
     (Panics msg, snd (BuildFuncs env (buildContext tset ctx0) tset), w)"
proof -
  obtain s where "BuildFuncs env (buildContext tset ctx0) tset = (Panics msg, s)"
    using assms by (metis fst_conv surj_pair)
  then show ?thesis
    by (simp add: processSet_def prepare_def Let_def)
qed





text \<open>
  The write into a nil function map: \<open>Process\<close> returns nothing, the panic unwinds
  through it before anything is emitted or looked up on disk.
\<close>

lemma nil_function_map_panics:
  "fst (Process demoEnv demoCtx False [] usersModel [(''demo'', nilFuncsSet)] demoWorld) =
     Panics ''assignment to entry in nil map'' \<and>
   emittedOf (fst (snd (Process demoEnv demoCtx False [] usersModel [(''demo'', nilFuncsSet)] demoWorld)))
     ''demo'' = [] \<and>
   ops (snd (snd (Process demoEnv demoCtx False [] usersModel [(''demo'', nilFuncsSet)] demoWorld))) = []"
  by code_simp

section \<open>Output pipeline: failures stay with their file\<close>

lemma distinct_fileNames: "distinct (fileNames fl)"
  by (simp add: fileNames_def)

lemma set_fileNames: "set (fileNames fl) = fst ` set fl"
  by (simp add: fileNames_def)

lemma fileNames_dom: "fname \<in> set (fileNames fl) \<longleftrightarrow> map_of fl fname \<noteq> None"
  by (simp add: set_fileNames map_of_eq_None_iff)

lemma map_of_postFile:
  "map_of (postFile post n fl) k =
     (if k = n then map_option (postOne post n) (map_of fl n) else map_of fl k)"
  by (auto simp: postFile_def postOne_def update_conv' split: option.splits sum.splits)

lemma map_of_fold_postFile:
  "distinct names \<Longrightarrow>
   map_of (fold (postFile post) names fl) k =
     (if k \<in> set names then map_option (postOne post k) (map_of fl k) else map_of fl k)"
proof (induction names arbitrary: fl)
  case Nil
  then show ?case by simp
next
  case (Cons n names)
  then show ?case by (auto simp: map_of_postFile)
qed

lemma ioutil_WriteFile_fst:
  "fst (ioutil_WriteFile w path data) = (case writeErrs w path of [] \<Rightarrow> None | e # _ \<Rightarrow> Some e)"
  by (auto simp: ioutil_WriteFile_def writeErrs_def Let_def split: option.splits node.splits)

lemma ioutil_WriteFile_snd:
  "snd (ioutil_WriteFile w path data) =
     w\<lparr>ops := ops w @ [OpWriteFile path data],
       fs := (if writeErrs w path = [] then (fs w)(path \<mapsto> Regular data) else fs w)\<rparr>"
  by (auto simp: ioutil_WriteFile_def writeErrs_def Let_def split: option.splits node.splits)

lemma writeErrs_after_write:
  "writeErrs (snd (ioutil_WriteFile w path data)) p = writeErrs w p"
  by (auto simp: ioutil_WriteFile_snd writeErrs_def split: option.splits node.splits)

lemma writeErrs_length: "length (writeErrs w p) \<le> 1"
  by (auto simp: writeErrs_def split: option.splits node.splits)

text \<open>One step of the loop of WriteFiles.\<close>

lemma writeFile_step:
  "writeFile env out n (fl, w) = (fl', w') \<Longrightarrow>
   (\<forall>k. map_of fl' k =
      (if k = n then map_option (\<lambda>f. f\<lparr>fErr := fErr f @ writeErrs w (Join env out n)\<rparr>) (map_of fl n)
       else map_of fl k)) \<and>
   ops w' = ops w @ writeOps env out fl [n] \<and>
   (\<forall>p. writeErrs w' p = writeErrs w p) \<and>
   fs w' = (case map_of fl n of
              None \<Rightarrow> fs w
            | Some f \<Rightarrow> if writeErrs w (Join env out n) = []
                        then (fs w)(Join env out n \<mapsto> Regular (fBuf f)) else fs w)"
proof (cases "map_of fl n")
  case None
  assume "writeFile env out n (fl, w) = (fl', w')"
  with None show ?thesis by (simp add: writeFile_def writeOps_def)
next
  case (Some f)
  assume a: "writeFile env out n (fl, w) = (fl', w')"
  obtain e w1 where wf: "ioutil_WriteFile w (Join env out n) (fBuf f) = (e, w1)"
    by (cases "ioutil_WriteFile w (Join env out n) (fBuf f)")
  from wf ioutil_WriteFile_fst [of w "Join env out n" "fBuf f"]
  have e: "e = (case writeErrs w (Join env out n) of [] \<Rightarrow> None | e # _ \<Rightarrow> Some e)" by simp
  from wf ioutil_WriteFile_snd [of w "Join env out n" "fBuf f"]
  have w1: "w1 = w\<lparr>ops := ops w @ [OpWriteFile (Join env out n) (fBuf f)],
       fs := (if writeErrs w (Join env out n) = [] then (fs w)(Join env out n \<mapsto> Regular (fBuf f)) else fs w)\<rparr>"
    by simp
  from wf writeErrs_after_write [of w "Join env out n" "fBuf f"]
  have inv: "\<And>p. writeErrs w1 p = writeErrs w p" by simp
  have len: "length (writeErrs w (Join env out n)) \<le> 1" by (rule writeErrs_length)
  show ?thesis
  proof (cases "writeErrs w (Join env out n)")
    case Nil
    with a Some wf e w1 inv show ?thesis
      by (auto simp: writeFile_def writeOps_def)
  next
    case (Cons x xs)
    with len have xs: "xs = []" by simp
    with Cons a Some wf e w1 inv show ?thesis
      by (auto simp: writeFile_def writeOps_def update_conv')
  qed
qed

lemma writeOps_cong:
  "(\<And>k. k \<in> set names \<Longrightarrow> map_of fl1 k = map_of fl k) \<Longrightarrow>
   writeOps env out fl1 names = writeOps env out fl names"
  by (induction names) (auto simp: writeOps_def)

lemma writeOps_Cons:
  "writeOps env out fl (n # names) = writeOps env out fl [n] @ writeOps env out fl names"
  by (simp add: writeOps_def)

lemma fold_writeFile:
  "distinct names \<Longrightarrow> fold (writeFile env out) names (fl, w) = (fl', w') \<Longrightarrow>
   (\<forall>k. map_of fl' k =
      (if k \<in> set names
       then map_option (\<lambda>f. f\<lparr>fErr := fErr f @ writeErrs w (Join env out k)\<rparr>) (map_of fl k)
       else map_of fl k)) \<and>
   ops w' = ops w @ writeOps env out fl names \<and>
   (\<forall>p. writeErrs w' p = writeErrs w p)"
proof (induction names arbitrary: fl w)
  case Nil
  then show ?case by (simp add: writeOps_def)
next
  case (Cons n names)
  obtain fl1 w1 where st: "writeFile env out n (fl, w) = (fl1, w1)"
    by (cases "writeFile env out n (fl, w)")
  from writeFile_step [OF st] have
    m1: "\<And>k. map_of fl1 k =
      (if k = n then map_option (\<lambda>f. f\<lparr>fErr := fErr f @ writeErrs w (Join env out n)\<rparr>) (map_of fl n)
       else map_of fl k)"
    and o1: "ops w1 = ops w @ writeOps env out fl [n]"
    and e1: "\<And>p. writeErrs w1 p = writeErrs w p"
    by simp_all
  from Cons.prems st have "fold (writeFile env out) names (fl1, w1) = (fl', w')" by simp
  from Cons.IH [OF _ this] Cons.prems(1) have
    m2: "\<And>k. map_of fl' k =
      (if k \<in> set names
       then map_option (\<lambda>f. f\<lparr>fErr := fErr f @ writeErrs w1 (Join env out k)\<rparr>) (map_of fl1 k)
       else map_of fl1 k)"
    and o2: "ops w' = ops w1 @ writeOps env out fl1 names"
    and e2: "\<And>p. writeErrs w' p = writeErrs w1 p"
    by simp_all
  have c: "writeOps env out fl1 names = writeOps env out fl names"
    using Cons.prems(1) by (intro writeOps_cong) (auto simp: m1)
  have "\<And>k. map_of fl' k =
      (if k \<in> set (n # names)
       then map_option (\<lambda>f. f\<lparr>fErr := fErr f @ writeErrs w (Join env out k)\<rparr>) (map_of fl k)
       else map_of fl k)"
    using Cons.prems(1) by (auto simp: m2 m1 e1)
  moreover have "ops w' = ops w @ writeOps env out fl (n # names)"
    by (simp add: o2 o1 c writeOps_Cons [of env out fl n names])
  moreover have "\<And>p. writeErrs w' p = writeErrs w p"
    by (simp add: e2 e1)
  ultimately show ?case by blast
qed

lemma fold_writeFile_fs_outside:
  "fold (writeFile env out) names (fl, w) = (fl', w') \<Longrightarrow>
   p \<notin> Join env out ` set names \<Longrightarrow> fs w' p = fs w p"
proof (induction names arbitrary: fl w)
  case Nil
  then show ?case by simp
next
  case (Cons n names)
  obtain fl1 w1 where st: "writeFile env out n (fl, w) = (fl1, w1)"
    by (cases "writeFile env out n (fl, w)")
  from writeFile_step [OF st] Cons.prems(2) have "fs w1 p = fs w p"
    by (auto split: option.splits)
  moreover from Cons.prems st have "fold (writeFile env out) names (fl1, w1) = (fl', w')" by simp
  from Cons.IH [OF this] Cons.prems(2) have "fs w' p = fs w1 p" by simp
  ultimately show ?case by simp
qed

lemma fold_writeFile_fs_inside:
  "distinct names \<Longrightarrow> inj_on (Join env out) (set names) \<Longrightarrow>
   fold (writeFile env out) names (fl, w) = (fl', w') \<Longrightarrow>
   k \<in> set names \<Longrightarrow> map_of fl k = Some f \<Longrightarrow>
   fs w' (Join env out k) =
     (if writeErrs w (Join env out k) = [] then Some (Regular (fBuf f)) else fs w (Join env out k))"
proof (induction names arbitrary: fl w)
  case Nil
  then show ?case by simp
next
  case (Cons n names)
  obtain fl1 w1 where st: "writeFile env out n (fl, w) = (fl1, w1)"
    by (cases "writeFile env out n (fl, w)")
  from Cons.prems(3) st have rest: "fold (writeFile env out) names (fl1, w1) = (fl', w')" by simp
  note step = writeFile_step [OF st]
  show ?case
  proof (cases "k = n")
    case True
    with Cons.prems have "Join env out k \<notin> Join env out ` set names"
      by (auto simp: inj_on_def)
    from fold_writeFile_fs_outside [OF rest this] have "fs w' (Join env out k) = fs w1 (Join env out k)" .
    with step True Cons.prems(5) show ?thesis by simp
  next
    case False
    with Cons.prems have k: "k \<in> set names" and ne: "Join env out k \<noteq> Join env out n"
      by (auto simp: inj_on_def)
    from step False Cons.prems(5) have f1: "map_of fl1 k = Some f" by simp
    from Cons.prems have d: "distinct names" "inj_on (Join env out) (set names)" by simp_all
    from Cons.IH [OF d rest k f1] have
      "fs w' (Join env out k) =
         (if writeErrs w1 (Join env out k) = [] then Some (Regular (fBuf f)) else fs w1 (Join env out k))" .
    moreover from step have "writeErrs w1 (Join env out k) = writeErrs w (Join env out k)" by simp
    moreover from step ne have "fs w1 (Join env out k) = fs w (Join env out k)"
      by (auto split: option.splits)
    ultimately show ?thesis by simp
  qed
qed

lemma fileNames_cong: "fst ` set fl1 = fst ` set fl \<Longrightarrow> fileNames fl1 = fileNames fl"
proof -
  assume a: "fst ` set fl1 = fst ` set fl"
  have "fileNames fl1 = sorted_list_of_set (fst ` set fl1)"
    by (simp add: fileNames_def sorted_list_of_set_sort_remdups [symmetric])
  also have "\<dots> = sorted_list_of_set (fst ` set fl)" by (simp add: a)
  also have "\<dots> = fileNames fl"
    by (simp add: fileNames_def sorted_list_of_set_sort_remdups [symmetric])
  finally show ?thesis .
qed

lemma keys_fold_postFile:
  "fst ` set (fold (postFile post) (fileNames fl) fl) = fst ` set fl"
proof -
  have "dom (map_of (fold (postFile post) (fileNames fl) fl)) = dom (map_of fl)"
    by (auto simp: map_of_fold_postFile distinct_fileNames dom_def split: if_splits)
  then show ?thesis by (simp add: dom_map_of_conv_image_fst)
qed

lemma WriteFiles_result:
  assumes "map_of templates (TemplateType ctx) = Some tset"
  shows "\<exists>fl' w'. WriteFiles env ctx templates w =
           (None, AList.update (TemplateType ctx) (tset\<lparr>files := fl'\<rparr>) templates, w') \<and>
         fold (writeFile env (Out ctx)) (fileNames (files tset)) (files tset, w) = (fl', w')"
  using assms by (auto simp: WriteFiles_def Let_def split: prod.splits)

text \<open>
  C5.  For a registered target, \<open>Write\<close> returns no error (nor does \<open>WriteFiles\<close>),
  whatever the hook and the file system do.  Every file buffer \<open>f\<close> of the set ends
  as \<open>written \<dots> f\<close>: its content is the hook's output, or its content before the
  hook when the hook failed; its error list has gained the hook's error for this
  file and the write error for this file's path, and nothing else.  The log shows
  one \<open>ioutil.WriteFile\<close> per file buffer, in file-name order, with that content,
  whether or not the hook or an earlier write failed.  When different file names
  are different paths, each path that can be written holds its buffer's content.
\<close>

theorem Write_isolates_failures:
  assumes reg: "map_of templates (TemplateType ctx) = Some tset"
  shows "\<exists>fl' w'.
     Write env ctx templates w =
       (None, AList.update (TemplateType ctx) (tset\<lparr>files := fl'\<rparr>) templates, w') \<and>
     (\<forall>fname. map_of fl' fname = map_option (written env ctx tset w fname) (map_of (files tset) fname)) \<and>
     ops w' = ops w @
       concat (map (\<lambda>fname. case map_of (files tset) fname of
                               None \<Rightarrow> []
                             | Some f \<Rightarrow> [OpWriteFile (Join env (Out ctx) fname) (postBuf tset ctx f)])
                   (fileNames (files tset))) \<and>
     (inj_on (Join env (Out ctx)) (set (fileNames (files tset))) \<longrightarrow>
        (\<forall>fname f. map_of (files tset) fname = Some f \<longrightarrow>
           fs w' (Join env (Out ctx) fname) =
             (if writeErrs w (Join env (Out ctx) fname) = []
              then Some (Regular (postBuf tset ctx f))
              else fs w (Join env (Out ctx) fname)))) \<and>
     fst (WriteFiles env ctx templates w) = None"
proof -
  let ?ty = "TemplateType ctx"
  let ?out = "Out ctx"
  define fl0 where "fl0 = (case Post tset of
        None \<Rightarrow> files tset
      | Some post \<Rightarrow> fold (postFile (post ctx)) (fileNames (files tset)) (files tset))"
  define tset0 where "tset0 = tset\<lparr>files := fl0\<rparr>"
  define templates0 where "templates0 = AList.update ?ty tset0 templates"
  have W: "Write env ctx templates w = WriteFiles env ctx templates0 w"
  proof (cases "Post tset")
    case None
    then have "tset0 = tset" by (simp add: tset0_def fl0_def)
    then have "templates0 = templates" using reg by (simp add: templates0_def update_triv)
    with None reg show ?thesis by (simp add: Write_def)
  next
    case (Some post)
    with reg show ?thesis by (simp add: Write_def templates0_def tset0_def fl0_def)
  qed
  have keys: "fst ` set fl0 = fst ` set (files tset)"
    by (cases "Post tset") (simp_all add: fl0_def keys_fold_postFile)
  then have names: "fileNames fl0 = fileNames (files tset)" by (rule fileNames_cong)
  have m0: "map_of fl0 k =
      map_option (\<lambda>f. f\<lparr>fBuf := postBuf tset ctx f, fErr := fErr f @ postErrs tset ctx k f\<rparr>)
        (map_of (files tset) k)" for k
  proof (cases "Post tset")
    case None
    then show ?thesis
      by (cases "map_of (files tset) k") (simp_all add: fl0_def postBuf_def postErrs_def)
  next
    case (Some post)
    show ?thesis
    proof (cases "map_of (files tset) k")
      case None
      with Some show ?thesis
        by (simp add: fl0_def map_of_fold_postFile distinct_fileNames)
    next
      case f: (Some f)
      then have "k \<in> set (fileNames (files tset))" by (simp add: fileNames_dom)
      with Some f show ?thesis
        by (simp add: fl0_def map_of_fold_postFile distinct_fileNames postOne_def postBuf_def postErrs_def
            split: sum.splits)
    qed
  qed
  have reg0: "map_of templates0 ?ty = Some tset0"
    by (simp add: templates0_def update_conv')
  from WriteFiles_result [OF reg0, of env w] obtain fl' w' where
    wf: "WriteFiles env ctx templates0 w = (None, AList.update ?ty (tset0\<lparr>files := fl'\<rparr>) templates0, w')"
    and fo: "fold (writeFile env ?out) (fileNames (files tset0)) (files tset0, w) = (fl', w')"
    by blast
  from fo names have fo': "fold (writeFile env ?out) (fileNames (files tset)) (fl0, w) = (fl', w')"
    by (simp add: tset0_def)
  note F = fold_writeFile [OF distinct_fileNames fo']
  have 1: "Write env ctx templates w = (None, AList.update ?ty (tset\<lparr>files := fl'\<rparr>) templates, w')"
    using W wf by (simp add: templates0_def tset0_def)
  have 2: "map_of fl' fname = map_option (written env ctx tset w fname) (map_of (files tset) fname)" for fname
  proof (cases "map_of (files tset) fname")
    case None
    with F m0 [of fname] show ?thesis by simp
  next
    case (Some f)
    then have "fname \<in> set (fileNames (files tset))" by (simp add: fileNames_dom)
    with F m0 [of fname] Some show ?thesis by (simp add: written_def)
  qed
  have 3: "ops w' = ops w @
       concat (map (\<lambda>fname. case map_of (files tset) fname of
                               None \<Rightarrow> []
                             | Some f \<Rightarrow> [OpWriteFile (Join env ?out fname) (postBuf tset ctx f)])
                   (fileNames (files tset)))"
  proof -
    have "writeOps env ?out fl0 names =
       concat (map (\<lambda>fname. case map_of (files tset) fname of
                               None \<Rightarrow> []
                             | Some f \<Rightarrow> [OpWriteFile (Join env ?out fname) (postBuf tset ctx f)]) names)"
      for names
      by (induction names) (auto simp: writeOps_def m0 split: option.splits)
    with F show ?thesis by simp
  qed
  have 4: "fs w' (Join env ?out fname) =
             (if writeErrs w (Join env ?out fname) = []
              then Some (Regular (postBuf tset ctx f))
              else fs w (Join env ?out fname))"
    if inj: "inj_on (Join env ?out) (set (fileNames (files tset)))"
      and f: "map_of (files tset) fname = Some f" for fname f
  proof -
    from f have k: "fname \<in> set (fileNames (files tset))" by (simp add: fileNames_dom)
    from f have f0: "map_of fl0 fname = Some (f\<lparr>fBuf := postBuf tset ctx f, fErr := fErr f @ postErrs tset ctx fname f\<rparr>)"
      by (simp add: m0)
    from fold_writeFile_fs_inside [OF distinct_fileNames inj fo' k f0] show ?thesis by simp
  qed
  have 5: "fst (WriteFiles env ctx templates w) = None"
    using WriteFiles_result [OF reg, of env w] by auto
  from 1 2 3 4 5 show ?thesis by blast
qed

theorem Write_isolates_failures_witness:
  "map_of [(''demo'', postSet)] (TemplateType demoCtx) = Some postSet \<and>
   fst (Write demoEnv demoCtx [(''demo'', postSet)] dirWorld) = None \<and>
   Errors demoCtx (fst (snd (Write demoEnv demoCtx [(''demo'', postSet)] dirWorld))) =
     Inr [ErrPostFailed ''a.go'' (External ''gofmt''), External ''is a directory''] \<and>
   ops (snd (snd (Write demoEnv demoCtx [(''demo'', postSet)] dirWorld))) =
     [OpWriteFile ''out/a.go'' ''bad'', OpWriteFile ''out/b.go'' ''ok!'', OpWriteFile ''out/c.go'' ''dir!''] \<and>
   fs (snd (snd (Write demoEnv demoCtx [(''demo'', postSet)] dirWorld))) ''out/a.go'' = Some (Regular ''bad'') \<and>
   fs (snd (snd (Write demoEnv demoCtx [(''demo'', postSet)] dirWorld))) ''out/b.go'' = Some (Regular ''ok!'') \<and>
   fs (snd (snd (Write demoEnv demoCtx [(''demo'', postSet)] dirWorld))) ''out/c.go'' = Some Directory"
proof -
  have h: "map_of [(''demo'', postSet)] (TemplateType demoCtx) = Some postSet"
    by (simp add: demoCtx_def)
  from Write_isolates_failures [OF h, of demoEnv dirWorld]
  have 1: "fst (Write demoEnv demoCtx [(''demo'', postSet)] dirWorld) = None"
    by auto
  have 2: "Errors demoCtx (fst (snd (Write demoEnv demoCtx [(''demo'', postSet)] dirWorld))) =
     Inr [ErrPostFailed ''a.go'' (External ''gofmt''), External ''is a directory'']"
    by code_simp
  have 3: "ops (snd (snd (Write demoEnv demoCtx [(''demo'', postSet)] dirWorld))) =
     [OpWriteFile ''out/a.go'' ''bad'', OpWriteFile ''out/b.go'' ''ok!'', OpWriteFile ''out/c.go'' ''dir!'']"
    by code_simp
  have 4: "fs (snd (snd (Write demoEnv demoCtx [(''demo'', postSet)] dirWorld))) ''out/a.go'' = Some (Regular ''bad'')"
    "fs (snd (snd (Write demoEnv demoCtx [(''demo'', postSet)] dirWorld))) ''out/b.go'' = Some (Regular ''ok!'')"
    "fs (snd (snd (Write demoEnv demoCtx [(''demo'', postSet)] dirWorld))) ''out/c.go'' = Some Directory"
    by code_simp+
  from h 1 2 3 4 show ?thesis by blast
qed

section \<open>What is used of sort.Slice\<close>

lemma less_emitted_key: "less_emitted a b \<longleftrightarrow> fragKey a < fragKey b"
  by (auto simp: less_emitted_def fragKey_def less_prod_def less_le)

lemma sorted_wrt_less_emitted:
  "sorted_wrt (\<lambda>a b. \<not> less_emitted b a) xs \<longleftrightarrow> sorted (map fragKey xs)"
  by (simp add: sorted_map less_emitted_key not_less)

lemma mset_sortEmitted: "sortsEmitted env \<Longrightarrow> mset (sortEmitted env tpl) = mset tpl"
  by (simp add: sortsEmitted_def)

lemma set_sortEmitted: "sortsEmitted env \<Longrightarrow> set (sortEmitted env tpl) = set tpl"
  by (metis mset_sortEmitted set_mset_mset)

lemma sorted_sortEmitted: "sortsEmitted env \<Longrightarrow> sorted (map fragKey (sortEmitted env tpl))"
  by (simp add: sortsEmitted_def sorted_wrt_less_emitted [symmetric])

text \<open>
  When no two fragments of the slice have the same key, the contract leaves one
  result only: the fragments in the order of their keys.
\<close>

lemma sortEmitted_sort_key:
  assumes "sortsEmitted env" and "inj_on fragKey (set tpl)"
  shows "sortEmitted env tpl = sort_key fragKey tpl"
proof -
  have "sort_key fragKey tpl = sortEmitted env tpl"
    using assms by (intro sort_key_inj_key_eq) (simp_all add: mset_sortEmitted sorted_sortEmitted)
  then show ?thesis by simp
qed

lemma sortEmitted_perm:
  assumes "sortsEmitted env" and "mset xs = mset ys" and "inj_on fragKey (set xs)"
  shows "sortEmitted env xs = sortEmitted env ys"
proof -
  from assms(2) have s: "set xs = set ys" by (rule mset_eq_setD)
  have "sort_key fragKey xs = sort_key fragKey ys"
    using assms by (intro sort_key_inj_key_eq) auto
  with assms s show ?thesis by (simp add: sortEmitted_sort_key)
qed

text \<open>Insertion sort, as the examples use it, meets the contract.\<close>

lemma insertLeft_mset: "mset (insertLeft lt x acc) = add_mset x (mset acc)"
  by (induction acc) auto

lemma insertLeft_set: "set (insertLeft lt x acc) = insert x (set acc)"
  by (induction acc) auto

lemma insertLeft_sorted:
  "sorted (map fragKey (rev acc)) \<Longrightarrow> sorted (map fragKey (rev (insertLeft less_emitted x acc)))"
proof (induction acc)
  case Nil
  then show ?case by simp
next
  case (Cons p acc)
  then show ?case
    by (auto simp: sorted_append less_emitted_key insertLeft_set not_less intro: less_imp_le order_trans)
qed

lemma foldl_insertLeft:
  "sorted (map fragKey (rev acc)) \<Longrightarrow>
   mset (foldl (\<lambda>acc x. insertLeft less_emitted x acc) acc xs) = mset acc + mset xs \<and>
   sorted (map fragKey (rev (foldl (\<lambda>acc x. insertLeft less_emitted x acc) acc xs)))"
proof (induction xs arbitrary: acc)
  case Nil
  then show ?case by simp
next
  case (Cons x xs)
  from Cons.prems have s: "sorted (map fragKey (rev (insertLeft less_emitted x acc)))"
    by (rule insertLeft_sorted)
  from Cons.IH [OF s] Cons.prems show ?case
    by (simp add: insertLeft_mset)
qed

lemma insertionSort_sorts: "SortSlice env = insertionSort \<Longrightarrow> sortsEmitted env"
  using foldl_insertLeft [of "[]"]
  by (simp add: sortsEmitted_def sortEmitted_def insertionSort_def sorted_wrt_less_emitted)

lemma demoEnv_sorts: "sortsEmitted demoEnv"
  by (rule insertionSort_sorts) (simp add: demoEnv_def)

section \<open>The merge loops of Process\<close>

lemma extendFile_append:
  "extendFile fname seed (s1 @ s2) fo = extendFile fname seed s2 (extendFile fname seed s1 fo)"
  by (auto simp: extendFile_def split: option.splits sum.splits)

lemma extendFile_one_Some:
  "extendFile fname seed [frag tpl] (Some f0) = Some (f0\<lparr>fBuf := fBuf f0 @ Buf tpl\<rparr>)"
  by (simp add: extendFile_def frag_def)

lemma extendFile_one_None:
  "extendFile fname (Inr buf) [frag tpl] None = Some \<lparr>fBuf = buf @ Buf tpl, fFile = fname, fErr = []\<rparr>"
  by (simp add: extendFile_def frag_def)

lemma extendFile_Nil: "extendFile fname seed [] fo = fo"
  by (simp add: extendFile_def)

lemma destined_Cons:
  "filter (destined ctx tset single n fname) (map frag (tpl # tpls)) =
     (if tTemplate (Template tpl) = n \<and> fileNameOf ctx tset single (Template tpl) = fname
      then [frag tpl] else []) @
     filter (destined ctx tset single n fname) (map frag tpls)"
  by (simp add: destined_def frag_def)

lemma LoadFile_fs: "fs (snd (LoadFile env ctx tset fname doAppend w)) = fs w"
  by (auto simp: LoadFile_def os_Stat_def ioutil_ReadFile_def Let_def
      split: option.splits sum.splits node.splits prod.splits)

lemma LoadFile_fs_cong:
  "fs w = fs w' \<Longrightarrow>
   fst (LoadFile env ctx tset fname doAppend w) = fst (LoadFile env ctx tset fname doAppend w')"
  by (auto simp: LoadFile_def os_Stat_def ioutil_ReadFile_def Let_def
      split: option.splits sum.splits node.splits prod.splits)

lemma seedOf_cong: "fs w = fs w' \<Longrightarrow> seedOf env ctx tset a w fname = seedOf env ctx tset a w' fname"
  unfolding seedOf_def by (rule LoadFile_fs_cong)

lemma mergeEmitted_props:
  "mergeEmitted env ctx tset a single n tpls fl w = (err, tpls', fl', w') \<Longrightarrow>
   fs w' = fs w \<and> map Template tpls' = map Template tpls \<and> map Buf tpls' = map Buf tpls"
proof (induction tpls arbitrary: fl w err tpls' fl' w')
  case Nil
  then show ?case by simp
next
  case (Cons tpl tpls)
  show ?case
  proof (cases "tTemplate (Template tpl) \<noteq> n")
    case True
    with Cons.prems obtain r where
      "mergeEmitted env ctx tset a single n tpls fl w = (err, r, fl', w')" "tpls' = tpl # r"
      by (auto split: prod.splits)
    with Cons.IH show ?thesis by auto
  next
    case False
    let ?name = "fileNameOf ctx tset single (Template tpl)"
    show ?thesis
    proof (cases "map_of fl ?name")
      case (Some f0)
      with False Cons.prems obtain r where
        "mergeEmitted env ctx tset a single n tpls
           (AList.update ?name (f0\<lparr>fBuf := fBuf f0 @ Buf tpl\<rparr>) fl) w = (err, r, fl', w')"
        "tpls' = tpl\<lparr>File := ?name\<rparr> # r"
        by (auto simp: Let_def split: prod.splits)
      with Cons.IH show ?thesis by auto
    next
      case None
      obtain res w1 where lf: "LoadFile env ctx tset ?name a w = (res, w1)" by (cases "LoadFile env ctx tset ?name a w")
      have w1: "fs w1 = fs w" using LoadFile_fs [of env ctx tset ?name a w] lf by simp
      show ?thesis
      proof (cases res)
        case (Inl e)
        with None False Cons.prems lf w1 show ?thesis by (auto simp: Let_def)
      next
        case (Inr buf)
        with None False Cons.prems lf obtain r where
          "mergeEmitted env ctx tset a single n tpls
             (AList.update ?name \<lparr>fBuf = buf @ Buf tpl, fFile = ?name, fErr = []\<rparr> fl) w1 = (err, r, fl', w')"
          "tpls' = tpl\<lparr>File := ?name\<rparr> # r"
          by (auto simp: Let_def split: prod.splits)
        with Cons.IH w1 show ?thesis by auto
      qed
    qed
  qed
qed

lemma mergeEmitted_frag:
  "mergeEmitted env ctx tset a single n tpls fl w = (err, tpls', fl', w') \<Longrightarrow>
   map frag tpls' = map frag tpls"
proof -
  assume "mergeEmitted env ctx tset a single n tpls fl w = (err, tpls', fl', w')"
  from mergeEmitted_props [OF this]
  have "map Template tpls' = map Template tpls" "map Buf tpls' = map Buf tpls" by simp_all
  then show ?thesis
    by (induction tpls' tpls rule: list_induct2') (auto simp: frag_def)
qed

lemma mergeEmitted_files:
  "mergeEmitted env ctx tset a single n tpls fl w = (None, tpls', fl', w') \<Longrightarrow>
   map_of fl' fname =
     extendFile fname (seedOf env ctx tset a w fname)
       (filter (destined ctx tset single n fname) (map frag tpls)) (map_of fl fname)"
proof (induction tpls arbitrary: fl w tpls' fl' w')
  case Nil
  then show ?case by (simp add: extendFile_Nil)
next
  case (Cons tpl tpls)
  show ?case
  proof (cases "tTemplate (Template tpl) \<noteq> n")
    case True
    with Cons.prems obtain r where
      "mergeEmitted env ctx tset a single n tpls fl w = (None, r, fl', w')"
      by (auto split: prod.splits)
    from Cons.IH [OF this] True show ?thesis unfolding destined_Cons by simp
  next
    case False
    let ?name = "fileNameOf ctx tset single (Template tpl)"
    let ?sel = "filter (destined ctx tset single n fname) (map frag tpls)"
    show ?thesis
    proof (cases "map_of fl ?name")
      case (Some f0)
      with False Cons.prems obtain r where
        "mergeEmitted env ctx tset a single n tpls
           (AList.update ?name (f0\<lparr>fBuf := fBuf f0 @ Buf tpl\<rparr>) fl) w = (None, r, fl', w')"
        by (auto simp: Let_def split: prod.splits)
      from Cons.IH [OF this] have
        ih: "map_of fl' fname = extendFile fname (seedOf env ctx tset a w fname) ?sel
               (map_of (AList.update ?name (f0\<lparr>fBuf := fBuf f0 @ Buf tpl\<rparr>) fl) fname)" .
      show ?thesis
      proof (cases "fname = ?name")
        case True
        with ih Some False show ?thesis
          unfolding destined_Cons
          by (simp add: update_conv' extendFile_append extendFile_one_Some del: append.simps)
      next
        case neq: False
        with ih Some False show ?thesis
          unfolding destined_Cons
          by (simp add: update_conv')
      qed
    next
      case None
      obtain res w1 where lf: "LoadFile env ctx tset ?name a w = (res, w1)" by (cases "LoadFile env ctx tset ?name a w")
      have w1: "fs w1 = fs w" using LoadFile_fs [of env ctx tset ?name a w] lf by simp
      show ?thesis
      proof (cases res)
        case (Inl e)
        with None False Cons.prems lf show ?thesis by (auto simp: Let_def)
      next
        case (Inr buf)
        with None False Cons.prems lf obtain r where
          "mergeEmitted env ctx tset a single n tpls
             (AList.update ?name \<lparr>fBuf = buf @ Buf tpl, fFile = ?name, fErr = []\<rparr> fl) w1 = (None, r, fl', w')"
          by (auto simp: Let_def split: prod.splits)
        have "seedOf env ctx tset a w1 fname = seedOf env ctx tset a w fname"
          by (rule seedOf_cong [OF w1])
        with Cons.IH [OF \<open>mergeEmitted env ctx tset a single n tpls
             (AList.update ?name \<lparr>fBuf = buf @ Buf tpl, fFile = ?name, fErr = []\<rparr> fl) w1 = (None, r, fl', w')\<close>] have
          ih: "map_of fl' fname = extendFile fname (seedOf env ctx tset a w fname) ?sel
                 (map_of (AList.update ?name \<lparr>fBuf = buf @ Buf tpl, fFile = ?name, fErr = []\<rparr> fl) fname)"
          by simp
        have seed: "seedOf env ctx tset a w ?name = Inr buf"
          using lf Inr by (simp add: seedOf_def)
        show ?thesis
        proof (cases "fname = ?name")
          case True
          with ih None False seed show ?thesis
            unfolding destined_Cons
            by (simp add: update_conv' extendFile_append extendFile_one_None del: append.simps)
        next
          case neq: False
          with ih None False show ?thesis
            unfolding destined_Cons
            by (simp add: update_conv')
        qed
      qed
    qed
  qed
qed

lemma mergeOrder_props:
  "mergeOrder env ctx tset a single order tpls fl w = (err, tpls', fl', w') \<Longrightarrow>
   fs w' = fs w \<and> map frag tpls' = map frag tpls"
proof (induction order arbitrary: tpls fl w)
  case Nil
  then show ?case by simp
next
  case (Cons n ns)
  obtain e1 t1 f1 w1 where m: "mergeEmitted env ctx tset a single n tpls fl w = (e1, t1, f1, w1)"
    by (metis surj_pair)
  from mergeEmitted_props [OF m] mergeEmitted_frag [OF m]
  have p: "fs w1 = fs w" "map frag t1 = map frag tpls" by simp_all
  show ?case
  proof (cases e1)
    case None
    with Cons.prems m have "mergeOrder env ctx tset a single ns t1 f1 w1 = (err, tpls', fl', w')" by simp
    from Cons.IH [OF this] p show ?thesis by simp
  next
    case (Some e)
    with Cons.prems m p show ?thesis by simp
  qed
qed

lemma mergeOrder_files:
  "mergeOrder env ctx tset a single order tpls fl w = (None, tpls', fl', w') \<Longrightarrow>
   map_of fl' fname =
     extendFile fname (seedOf env ctx tset a w fname)
       (mergedInto ctx tset single order (map frag tpls) fname) (map_of fl fname)"
proof (induction order arbitrary: tpls fl w)
  case Nil
  then show ?case by (simp add: mergedInto_def extendFile_def)
next
  case (Cons n ns)
  obtain e1 t1 f1 w1 where m: "mergeEmitted env ctx tset a single n tpls fl w = (e1, t1, f1, w1)"
    by (metis surj_pair)
  with Cons.prems have e1: "e1 = None" by (cases e1) auto
  from mergeEmitted_props [OF m] mergeEmitted_frag [OF m]
  have p: "fs w1 = fs w" "map frag t1 = map frag tpls" by simp_all
  from Cons.prems m e1 have "mergeOrder env ctx tset a single ns t1 f1 w1 = (None, tpls', fl', w')" by simp
  from Cons.IH [OF this] have
    "map_of fl' fname = extendFile fname (seedOf env ctx tset a w1 fname)
       (mergedInto ctx tset single ns (map frag t1) fname) (map_of f1 fname)" .
  moreover have "seedOf env ctx tset a w1 fname = seedOf env ctx tset a w fname"
    by (rule seedOf_cong [OF p(1)])
  ultimately show ?case using p mergeEmitted_files [OF m [unfolded e1], of fname]
    by (simp add: mergedInto_def extendFile_append)
qed

section \<open>Process up to the merge loops\<close>

lemma Exec_emitted [simp]: "Exec env ctx (tset\<lparr>emitted := x\<rparr>) tpl = Exec env ctx tset tpl"
  by (simp add: Exec_def Load_def templateSrc_emitted Let_def split: sum.splits option.splits prod.splits)

lemma renderOne_emitted [simp]:
  "renderOne env ctx (tset\<lparr>emitted := x\<rparr>) = renderOne env ctx tset"
  by (simp add: renderOne_def fun_eq_iff)

lemma renders_emitted [simp]:
  "renders env ctx (tset\<lparr>emitted := x\<rparr>) tpls = renders env ctx tset tpls"
  by (simp add: renders_def)

lemma packageTemplates_emitted [simp]:
  "packageTemplates ctx a (tset\<lparr>emitted := x\<rparr>) = packageTemplates ctx a tset"
  by (simp add: packageTemplates_def split: option.splits)

lemma finalOrder_emitted [simp]:
  "finalOrder ctx a (tset\<lparr>emitted := x\<rparr>) = finalOrder ctx a tset"
  by (simp add: finalOrder_def split: option.splits)

lemma emitAll_emitted:
  "emitAll env ctx tset tpls = (e, t') \<Longrightarrow> \<exists>new. t' = tset\<lparr>emitted := emitted tset @ new\<rparr>"
proof (induction tpls arbitrary: tset)
  case Nil
  then show ?case by (auto intro: exI [of _ "[]"])
next
  case (Cons tpl tpls)
  show ?case
  proof (cases "Exec env ctx tset tpl")
    case (Inl err)
    with Cons.prems show ?thesis by (auto simp add: Emit_def intro: exI [of _ "[]"])
  next
    case (Inr buf)
    with Cons.prems have
      "emitAll env ctx (tset\<lparr>emitted := emitted tset @ [\<lparr>Template = tpl, Buf = buf, File = []\<rparr>]\<rparr>) tpls = (e, t')"
      by (simp add: Emit_def)
    from Cons.IH [OF this] show ?thesis by auto
  qed
qed

lemma emitAll_ok:
  "emitAll env ctx tset tpls = (None, t') \<longleftrightarrow>
     renders env ctx tset tpls \<and>
     t' = tset\<lparr>emitted := emitted tset @ map (renderOne env ctx tset) tpls\<rparr>"
proof (induction tpls arbitrary: tset)
  case Nil
  then show ?case by (auto simp: renders_def)
next
  case (Cons tpl tpls)
  show ?case
  proof (cases "Exec env ctx tset tpl")
    case (Inl err)
    then show ?thesis by (simp add: Emit_def renders_def)
  next
    case (Inr buf)
    then have "emitAll env ctx tset (tpl # tpls) =
      emitAll env ctx (tset\<lparr>emitted := emitted tset @ [\<lparr>Template = tpl, Buf = buf, File = []\<rparr>]\<rparr>) tpls"
      by (simp add: Emit_def)
    with Cons.IH [of "tset\<lparr>emitted := emitted tset @ [\<lparr>Template = tpl, Buf = buf, File = []\<rparr>]\<rparr>"] Inr
    show ?thesis
      by (simp add: renders_def renderOne_def)
  qed
qed

lemma emitAll_fails:
  "emitAll env ctx tset tpls = (Some e, t') \<Longrightarrow> \<not> renders env ctx tset tpls"
  using emitAll_ok [of env ctx tset tpls] by auto

lemma BuildFuncs_only_funcs:
  "BuildFuncs env ctx tset = (e, s1) \<Longrightarrow> s1 = tset\<lparr>funcs := funcs s1\<rparr>"
  by (auto simp add: BuildFuncs_def AddCustomFuncs_def customFuncs_def Let_def
      split: option.splits sum.splits InitValue.splits if_splits)

lemma packageStep_ok:
  "packageStep env ctx a tset = (None, t', order) \<longleftrightarrow>
     renders env ctx tset (packageTemplates ctx a tset) \<and>
     t' = tset\<lparr>emitted := emitted tset @ map (renderOne env ctx tset) (packageTemplates ctx a tset)\<rparr> \<and>
     order = finalOrder ctx a tset"
proof (cases "PackageTemplates tset")
  case None
  then show ?thesis
    by (auto simp: packageStep_def packageTemplates_def finalOrder_def renders_def)
next
  case (Some pt)
  show ?thesis
  proof (cases a)
    case True
    with Some show ?thesis
      by (auto simp: packageStep_def packageTemplates_def finalOrder_def renders_def)
  next
    case False
    obtain e t1 where ea: "emitAll env ctx tset (pt ctx) = (e, t1)" by (cases "emitAll env ctx tset (pt ctx)")
    show ?thesis
    proof (cases e)
      case None
      with ea emitAll_ok [of env ctx tset "pt ctx" t1] Some False show ?thesis
        by (auto simp: packageStep_def packageTemplates_def finalOrder_def removeMatching_filter Let_def)
    next
      case (Some err)
      with ea emitAll_fails [of env ctx tset "pt ctx" err t1] \<open>PackageTemplates tset = Some pt\<close> False
      show ?thesis
        by (auto simp: packageStep_def packageTemplates_def)
    qed
  qed
qed

lemma runLogic_ok:
  "runLogic env ctx a v tset = (None, t') \<longleftrightarrow>
     renders env ctx tset (fst (set_Process tset ctx a v)) \<and>
     snd (set_Process tset ctx a v) = None \<and>
     t' = tset\<lparr>emitted := emitted tset @ map (renderOne env ctx tset) (fst (set_Process tset ctx a v))\<rparr>"
proof -
  obtain tpls r where l: "set_Process tset ctx a v = (tpls, r)" by (cases "set_Process tset ctx a v")
  obtain e t1 where ea: "emitAll env ctx tset tpls = (e, t1)" by (cases "emitAll env ctx tset tpls")
  show ?thesis
  proof (cases e)
    case None
    with l ea emitAll_ok [of env ctx tset tpls t1] show ?thesis
      by (auto simp: runLogic_def)
  next
    case (Some err)
    with l ea emitAll_fails [of env ctx tset tpls err t1] show ?thesis
      by (auto simp: runLogic_def)
  qed
qed

lemma runLogic_fails:
  assumes "runLogic env ctx a v tset = (Some e, t')"
  shows "\<not> (renders env ctx tset (fst (set_Process tset ctx a v)) \<and> snd (set_Process tset ctx a v) = None)"
proof
  assume "renders env ctx tset (fst (set_Process tset ctx a v)) \<and> snd (set_Process tset ctx a v) = None"
  then have "runLogic env ctx a v tset =
     (None, tset\<lparr>emitted := emitted tset @ map (renderOne env ctx tset) (fst (set_Process tset ctx a v))\<rparr>)"
    by (simp add: runLogic_ok)
  with assms show False by simp
qed

lemma prepare_ok:
  "prepare env ctx a v tset = (Returns None, s3, order) \<longleftrightarrow>
     (\<exists>s1. BuildFuncs env ctx tset = (Returns None, s1) \<and>
        renders env ctx s1 (fst (set_Process s1 ctx a v)) \<and>
        snd (set_Process s1 ctx a v) = None \<and>
        renders env ctx s1 (packageTemplates ctx a s1) \<and>
        s3 = s1\<lparr>emitted := preparedEmitted env ctx a v s1\<rparr> \<and>
        order = finalOrder ctx a s1)"
proof -
  obtain e1 s1 where b: "BuildFuncs env ctx tset = (e1, s1)" by (cases "BuildFuncs env ctx tset")
  show ?thesis
  proof (cases e1)
    case (Panics msg)
    with b show ?thesis by (simp add: prepare_def)
  next
    case (Returns r1)
    show ?thesis
    proof (cases r1)
      case (Some err)
      with b Returns show ?thesis by (simp add: prepare_def)
    next
      case None
      obtain e2 s2 where r: "runLogic env ctx a v s1 = (e2, s2)" by (cases "runLogic env ctx a v s1")
      show ?thesis
      proof (cases e2)
        case (Some err)
        with b Returns None r runLogic_fails [of env ctx a v s1 err s2] show ?thesis
          by (auto simp: prepare_def)
      next
        case n2: None
        with r runLogic_ok [of env ctx a v s1 s2] have
          1: "renders env ctx s1 (fst (set_Process s1 ctx a v))" "snd (set_Process s1 ctx a v) = None"
          and s2: "s2 = s1\<lparr>emitted := emitted s1 @ map (renderOne env ctx s1) (fst (set_Process s1 ctx a v))\<rparr>"
          by simp_all
        obtain e3 t3 o3 where
          pk: "packageStep env ctx a (s2\<lparr>emitted := sortEmitted env (emitted s2)\<rparr>) = (e3, t3, o3)"
          by (metis surj_pair)
        have p: "prepare env ctx a v tset = (Returns e3, t3, o3)"
          using b Returns None r n2 pk by (simp add: prepare_def)
        have "(Returns e3, t3, o3) = (Returns None, s3, order) \<longleftrightarrow>
              packageStep env ctx a (s2\<lparr>emitted := sortEmitted env (emitted s2)\<rparr>) = (None, s3, order)"
          using pk by auto
        then show ?thesis
          unfolding p packageStep_ok
          using b Returns None 1 s2
          by (auto simp: preparedEmitted_def)
      qed
    qed
  qed
qed

lemma processSet_merge:
  "prepare env (buildContext tset ctx0) a v tset = (Returns None, s3, order) \<Longrightarrow>
   processSet env ctx0 a single v tset w =
     (case mergeOrder env (buildContext tset ctx0) s3 a single order (emitted s3) [] w of
        (err, tpls, fl, w') \<Rightarrow> (Returns err, s3\<lparr>emitted := tpls, files := fl\<rparr>, w'))"
  by (simp add: processSet_def)

section \<open>Fragments outside the processing order\<close>

lemma prepare_split:
  "prepareError env ctx0 a v tset = Returns None \<Longrightarrow>
   prepare env (buildContext tset ctx0) a v tset =
     (Returns None, preparedSet env ctx0 a v tset, preparedOrder env ctx0 a v tset)"
  by (simp add: prepareError_def preparedSet_def preparedOrder_def prod_eq_iff)

lemma processSet_prepared:
  "prepareError env ctx0 a v tset = Returns None \<Longrightarrow>
   processSet env ctx0 a single v tset w =
     (case mergeOrder env (buildContext tset ctx0) (preparedSet env ctx0 a v tset) a single
             (preparedOrder env ctx0 a v tset) (emitted (preparedSet env ctx0 a v tset)) [] w of
        (err, tpls, fl, w') \<Rightarrow>
          (Returns err, (preparedSet env ctx0 a v tset)\<lparr>emitted := tpls, files := fl\<rparr>, w'))"
  by (rule processSet_merge) (rule prepare_split)

lemma mergeEmitted_filter:
  "mergeEmitted env ctx tset a single n tpls fl w = (err, tpls', fl', w') \<Longrightarrow> n \<in> S \<Longrightarrow>
   mergeEmitted env ctx tset a single n (filter (\<lambda>t. tTemplate (Template t) \<in> S) tpls) fl w =
     (err, filter (\<lambda>t. tTemplate (Template t) \<in> S) tpls', fl', w') \<and>
   filter (\<lambda>t. tTemplate (Template t) \<notin> S) tpls' = filter (\<lambda>t. tTemplate (Template t) \<notin> S) tpls"
proof (induction tpls arbitrary: fl w err tpls' fl' w')
  case Nil
  then show ?case by simp
next
  case (Cons tpl tpls)
  show ?case
  proof (cases "tTemplate (Template tpl) \<noteq> n")
    case True
    with Cons.prems obtain r where
      r: "mergeEmitted env ctx tset a single n tpls fl w = (err, r, fl', w')" "tpls' = tpl # r"
      by (auto split: prod.splits)
    from Cons.IH [OF r(1) Cons.prems(2)] r(2) True show ?thesis by simp
  next
    case False
    then have inS: "tTemplate (Template tpl) \<in> S" using Cons.prems(2) by simp
    let ?name = "fileNameOf ctx tset single (Template tpl)"
    show ?thesis
    proof (cases "map_of fl ?name")
      case (Some f0)
      with False Cons.prems obtain r where
        r: "mergeEmitted env ctx tset a single n tpls
           (AList.update ?name (f0\<lparr>fBuf := fBuf f0 @ Buf tpl\<rparr>) fl) w = (err, r, fl', w')"
        "tpls' = tpl\<lparr>File := ?name\<rparr> # r"
        by (auto simp: Let_def split: prod.splits)
      from Cons.IH [OF r(1) Cons.prems(2)] r(2) False inS Some show ?thesis by (simp add: Let_def)
    next
      case None
      obtain res w1 where lf: "LoadFile env ctx tset ?name a w = (res, w1)"
        by (cases "LoadFile env ctx tset ?name a w")
      show ?thesis
      proof (cases res)
        case (Inl e)
        with None False Cons.prems lf inS show ?thesis by (auto simp: Let_def)
      next
        case (Inr buf)
        with None False Cons.prems lf obtain r where
          r: "mergeEmitted env ctx tset a single n tpls
             (AList.update ?name \<lparr>fBuf = buf @ Buf tpl, fFile = ?name, fErr = []\<rparr> fl) w1 = (err, r, fl', w')"
          "tpls' = tpl\<lparr>File := ?name\<rparr> # r"
          by (auto simp: Let_def split: prod.splits)
        from Cons.IH [OF r(1) Cons.prems(2)] r(2) False inS None lf Inr show ?thesis
          by (simp add: Let_def)
      qed
    qed
  qed
qed

lemma mergeOrder_filter:
  "mergeOrder env ctx tset a single order tpls fl w = (err, tpls', fl', w') \<Longrightarrow> set order \<subseteq> S \<Longrightarrow>
   mergeOrder env ctx tset a single order (filter (\<lambda>t. tTemplate (Template t) \<in> S) tpls) fl w =
     (err, filter (\<lambda>t. tTemplate (Template t) \<in> S) tpls', fl', w') \<and>
   filter (\<lambda>t. tTemplate (Template t) \<notin> S) tpls' = filter (\<lambda>t. tTemplate (Template t) \<notin> S) tpls"
proof (induction order arbitrary: tpls fl w)
  case Nil
  then show ?case by simp
next
  case (Cons n ns)
  obtain e1 t1 f1 w1 where m: "mergeEmitted env ctx tset a single n tpls fl w = (e1, t1, f1, w1)"
    by (metis surj_pair)
  from Cons.prems(2) have n: "n \<in> S" and ns: "set ns \<subseteq> S" by simp_all
  note F = mergeEmitted_filter [OF m n]
  show ?case
  proof (cases e1)
    case None
    with Cons.prems m have "mergeOrder env ctx tset a single ns t1 f1 w1 = (err, tpls', fl', w')" by simp
    from Cons.IH [OF this ns] F None show ?thesis by simp
  next
    case (Some e)
    with Cons.prems m F show ?thesis by auto
  qed
qed

text \<open>
  C10.  When \<open>Process\<close> gets to its merge loops, the error it returns, the file
  buffers it builds and the world it leaves are those of the same loops run on
  the emitted list without the fragments whose template name is not in the
  processing order; and those fragments are still in the emitted list as they
  were (no file name has been set on them).
\<close>

theorem unordered_fragments_discarded:
  assumes "prepareError env ctx0 doAppend v tset = Returns None"
  shows "(\<exists>err. fst (processSet env ctx0 doAppend single v tset w) = Returns err \<and>
           mergeOrder env (buildContext tset ctx0) (preparedSet env ctx0 doAppend v tset) doAppend single
             (preparedOrder env ctx0 doAppend v tset)
             (filter (\<lambda>t. tTemplate (Template t) \<in> set (preparedOrder env ctx0 doAppend v tset))
                (emitted (preparedSet env ctx0 doAppend v tset))) [] w =
           (err,
            filter (\<lambda>t. tTemplate (Template t) \<in> set (preparedOrder env ctx0 doAppend v tset))
              (emitted (fst (snd (processSet env ctx0 doAppend single v tset w)))),
            files (fst (snd (processSet env ctx0 doAppend single v tset w))),
            snd (snd (processSet env ctx0 doAppend single v tset w)))) \<and>
         filter (\<lambda>t. tTemplate (Template t) \<notin> set (preparedOrder env ctx0 doAppend v tset))
            (emitted (fst (snd (processSet env ctx0 doAppend single v tset w)))) =
         filter (\<lambda>t. tTemplate (Template t) \<notin> set (preparedOrder env ctx0 doAppend v tset))
            (emitted (preparedSet env ctx0 doAppend v tset))"
proof -
  let ?s3 = "preparedSet env ctx0 doAppend v tset"
  let ?order = "preparedOrder env ctx0 doAppend v tset"
  obtain err tpls fl w' where
    m: "mergeOrder env (buildContext tset ctx0) ?s3 doAppend single ?order (emitted ?s3) [] w = (err, tpls, fl, w')"
    by (metis surj_pair)
  from processSet_prepared [OF assms, of single w] m
  have p: "processSet env ctx0 doAppend single v tset w =
             (Returns err, ?s3\<lparr>emitted := tpls, files := fl\<rparr>, w')"
    by simp
  from mergeOrder_filter [OF m subset_refl] show ?thesis by (simp add: p)
qed

theorem unordered_fragments_discarded_witness:
  "prepareError demoEnv demoCtx False orphanModel (demoSet []) = Returns None \<and>
   filter (\<lambda>t. tTemplate (Template t) \<notin> set (preparedOrder demoEnv demoCtx False orphanModel (demoSet [])))
      (emitted (fst (snd (processSet demoEnv demoCtx False [] orphanModel (demoSet []) demoWorld)))) =
   filter (\<lambda>t. tTemplate (Template t) \<notin> set (preparedOrder demoEnv demoCtx False orphanModel (demoSet [])))
      (emitted (preparedSet demoEnv demoCtx False orphanModel (demoSet []))) \<and>
   map Buf (emitted (preparedSet demoEnv demoCtx False orphanModel (demoSet []))) = [''DB x;'', ''TABLE users;''] \<and>
   preparedOrder demoEnv demoCtx False orphanModel (demoSet []) = [''header'', ''table'', ''footer''] \<and>
   fst (processSet demoEnv demoCtx False [] orphanModel (demoSet []) demoWorld) = Returns None \<and>
   files (fst (snd (processSet demoEnv demoCtx False [] orphanModel (demoSet []) demoWorld))) =
     [(''out.go'', \<lparr>fBuf = ''TABLE users;'', fFile = ''out.go'', fErr = []\<rparr>)]"
proof -
  have h: "prepareError demoEnv demoCtx False orphanModel (demoSet []) = Returns None"
    by code_simp
  have c: "map Buf (emitted (preparedSet demoEnv demoCtx False orphanModel (demoSet []))) = [''DB x;'', ''TABLE users;'']"
    "preparedOrder demoEnv demoCtx False orphanModel (demoSet []) = [''header'', ''table'', ''footer'']"
    "fst (processSet demoEnv demoCtx False [] orphanModel (demoSet []) demoWorld) = Returns None"
    "files (fst (snd (processSet demoEnv demoCtx False [] orphanModel (demoSet []) demoWorld))) =
     [(''out.go'', \<lparr>fBuf = ''TABLE users;'', fFile = ''out.go'', fErr = []\<rparr>)]"
    by code_simp+
  from unordered_fragments_discarded [OF h, of "[]" demoWorld] h c show ?thesis by blast
qed

section \<open>Seeding a file buffer\<close>

lemma seedOf_seedSpec: "seedOf env ctx tset a w fname = seedSpec env ctx tset a w fname"
  by (auto simp: seedOf_def seedSpec_def headerSeed_def LoadFile_def os_Stat_def ioutil_ReadFile_def
      IsNotExist_def Let_def split: option.splits node.splits)

lemma mergeEmitted_dom:
  "mergeEmitted env ctx tset a single n tpls fl w = (None, tpls', fl', w') \<Longrightarrow>
   map_of fl fname \<noteq> None \<or> filter (destined ctx tset single n fname) (map frag tpls) \<noteq> [] \<Longrightarrow>
   map_of fl' fname \<noteq> None"
proof (induction tpls arbitrary: fl w tpls' fl' w')
  case Nil
  then show ?case by simp
next
  case (Cons tpl tpls)
  show ?case
  proof (cases "tTemplate (Template tpl) \<noteq> n")
    case True
    with Cons.prems obtain r where
      r: "mergeEmitted env ctx tset a single n tpls fl w = (None, r, fl', w')"
      by (auto split: prod.splits)
    from Cons.prems(2) True have
      "map_of fl fname \<noteq> None \<or> filter (destined ctx tset single n fname) (map frag tpls) \<noteq> []"
      unfolding destined_Cons by simp
    from Cons.IH [OF r this] show ?thesis .
  next
    case False
    let ?name = "fileNameOf ctx tset single (Template tpl)"
    show ?thesis
    proof (cases "map_of fl ?name")
      case (Some f0)
      with False Cons.prems obtain r where
        r: "mergeEmitted env ctx tset a single n tpls
           (AList.update ?name (f0\<lparr>fBuf := fBuf f0 @ Buf tpl\<rparr>) fl) w = (None, r, fl', w')"
        by (auto simp: Let_def split: prod.splits)
      from Cons.prems(2) Some False have
        "map_of (AList.update ?name (f0\<lparr>fBuf := fBuf f0 @ Buf tpl\<rparr>) fl) fname \<noteq> None \<or>
         filter (destined ctx tset single n fname) (map frag tpls) \<noteq> []"
        unfolding destined_Cons by (auto simp: update_conv' split: if_splits)
      from Cons.IH [OF r this] show ?thesis .
    next
      case None
      obtain res w1 where lf: "LoadFile env ctx tset ?name a w = (res, w1)"
        by (cases "LoadFile env ctx tset ?name a w")
      show ?thesis
      proof (cases res)
        case (Inl e)
        with None False Cons.prems lf show ?thesis by (auto simp: Let_def)
      next
        case (Inr buf)
        with None False Cons.prems lf obtain r where
          r: "mergeEmitted env ctx tset a single n tpls
             (AList.update ?name \<lparr>fBuf = buf @ Buf tpl, fFile = ?name, fErr = []\<rparr> fl) w1 = (None, r, fl', w')"
          by (auto simp: Let_def split: prod.splits)
        from Cons.prems(2) False have
          "map_of (AList.update ?name \<lparr>fBuf = buf @ Buf tpl, fFile = ?name, fErr = []\<rparr> fl) fname \<noteq> None \<or>
           filter (destined ctx tset single n fname) (map frag tpls) \<noteq> []"
          unfolding destined_Cons by (auto simp: update_conv' split: if_splits)
        from Cons.IH [OF r this] show ?thesis .
      qed
    qed
  qed
qed

lemma mergeOrder_dom:
  "mergeOrder env ctx tset a single order tpls fl w = (None, tpls', fl', w') \<Longrightarrow>
   map_of fl fname \<noteq> None \<or> mergedInto ctx tset single order (map frag tpls) fname \<noteq> [] \<Longrightarrow>
   map_of fl' fname \<noteq> None"
proof (induction order arbitrary: tpls fl w)
  case Nil
  then show ?case by (simp add: mergedInto_def)
next
  case (Cons n ns)
  obtain e1 t1 f1 w1 where m: "mergeEmitted env ctx tset a single n tpls fl w = (e1, t1, f1, w1)"
    by (metis surj_pair)
  with Cons.prems have e1: "e1 = None" by (cases e1) auto
  from mergeEmitted_frag [OF m] have fr: "map frag t1 = map frag tpls" .
  from Cons.prems m e1 have rest: "mergeOrder env ctx tset a single ns t1 f1 w1 = (None, tpls', fl', w')" by simp
  from Cons.prems(2) have
    "(map_of fl fname \<noteq> None \<or> filter (destined ctx tset single n fname) (map frag tpls) \<noteq> []) \<or>
     mergedInto ctx tset single ns (map frag tpls) fname \<noteq> []"
    by (auto simp: mergedInto_def)
  then have "map_of f1 fname \<noteq> None \<or> mergedInto ctx tset single ns (map frag t1) fname \<noteq> []"
    using mergeEmitted_dom [OF m [unfolded e1], of fname] fr by auto
  from Cons.IH [OF rest this] show ?case .
qed

lemma merged_file:
  assumes m: "mergeOrder env ctx tset a single order tpls [] w = (None, tpls', fl', w')"
  shows "map_of fl' fname =
     (if mergedInto ctx tset single order (map frag tpls) fname = [] then None
      else case seedSpec env ctx tset a w fname of
             Inr seed \<Rightarrow> Some \<lparr>fBuf = seed @ concat (map snd (mergedInto ctx tset single order (map frag tpls) fname)),
                              fFile = fname, fErr = []\<rparr>
           | Inl e \<Rightarrow> None) \<and>
     (mergedInto ctx tset single order (map frag tpls) fname \<noteq> [] \<longrightarrow>
        \<not> isl (seedSpec env ctx tset a w fname))"
proof -
  from mergeOrder_files [OF m, of fname] have
    1: "map_of fl' fname = extendFile fname (seedSpec env ctx tset a w fname)
          (mergedInto ctx tset single order (map frag tpls) fname) None"
    by (simp add: seedOf_seedSpec)
  have 2: "map_of fl' fname \<noteq> None" if "mergedInto ctx tset single order (map frag tpls) fname \<noteq> []"
    using mergeOrder_dom [OF m, of fname] that by simp
  from 1 2 show ?thesis
    by (auto simp: extendFile_def split: sum.splits)
qed

text \<open>
  C4, as the code has it.  When \<open>Process\<close> gets to its merge loops: the seed of a
  file buffer is what \<open>LoadFile\<close> returns, which is \<open>seedSpec\<close>; if \<open>Process\<close> succeeds,
  a file name has a buffer exactly when a fragment is merged into it, and the
  buffer is the seed followed by these fragments; if a fragment is to be merged
  into a file whose seed is an error, \<open>Process\<close> fails.  By \<open>seedSpec\<close> a directory
  at the resolved path is an error in append mode only.
\<close>

theorem first_fragment_seeds_buffer:
  assumes "prepareError env ctx0 doAppend v tset = Returns None"
  shows "fst (LoadFile env (buildContext tset ctx0) (preparedSet env ctx0 doAppend v tset) fname doAppend w) =
           seedSpec env (buildContext tset ctx0) (preparedSet env ctx0 doAppend v tset) doAppend w fname \<and>
         (fst (processSet env ctx0 doAppend single v tset w) = Returns None \<longrightarrow>
            map_of (files (fst (snd (processSet env ctx0 doAppend single v tset w)))) fname =
              (if mergedInto (buildContext tset ctx0) (preparedSet env ctx0 doAppend v tset) single
                    (preparedOrder env ctx0 doAppend v tset)
                    (map frag (emitted (preparedSet env ctx0 doAppend v tset))) fname = []
               then None
               else case seedSpec env (buildContext tset ctx0) (preparedSet env ctx0 doAppend v tset) doAppend w fname of
                      Inr seed \<Rightarrow>
                        Some \<lparr>fBuf = seed @ concat (map snd
                                 (mergedInto (buildContext tset ctx0) (preparedSet env ctx0 doAppend v tset) single
                                    (preparedOrder env ctx0 doAppend v tset)
                                    (map frag (emitted (preparedSet env ctx0 doAppend v tset))) fname)),
                              fFile = fname, fErr = []\<rparr>
                    | Inl e \<Rightarrow> None)) \<and>
         (mergedInto (buildContext tset ctx0) (preparedSet env ctx0 doAppend v tset) single
             (preparedOrder env ctx0 doAppend v tset)
             (map frag (emitted (preparedSet env ctx0 doAppend v tset))) fname \<noteq> [] \<and>
          isl (seedSpec env (buildContext tset ctx0) (preparedSet env ctx0 doAppend v tset) doAppend w fname) \<longrightarrow>
            (\<exists>e. fst (processSet env ctx0 doAppend single v tset w) = Returns (Some e)))"
proof -
  let ?ctx = "buildContext tset ctx0"
  let ?s3 = "preparedSet env ctx0 doAppend v tset"
  let ?order = "preparedOrder env ctx0 doAppend v tset"
  obtain err tpls fl w' where
    m: "mergeOrder env ?ctx ?s3 doAppend single ?order (emitted ?s3) [] w = (err, tpls, fl, w')"
    by (metis surj_pair)
  from processSet_prepared [OF assms, of single w] m
  have p: "processSet env ctx0 doAppend single v tset w =
             (Returns err, ?s3\<lparr>emitted := tpls, files := fl\<rparr>, w')"
    by simp
  have 1: "fst (LoadFile env ?ctx ?s3 fname doAppend w) = seedSpec env ?ctx ?s3 doAppend w fname"
    using seedOf_seedSpec [of env ?ctx ?s3 doAppend w fname] by (simp add: seedOf_def)
  show ?thesis
  proof (cases err)
    case None
    from merged_file [OF m [unfolded None], of fname] 1 show ?thesis
      unfolding p None by (intro conjI impI) auto
  next
    case (Some e)
    with 1 show ?thesis by (simp add: p)
  qed
qed

theorem first_fragment_seeds_buffer_witness:
  "prepareError demoEnv demoCtx True usersModel headedSet = Returns None \<and>
   fst (LoadFile demoEnv (buildContext headedSet demoCtx) (preparedSet demoEnv demoCtx True usersModel headedSet)
          ''out.go'' True (diskWorld (Regular ''OLD;''))) =
     seedSpec demoEnv (buildContext headedSet demoCtx) (preparedSet demoEnv demoCtx True usersModel headedSet)
          True (diskWorld (Regular ''OLD;'')) ''out.go'' \<and>
   seedSpec demoEnv (buildContext headedSet demoCtx) (preparedSet demoEnv demoCtx True usersModel headedSet)
          True (diskWorld (Regular ''OLD;'')) ''out.go'' = Inr ''OLD;'' \<and>
   files (fst (snd (processSet demoEnv demoCtx True [] usersModel headedSet (diskWorld (Regular ''OLD;''))))) =
     [(''out.go'', \<lparr>fBuf = ''OLD;TABLE users;'', fFile = ''out.go'', fErr = []\<rparr>)] \<and>
   files (fst (snd (processSet demoEnv demoCtx True [] usersModel headedSet demoWorld))) =
     [(''out.go'', \<lparr>fBuf = ''HEADER ;TABLE users;'', fFile = ''out.go'', fErr = []\<rparr>)] \<and>
   fst (processSet demoEnv demoCtx True [] usersModel headedSet (diskWorld Directory)) =
     Returns (Some (IsDirectory ''out/out.go''))"
proof -
  have h: "prepareError demoEnv demoCtx True usersModel headedSet = Returns None"
    by code_simp
  have c: "seedSpec demoEnv (buildContext headedSet demoCtx) (preparedSet demoEnv demoCtx True usersModel headedSet)
          True (diskWorld (Regular ''OLD;'')) ''out.go'' = Inr ''OLD;''"
    "files (fst (snd (processSet demoEnv demoCtx True [] usersModel headedSet (diskWorld (Regular ''OLD;''))))) =
     [(''out.go'', \<lparr>fBuf = ''OLD;TABLE users;'', fFile = ''out.go'', fErr = []\<rparr>)]"
    "files (fst (snd (processSet demoEnv demoCtx True [] usersModel headedSet demoWorld))) =
     [(''out.go'', \<lparr>fBuf = ''HEADER ;TABLE users;'', fFile = ''out.go'', fErr = []\<rparr>)]"
    "fst (processSet demoEnv demoCtx True [] usersModel headedSet (diskWorld Directory)) =
     Returns (Some (IsDirectory ''out/out.go''))"
    by code_simp+
  from first_fragment_seeds_buffer [OF h, of "''out.go''" "diskWorld (Regular ''OLD;'')" "[]"] h c
  show ?thesis by blast
qed

text \<open>
  C4 as stated fails without append mode: the resolved path \<open>out/out.go\<close> is a
  directory, and \<open>Process\<close> returns no error; the buffer is seeded with the header.
\<close>

theorem directory_without_append_counterexample:
  "fs (diskWorld Directory) (Join demoEnv (Out demoCtx) ''out.go'') = Some Directory \<and>
   fst (Process demoEnv demoCtx False [] usersModel [(''demo'', headedSet)] (diskWorld Directory)) = Returns None \<and>
   files (fst (snd (processSet demoEnv demoCtx False [] usersModel headedSet (diskWorld Directory)))) =
     [(''out.go'', \<lparr>fBuf = ''HEADER ;TABLE users;'', fFile = ''out.go'', fErr = []\<rparr>)]"
  by code_simp

section \<open>What a run reads from the set\<close>

text \<open>The file buffers the set holds before a run.\<close>

lemma templateSrc_files [simp]: "templateSrc ctx (tset\<lparr>files := x\<rparr>) = templateSrc ctx tset"
  by (simp add: templateSrc_def split: option.splits)

lemma Exec_files [simp]: "Exec env ctx (tset\<lparr>files := x\<rparr>) tpl = Exec env ctx tset tpl"
  by (simp add: Exec_def Load_def Let_def split: sum.splits option.splits prod.splits)

lemma Emit_files:
  "Emit env ctx (tset\<lparr>files := x\<rparr>) tpl =
     (case Emit env ctx tset tpl of (e, s) \<Rightarrow> (e, s\<lparr>files := x\<rparr>))"
  by (simp add: Emit_def split: sum.splits)

lemma emitAll_files:
  "emitAll env ctx (tset\<lparr>files := x\<rparr>) tpls =
     (case emitAll env ctx tset tpls of (e, s) \<Rightarrow> (e, s\<lparr>files := x\<rparr>))"
proof (induction tpls arbitrary: tset)
  case Nil
  then show ?case by simp
next
  case (Cons tpl tpls)
  obtain e s where em: "Emit env ctx tset tpl = (e, s)" by (cases "Emit env ctx tset tpl")
  then show ?case
    by (cases e) (simp_all add: Emit_files Cons.IH)
qed

lemma BuildFuncs_files:
  "BuildFuncs env ctx (tset\<lparr>files := x\<rparr>) =
     (case BuildFuncs env ctx tset of (e, s) \<Rightarrow> (e, s\<lparr>files := x\<rparr>))"
  by (auto simp add: BuildFuncs_def AddCustomFuncs_def templateSrc_funcs split: option.splits prod.splits)

lemma runLogic_files:
  "runLogic env ctx a v (tset\<lparr>files := x\<rparr>) =
     (case runLogic env ctx a v tset of (e, s) \<Rightarrow> (e, s\<lparr>files := x\<rparr>))"
  by (simp add: runLogic_def emitAll_files split: prod.splits option.splits)

lemma packageStep_files:
  "packageStep env ctx a (tset\<lparr>files := x\<rparr>) =
     (case packageStep env ctx a tset of (e, s, order) \<Rightarrow> (e, s\<lparr>files := x\<rparr>, order))"
  by (simp add: packageStep_def emitAll_files Let_def split: prod.splits option.splits)

lemma prepare_files:
  "prepare env ctx a v (tset\<lparr>files := x\<rparr>) =
     (case prepare env ctx a v tset of (e, s, order) \<Rightarrow> (e, s\<lparr>files := x\<rparr>, order))"
proof -
  have sw: "s\<lparr>files := x, emitted := y\<rparr> = s\<lparr>emitted := y, files := x\<rparr>" for s :: "'a TemplateSet" and y
    by simp
  show ?thesis
    by (simp add: prepare_def BuildFuncs_files runLogic_files packageStep_files sw
        split: prod.splits option.splits exit.splits)
qed

lemma LoadFile_files [simp]:
  "LoadFile env ctx (tset\<lparr>files := x\<rparr>) fname a w = LoadFile env ctx tset fname a w"
  by (simp add: LoadFile_def Let_def split: prod.splits option.splits)

lemma fileNameOf_files [simp]:
  "fileNameOf ctx (tset\<lparr>files := x\<rparr>) single tpl = fileNameOf ctx tset single tpl"
  by (simp add: fileNameOf_def)

lemma mergeEmitted_files_frame [simp]:
  "mergeEmitted env ctx (tset\<lparr>files := x\<rparr>) a single n tpls fl w =
   mergeEmitted env ctx tset a single n tpls fl w"
  by (induction tpls arbitrary: fl w) (simp_all add: Let_def split: prod.splits option.splits sum.splits)

lemma mergeOrder_files_frame [simp]:
  "mergeOrder env ctx (tset\<lparr>files := x\<rparr>) a single order tpls fl w =
   mergeOrder env ctx tset a single order tpls fl w"
  by (induction order arbitrary: tpls fl w) (simp_all split: prod.splits option.splits)

lemma buildContext_files [simp]: "buildContext (tset\<lparr>files := x\<rparr>) ctx0 = buildContext tset ctx0"
  by (simp add: buildContext_def)

text \<open>The function map the set holds before a run.\<close>

lemma buildContext_funcs [simp]: "buildContext (tset\<lparr>funcs := x\<rparr>) ctx0 = buildContext tset ctx0"
  by (simp add: buildContext_def)

lemma BuildFuncs_funcs [simp]: "BuildFuncs env ctx (tset\<lparr>funcs := x\<rparr>) = BuildFuncs env ctx tset"
  by (simp add: BuildFuncs_def AddCustomFuncs_def templateSrc_funcs split: option.splits)

lemma prepare_funcs [simp]: "prepare env ctx a v (tset\<lparr>funcs := x\<rparr>) = prepare env ctx a v tset"
  by (simp add: prepare_def)

lemma processSet_funcs [simp]:
  "processSet env ctx0 a single v (tset\<lparr>funcs := x\<rparr>) w = processSet env ctx0 a single v tset w"
  by (simp add: processSet_def)

text \<open>The generation logic: only \<open>Process\<close> itself calls it.\<close>

lemma templateSrc_logic [simp]:
  "templateSrc ctx (tset\<lparr>set_Process := p\<rparr>) = templateSrc ctx tset"
  by (simp add: templateSrc_def split: option.splits)

lemma Exec_logic [simp]: "Exec env ctx (tset\<lparr>set_Process := p\<rparr>) tpl = Exec env ctx tset tpl"
  by (simp add: Exec_def Load_def Let_def split: sum.splits option.splits prod.splits)

lemma renderOne_logic [simp]:
  "renderOne env ctx (tset\<lparr>set_Process := p\<rparr>) = renderOne env ctx tset"
  by (simp add: renderOne_def fun_eq_iff)

lemma renders_logic [simp]:
  "renders env ctx (tset\<lparr>set_Process := p\<rparr>) tpls = renders env ctx tset tpls"
  by (simp add: renders_def)

lemma packageTemplates_logic [simp]:
  "packageTemplates ctx a (tset\<lparr>set_Process := p\<rparr>) = packageTemplates ctx a tset"
  by (simp add: packageTemplates_def split: option.splits)

lemma finalOrder_logic [simp]:
  "finalOrder ctx a (tset\<lparr>set_Process := p\<rparr>) = finalOrder ctx a tset"
  by (simp add: finalOrder_def split: option.splits)

lemma buildContext_logic [simp]:
  "buildContext (tset\<lparr>set_Process := p\<rparr>) ctx0 = buildContext tset ctx0"
  by (simp add: buildContext_def)

lemma BuildFuncs_logic:
  "BuildFuncs env ctx (tset\<lparr>set_Process := p\<rparr>) =
     (case BuildFuncs env ctx tset of (e, s) \<Rightarrow> (e, s\<lparr>set_Process := p\<rparr>))"
  by (auto simp add: BuildFuncs_def AddCustomFuncs_def templateSrc_funcs split: option.splits prod.splits)

lemma LoadFile_logic [simp]:
  "LoadFile env ctx (tset\<lparr>set_Process := p\<rparr>) fname a w = LoadFile env ctx tset fname a w"
  by (simp add: LoadFile_def Let_def split: prod.splits option.splits)

lemma fileNameOf_logic [simp]:
  "fileNameOf ctx (tset\<lparr>set_Process := p\<rparr>) single tpl = fileNameOf ctx tset single tpl"
  by (simp add: fileNameOf_def)

lemma mergeEmitted_logic [simp]:
  "mergeEmitted env ctx (tset\<lparr>set_Process := p\<rparr>) a single n tpls fl w =
   mergeEmitted env ctx tset a single n tpls fl w"
  by (induction tpls arbitrary: fl w) (simp_all add: Let_def split: prod.splits option.splits sum.splits)

lemma mergeOrder_logic [simp]:
  "mergeOrder env ctx (tset\<lparr>set_Process := p\<rparr>) a single order tpls fl w =
   mergeOrder env ctx tset a single order tpls fl w"
  by (induction order arbitrary: tpls fl w) (simp_all split: prod.splits option.splits)

section \<open>Process as a whole\<close>

lemma processSet_files:
  "prepareError env ctx0 a v tset = Returns None \<Longrightarrow>
   processSet env ctx0 a single v (tset\<lparr>files := x\<rparr>) w = processSet env ctx0 a single v tset w"
proof -
  assume ok: "prepareError env ctx0 a v tset = Returns None"
  from prepare_split [OF ok] have
    "prepare env (buildContext tset ctx0) a v (tset\<lparr>files := x\<rparr>) =
       (Returns None, (preparedSet env ctx0 a v tset)\<lparr>files := x\<rparr>, preparedOrder env ctx0 a v tset)"
    by (simp add: prepare_files)
  then have "processSet env ctx0 a single v (tset\<lparr>files := x\<rparr>) w =
     (case mergeOrder env (buildContext tset ctx0) (preparedSet env ctx0 a v tset) a single
             (preparedOrder env ctx0 a v tset) (emitted (preparedSet env ctx0 a v tset)) [] w of
        (err, tpls, fl, w') \<Rightarrow>
          (Returns err, (preparedSet env ctx0 a v tset)\<lparr>emitted := tpls, files := fl\<rparr>, w'))"
    by (simp add: processSet_def split: prod.splits)
  with processSet_prepared [OF ok, of single w] show ?thesis by simp
qed

text \<open>A run that does not get to the merge loops.\<close>

lemma processSet_not_prepared:
  "prepareError env ctx0 a v tset \<noteq> Returns None \<Longrightarrow>
   processSet env ctx0 a single v tset w =
     (prepareError env ctx0 a v tset, preparedSet env ctx0 a v tset, w)"
proof -
  assume n: "prepareError env ctx0 a v tset \<noteq> Returns None"
  obtain ex s order where p: "prepare env (buildContext tset ctx0) a v tset = (ex, s, order)"
    by (metis surj_pair)
  with n have "ex \<noteq> Returns None" by (simp add: prepareError_def)
  with p show ?thesis
    by (cases ex) (auto simp: processSet_def prepareError_def preparedSet_def)
qed


lemma runLogic_emitted:
  "runLogic env ctx a v tset = (e, t') \<Longrightarrow> \<exists>new. t' = tset\<lparr>emitted := emitted tset @ new\<rparr>"
proof -
  assume r: "runLogic env ctx a v tset = (e, t')"
  obtain tpls res where l: "set_Process tset ctx a v = (tpls, res)" by (cases "set_Process tset ctx a v")
  obtain e1 t1 where ea: "emitAll env ctx tset tpls = (e1, t1)" by (cases "emitAll env ctx tset tpls")
  from emitAll_emitted [OF ea] obtain new where "t1 = tset\<lparr>emitted := emitted tset @ new\<rparr>" by blast
  moreover from r l ea have "t' = t1" by (cases e1) (auto simp: runLogic_def)
  ultimately show ?thesis by blast
qed

lemma packageStep_emitted:
  "packageStep env ctx a tset = (e, t', order) \<Longrightarrow> \<exists>new. t' = tset\<lparr>emitted := emitted tset @ new\<rparr>"
proof (cases "PackageTemplates tset")
  case None
  assume "packageStep env ctx a tset = (e, t', order)"
  with None show ?thesis by (auto simp: packageStep_def intro: exI [of _ "[]"])
next
  case (Some pt)
  assume p: "packageStep env ctx a tset = (e, t', order)"
  show ?thesis
  proof (cases a)
    case True
    with Some p show ?thesis by (auto simp: packageStep_def intro: exI [of _ "[]"])
  next
    case False
    obtain e1 t1 where ea: "emitAll env ctx tset (pt ctx) = (e1, t1)" by (cases "emitAll env ctx tset (pt ctx)")
    from emitAll_emitted [OF ea] obtain new where "t1 = tset\<lparr>emitted := emitted tset @ new\<rparr>" by blast
    moreover from p Some False ea have "t' = t1" by (cases e1) (auto simp: packageStep_def Let_def)
    ultimately show ?thesis by blast
  qed
qed

text \<open>
  Up to the merge loops \<open>Process\<close> writes \<open>set.funcs\<close> and \<open>set.emitted\<close> and nothing
  else of the set; under the contract of \<open>sort.Slice\<close> the fragments the set held are
  still in the emitted list.
\<close>

lemma prepare_touches:
  "prepare env ctx a v tset = (ex, s3, order) \<Longrightarrow>
   s3 = tset\<lparr>funcs := funcs s3, emitted := emitted s3\<rparr> \<and>
   (sortsEmitted env \<longrightarrow> mset (emitted tset) \<subseteq># mset (emitted s3))"
proof -
  assume p: "prepare env ctx a v tset = (ex, s3, order)"
  obtain e1 s1 where b: "BuildFuncs env ctx tset = (e1, s1)" by (cases "BuildFuncs env ctx tset")
  from BuildFuncs_only_funcs [OF b] have s1: "s1 = tset\<lparr>funcs := funcs s1\<rparr>" .
  have em1: "emitted s1 = emitted tset" by (subst s1) simp
  show ?thesis
  proof (cases e1)
    case (Panics msg)
    with p b have "s3 = s1" by (simp add: prepare_def)
    with s1 em1 show ?thesis by (metis (no_types) TemplateSet.surjective TemplateSet.update_convs(13,14) subset_mset.order_refl)
  next
    case (Returns r1)
    show ?thesis
    proof (cases r1)
      case (Some err)
      with p b Returns have "s3 = s1" by (simp add: prepare_def)
      with s1 em1 show ?thesis by (metis (no_types) TemplateSet.surjective TemplateSet.update_convs(13,14) subset_mset.order_refl)
    next
      case None
      obtain e2 s2 where r: "runLogic env ctx a v s1 = (e2, s2)" by (cases "runLogic env ctx a v s1")
      from runLogic_emitted [OF r] obtain new where s2: "s2 = s1\<lparr>emitted := emitted s1 @ new\<rparr>" by blast
      show ?thesis
      proof (cases e2)
        case (Some err)
        with p b Returns None r have "s3 = s2" by (simp add: prepare_def)
        with s2 have "s3 = tset\<lparr>funcs := funcs s1, emitted := emitted tset @ new\<rparr>"
          by (subst (asm) s1) (simp add: em1)
        then show ?thesis by simp
      next
        case n2: None
        obtain e3 t3 o3 where
          pk: "packageStep env ctx a (s2\<lparr>emitted := sortEmitted env (emitted s2)\<rparr>) = (e3, t3, o3)"
          by (metis surj_pair)
        with p b Returns None r n2 have s3: "s3 = t3" by (simp add: prepare_def)
        from packageStep_emitted [OF pk] obtain new2 where
          "t3 = s2\<lparr>emitted := sortEmitted env (emitted s2) @ new2\<rparr>" by auto
        with s3 s2 have e: "s3 = tset\<lparr>funcs := funcs s1, emitted := sortEmitted env (emitted tset @ new) @ new2\<rparr>"
          by (subst (asm) s1) (simp add: em1)
        then show ?thesis by (simp add: mset_sortEmitted)
      qed
    qed
  qed
qed

lemma preparedSet_files: "files (preparedSet env ctx0 a v tset) = files tset"
proof -
  obtain ex s3 order where p: "prepare env (buildContext tset ctx0) a v tset = (ex, s3, order)"
    by (metis surj_pair)
  from prepare_touches [OF p] have "s3 = tset\<lparr>funcs := funcs s3, emitted := emitted s3\<rparr>" by simp
  then have "files s3 = files tset" by (metis TemplateSet.select_convs(15) TemplateSet.surjective TemplateSet.update_convs(13,14))
  with p show ?thesis by (simp add: preparedSet_def)
qed

lemma Process_registered:
  "map_of templates (TemplateType ctx) = Some tset \<Longrightarrow>
   Process env ctx a single v templates w =
     (case processSet env ctx a single v tset w of
        (ex, tset', w') \<Rightarrow> (ex, AList.update (TemplateType ctx) tset' templates, w'))"
  by (simp add: Process_def)

lemma Process_updated:
  "Process env ctx a single v (AList.update (TemplateType ctx) tset templates) w =
     (case processSet env ctx a single v tset w of
        (ex, tset', w') \<Rightarrow> (ex, AList.update (TemplateType ctx) tset' templates, w'))"
  by (simp add: Process_def update_conv' split: prod.splits)

lemma keyOf_frag: "keyOf (frag e) = fragKey e"
  by (simp add: keyOf_def frag_def fragKey_def)

lemma sorted_filter_frags:
  "sortsEmitted env \<Longrightarrow> sorted (map keyOf (filter P (map frag (sortEmitted env tpl))))"
proof -
  assume srt: "sortsEmitted env"
  have "map keyOf (map frag (sortEmitted env tpl)) = map fragKey (sortEmitted env tpl)"
    by (simp add: keyOf_frag)
  then have "sorted (map keyOf (map frag (sortEmitted env tpl)))"
    by (simp only: sorted_sortEmitted [OF srt])
  then show ?thesis by (rule sorted_filter)
qed

lemma prepared_parts:
  assumes ok: "prepareError env ctx0 a v tset = Returns None"
  shows "preparedSet env ctx0 a v tset =
           (builtSet env ctx0 tset)\<lparr>emitted := sortEmitted env (logicEmitted env ctx0 a v tset) @
                                               packageEmitted env ctx0 a tset\<rparr>"
    and "preparedOrder env ctx0 a v tset = finalOrder (buildContext tset ctx0) a tset"
    and "BuildFuncs env (buildContext tset ctx0) tset = (Returns None, builtSet env ctx0 tset)"
    and "renders env (buildContext tset ctx0) (builtSet env ctx0 tset)
           (fst (set_Process tset (buildContext tset ctx0) a v))"
    and "snd (set_Process tset (buildContext tset ctx0) a v) = None"
    and "renders env (buildContext tset ctx0) (builtSet env ctx0 tset)
           (packageTemplates (buildContext tset ctx0) a tset)"
proof -
  let ?ctx = "buildContext tset ctx0"
  from prepare_split [OF ok] prepare_ok [of env ?ctx a v tset]
  obtain s1 where b: "BuildFuncs env ?ctx tset = (Returns None, s1)"
    and r: "renders env ?ctx s1 (fst (set_Process s1 ?ctx a v))"
    and n: "snd (set_Process s1 ?ctx a v) = None"
    and rp: "renders env ?ctx s1 (packageTemplates ?ctx a s1)"
    and s3: "preparedSet env ctx0 a v tset = s1\<lparr>emitted := preparedEmitted env ?ctx a v s1\<rparr>"
    and o: "preparedOrder env ctx0 a v tset = finalOrder ?ctx a s1"
    by auto
  from b have s1: "s1 = builtSet env ctx0 tset" by (simp add: builtSet_def)
  from BuildFuncs_only_funcs [OF b] have f: "s1 = tset\<lparr>funcs := funcs s1\<rparr>" .
  have sp: "set_Process s1 = set_Process tset" by (subst f) simp
  have em: "emitted s1 = emitted tset" by (subst f) simp
  have pk: "packageTemplates ?ctx a s1 = packageTemplates ?ctx a tset"
    by (subst f) (simp add: packageTemplates_def split: option.splits)
  have fo: "finalOrder ?ctx a s1 = finalOrder ?ctx a tset"
    by (subst f) (simp add: finalOrder_def split: option.splits)
  show "preparedSet env ctx0 a v tset =
           (builtSet env ctx0 tset)\<lparr>emitted := sortEmitted env (logicEmitted env ctx0 a v tset) @
                                               packageEmitted env ctx0 a tset\<rparr>"
    using s3 sp em pk
    by (simp add: preparedEmitted_def logicEmitted_def packageEmitted_def s1 [symmetric])
  show "preparedOrder env ctx0 a v tset = finalOrder ?ctx a tset" using o fo by simp
  show "BuildFuncs env ?ctx tset = (Returns None, builtSet env ctx0 tset)" using b s1 by simp
  show "renders env ?ctx (builtSet env ctx0 tset) (fst (set_Process tset ?ctx a v))"
    using r sp s1 by simp
  show "snd (set_Process tset ?ctx a v) = None" using n sp by simp
  show "renders env ?ctx (builtSet env ctx0 tset) (packageTemplates ?ctx a tset)"
    using rp pk s1 by simp
qed

text \<open>
  The file buffers of a run of \<open>Process\<close> that returns nil: a file name has a buffer
  exactly when a fragment is merged into it, and the buffer is the seed of that
  file followed by the fragments merged into it.
\<close>

lemma processSet_file:
  assumes ok: "prepareError env ctx0 a v tset = Returns None"
    and succ: "fst (processSet env ctx0 a single v tset w) = Returns None"
  shows "map_of (files (fst (snd (processSet env ctx0 a single v tset w)))) fname =
     (if mergedInto (buildContext tset ctx0) (preparedSet env ctx0 a v tset) single
            (finalOrder (buildContext tset ctx0) a tset)
            (map frag (sortEmitted env (logicEmitted env ctx0 a v tset) @ packageEmitted env ctx0 a tset))
            fname = []
      then None
      else case seedSpec env (buildContext tset ctx0) (preparedSet env ctx0 a v tset) a w fname of
             Inr seed \<Rightarrow>
               Some \<lparr>fBuf = seed @ concat (map snd
                        (mergedInto (buildContext tset ctx0) (preparedSet env ctx0 a v tset) single
                           (finalOrder (buildContext tset ctx0) a tset)
                           (map frag (sortEmitted env (logicEmitted env ctx0 a v tset) @
                                      packageEmitted env ctx0 a tset)) fname)),
                     fFile = fname, fErr = []\<rparr>
           | Inl e \<Rightarrow> None)"
proof -
  let ?ctx = "buildContext tset ctx0"
  let ?s3 = "preparedSet env ctx0 a v tset"
  let ?order = "preparedOrder env ctx0 a v tset"
  note parts = prepared_parts [OF ok]
  from parts(1) have em: "emitted ?s3 = sortEmitted env (logicEmitted env ctx0 a v tset) @ packageEmitted env ctx0 a tset"
    by simp
  obtain err tpls fl w' where
    m: "mergeOrder env ?ctx ?s3 a single ?order (emitted ?s3) [] w = (err, tpls, fl, w')"
    by (metis surj_pair)
  from processSet_prepared [OF ok, of single w] m
  have p: "processSet env ctx0 a single v tset w = (Returns err, ?s3\<lparr>emitted := tpls, files := fl\<rparr>, w')"
    by simp
  with succ have e: "err = None" by simp
  have fl: "files (fst (snd (processSet env ctx0 a single v tset w))) = fl" by (simp add: p)
  from merged_file [OF m [unfolded e], of fname]
  show ?thesis unfolding fl em parts(2) by blast
qed

lemma processSet_emitted:
  assumes ok: "prepareError env ctx0 a v tset = Returns None"
  shows "map frag (emitted (fst (snd (processSet env ctx0 a single v tset w)))) =
         map frag (sortEmitted env (logicEmitted env ctx0 a v tset) @ packageEmitted env ctx0 a tset)"
proof -
  let ?ctx = "buildContext tset ctx0"
  let ?s3 = "preparedSet env ctx0 a v tset"
  let ?order = "preparedOrder env ctx0 a v tset"
  note parts = prepared_parts [OF ok]
  from parts(1) have em: "emitted ?s3 = sortEmitted env (logicEmitted env ctx0 a v tset) @ packageEmitted env ctx0 a tset"
    by simp
  obtain err tpls fl w' where
    m: "mergeOrder env ?ctx ?s3 a single ?order (emitted ?s3) [] w = (err, tpls, fl, w')"
    by (metis surj_pair)
  from processSet_prepared [OF ok, of single w] m
  have p: "processSet env ctx0 a single v tset w = (Returns err, ?s3\<lparr>emitted := tpls, files := fl\<rparr>, w')"
    by simp
  from mergeOrder_props [OF m] have "map frag tpls = map frag (emitted ?s3)" by simp
  then show ?thesis by (simp only: p em fst_conv snd_conv) simp
qed


section \<open>What a run keeps from the run before\<close>

lemma processSet_keeps_emitted:
  assumes srt: "sortsEmitted env"
  shows "mset (map frag (emitted tset)) \<subseteq>#
         mset (map frag (emitted (fst (snd (processSet env ctx0 a single v tset w)))))"
proof -
  obtain ex s3 order where p: "prepare env (buildContext tset ctx0) a v tset = (ex, s3, order)"
    by (metis surj_pair)
  from prepare_touches [OF p] srt have "mset (emitted tset) \<subseteq># mset (emitted s3)" by simp
  then have k: "mset (map frag (emitted tset)) \<subseteq># mset (map frag (emitted s3))"
    by (metis image_mset_subseteq_mono mset_map)
  from p have s3: "preparedSet env ctx0 a v tset = s3" and ex: "prepareError env ctx0 a v tset = ex"
    by (simp_all add: preparedSet_def prepareError_def)
  show ?thesis
  proof (cases "ex = Returns None")
    case False
    with ex have "prepareError env ctx0 a v tset \<noteq> Returns None" by simp
    from processSet_not_prepared [OF this] k s3 show ?thesis by simp
  next
    case True
    with ex have ok: "prepareError env ctx0 a v tset = Returns None" by simp
    obtain err tpls fl w' where
      m: "mergeOrder env (buildContext tset ctx0) s3 a single order (emitted s3) [] w = (err, tpls, fl, w')"
      by (metis surj_pair)
    from mergeOrder_props [OF m] have "map frag tpls = map frag (emitted s3)" by simp
    with p True m k show ?thesis by (simp add: processSet_def)
  qed
qed

text \<open>
  C3, as the code has it.  For a registered set:
  \<^item> when \<open>Process\<close> gets to its merge loops, what it returns and leaves does not
    depend on the file buffers the set held before the run (\<open>set.files\<close> is a new map
    then); the fragments the set held before the run are passed to \<open>sortEmitted\<close> with
    those of the generation logic, and the emitted list after the run has the
    fragments of that sorted list, followed by those of the package templates; when
    \<open>Process\<close> returns nil, a file buffer is its seed followed by the fragments of that
    list that are merged into it, those of earlier runs included;
  \<^item> when \<open>Process\<close> does not get to its merge loops, it ends the way the part before
    them ended, the file buffers the set held before the run are still there, and
    the world is untouched;
  \<^item> whatever happens, under the contract of \<open>sort.Slice\<close> every fragment the set held
    before the run, with its bytes, is still in \<open>set.emitted\<close> after it.
\<close>

theorem Process_resets_files_keeps_emitted:
  assumes "map_of templates (TemplateType ctx) = Some tset"
  shows "(prepareError env ctx doAppend v tset = Returns None \<longrightarrow>
            Process env ctx doAppend single v
              (AList.update (TemplateType ctx) (tset\<lparr>files := x\<rparr>) templates) w =
            Process env ctx doAppend single v templates w \<and>
            map frag (emittedOf (fst (snd (Process env ctx doAppend single v templates w))) (TemplateType ctx)) =
              map frag
                (sortEmitted env
                   (emitted tset @
                    map (renderOne env (buildContext tset ctx) (builtSet env ctx tset))
                      (fst (set_Process tset (buildContext tset ctx) doAppend v))) @
                 packageEmitted env ctx doAppend tset) \<and>
            (fst (Process env ctx doAppend single v templates w) = Returns None \<longrightarrow>
               map_of (filesOf (fst (snd (Process env ctx doAppend single v templates w))) (TemplateType ctx))
                 fname =
                 (if mergedInto (buildContext tset ctx) (preparedSet env ctx doAppend v tset) single
                       (finalOrder (buildContext tset ctx) doAppend tset)
                       (map frag
                          (sortEmitted env
                             (emitted tset @
                              map (renderOne env (buildContext tset ctx) (builtSet env ctx tset))
                                (fst (set_Process tset (buildContext tset ctx) doAppend v))) @
                           packageEmitted env ctx doAppend tset)) fname = []
                  then None
                  else case seedSpec env (buildContext tset ctx) (preparedSet env ctx doAppend v tset)
                              doAppend w fname of
                         Inr seed \<Rightarrow>
                           Some \<lparr>fBuf = seed @ concat (map snd
                                   (mergedInto (buildContext tset ctx) (preparedSet env ctx doAppend v tset) single
                                      (finalOrder (buildContext tset ctx) doAppend tset)
                                      (map frag
                                         (sortEmitted env
                                            (emitted tset @
                                             map (renderOne env (buildContext tset ctx) (builtSet env ctx tset))
                                               (fst (set_Process tset (buildContext tset ctx) doAppend v))) @
                                          packageEmitted env ctx doAppend tset)) fname)),
                                 fFile = fname, fErr = []\<rparr>
                       | Inl e \<Rightarrow> None))) \<and>
         (prepareError env ctx doAppend v tset \<noteq> Returns None \<longrightarrow>
            fst (Process env ctx doAppend single v templates w) = prepareError env ctx doAppend v tset \<and>
            filesOf (fst (snd (Process env ctx doAppend single v templates w))) (TemplateType ctx) =
              files tset \<and>
            snd (snd (Process env ctx doAppend single v templates w)) = w) \<and>
         (sortsEmitted env \<longrightarrow>
            mset (map frag (emitted tset)) \<subseteq>#
              mset (map frag (emittedOf (fst (snd (Process env ctx doAppend single v templates w)))
                      (TemplateType ctx))))"
proof -
  let ?ty = "TemplateType ctx"
  let ?P = "Process env ctx doAppend single v templates w"
  let ?S = "processSet env ctx doAppend single v tset w"
  note R = Process_registered [OF assms, of env doAppend single v w]
  have fstP: "fst ?P = fst ?S" by (simp add: R split: prod.splits)
  have emP: "emittedOf (fst (snd ?P)) ?ty = emitted (fst (snd ?S))"
    by (simp add: R emittedOf_def update_conv' split: prod.splits)
  have flP: "filesOf (fst (snd ?P)) ?ty = files (fst (snd ?S))"
    by (simp add: R filesOf_def update_conv' split: prod.splits)
  have wP: "snd (snd ?P) = snd (snd ?S)" by (simp add: R split: prod.splits)
  have A: "Process env ctx doAppend single v (AList.update ?ty (tset\<lparr>files := x\<rparr>) templates) w = ?P"
    if "prepareError env ctx doAppend v tset = Returns None"
    using that by (simp add: Process_updated R processSet_files)
  have B: "map frag (emittedOf (fst (snd ?P)) ?ty) =
              map frag
                (sortEmitted env
                   (emitted tset @
                    map (renderOne env (buildContext tset ctx) (builtSet env ctx tset))
                      (fst (set_Process tset (buildContext tset ctx) doAppend v))) @
                 packageEmitted env ctx doAppend tset)"
    if ok: "prepareError env ctx doAppend v tset = Returns None"
    unfolding emP using processSet_emitted [OF ok, of single w] by (simp only: logicEmitted_def)
  have C: "map_of (filesOf (fst (snd ?P)) ?ty) fname =
                 (if mergedInto (buildContext tset ctx) (preparedSet env ctx doAppend v tset) single
                       (finalOrder (buildContext tset ctx) doAppend tset)
                       (map frag
                          (sortEmitted env
                             (emitted tset @
                              map (renderOne env (buildContext tset ctx) (builtSet env ctx tset))
                                (fst (set_Process tset (buildContext tset ctx) doAppend v))) @
                           packageEmitted env ctx doAppend tset)) fname = []
                  then None
                  else case seedSpec env (buildContext tset ctx) (preparedSet env ctx doAppend v tset)
                              doAppend w fname of
                         Inr seed \<Rightarrow>
                           Some \<lparr>fBuf = seed @ concat (map snd
                                   (mergedInto (buildContext tset ctx) (preparedSet env ctx doAppend v tset) single
                                      (finalOrder (buildContext tset ctx) doAppend tset)
                                      (map frag
                                         (sortEmitted env
                                            (emitted tset @
                                             map (renderOne env (buildContext tset ctx) (builtSet env ctx tset))
                                               (fst (set_Process tset (buildContext tset ctx) doAppend v))) @
                                          packageEmitted env ctx doAppend tset)) fname)),
                                 fFile = fname, fErr = []\<rparr>
                       | Inl e \<Rightarrow> None)"
    if ok: "prepareError env ctx doAppend v tset = Returns None" and succ: "fst ?P = Returns None"
  proof -
    from succ have "fst ?S = Returns None" by (simp only: fstP)
    from processSet_file [OF ok this, of fname] show ?thesis
      unfolding flP by (simp only: logicEmitted_def)
  qed
  have D: "fst ?P = prepareError env ctx doAppend v tset \<and>
           filesOf (fst (snd ?P)) ?ty = files tset \<and> snd (snd ?P) = w"
    if n: "prepareError env ctx doAppend v tset \<noteq> Returns None"
    unfolding fstP flP wP using processSet_not_prepared [OF n, of single w]
    by (simp add: preparedSet_files)
  have E: "mset (map frag (emitted tset)) \<subseteq># mset (map frag (emittedOf (fst (snd ?P)) ?ty))"
    if "sortsEmitted env"
    unfolding emP using that by (rule processSet_keeps_emitted)
  from A B C D E show ?thesis by blast
qed

theorem Process_resets_files_keeps_emitted_witness:
  "map_of [(''demo'', demoSet [])] (TemplateType demoCtx) = Some (demoSet []) \<and>
   prepareError demoEnv demoCtx False usersModel (demoSet []) = Returns None \<and>
   sortsEmitted demoEnv \<and>
   Process demoEnv demoCtx False [] usersModel
     (AList.update (TemplateType demoCtx) ((demoSet [])\<lparr>files := staleFiles\<rparr>) [(''demo'', demoSet [])])
     demoWorld =
   Process demoEnv demoCtx False [] usersModel [(''demo'', demoSet [])] demoWorld \<and>
   filesOf (fst (snd (Process demoEnv demoCtx False [] usersModel
     (AList.update (TemplateType demoCtx) ((demoSet [])\<lparr>files := staleFiles\<rparr>) [(''demo'', demoSet [])])
     demoWorld))) ''demo'' =
     [(''out.go'', \<lparr>fBuf = ''TABLE users;'', fFile = ''out.go'', fErr = []\<rparr>)] \<and>
   map_of [(''demo'', (demoSet [])\<lparr>files := staleFiles\<rparr>)] (TemplateType demoCtx) =
     Some ((demoSet [])\<lparr>files := staleFiles\<rparr>) \<and>
   prepareError demoEnv demoCtx False missingModel ((demoSet [])\<lparr>files := staleFiles\<rparr>) \<noteq> Returns None \<and>
   filesOf (fst (snd (Process demoEnv demoCtx False [] missingModel
     [(''demo'', (demoSet [])\<lparr>files := staleFiles\<rparr>)] demoWorld))) (TemplateType demoCtx) = staleFiles \<and>
   snd (snd (Process demoEnv demoCtx False [] missingModel
     [(''demo'', (demoSet [])\<lparr>files := staleFiles\<rparr>)] demoWorld)) = demoWorld"
proof -
  have h: "map_of [(''demo'', demoSet [])] (TemplateType demoCtx) = Some (demoSet [])"
    by (simp add: demoCtx_def)
  have ok: "prepareError demoEnv demoCtx False usersModel (demoSet []) = Returns None"
    by code_simp
  have c: "filesOf (fst (snd (Process demoEnv demoCtx False [] usersModel
     (AList.update (TemplateType demoCtx) ((demoSet [])\<lparr>files := staleFiles\<rparr>) [(''demo'', demoSet [])])
     demoWorld))) ''demo'' =
     [(''out.go'', \<lparr>fBuf = ''TABLE users;'', fFile = ''out.go'', fErr = []\<rparr>)]"
    by code_simp
  have h2: "map_of [(''demo'', (demoSet [])\<lparr>files := staleFiles\<rparr>)] (TemplateType demoCtx) =
     Some ((demoSet [])\<lparr>files := staleFiles\<rparr>)"
    by (simp add: demoCtx_def)
  have "prepareError demoEnv demoCtx False missingModel ((demoSet [])\<lparr>files := staleFiles\<rparr>) =
     Returns (Some (Wrapped ''unable to open template nosuch.go.tpl'' (ErrNotExist ''nosuch.go.tpl'')))"
    by code_simp
  then have n: "prepareError demoEnv demoCtx False missingModel ((demoSet [])\<lparr>files := staleFiles\<rparr>) \<noteq>
     Returns None"
    by simp
  from Process_resets_files_keeps_emitted [OF h, where env = demoEnv and doAppend = False and single = "[]"
      and v = usersModel and x = staleFiles and w = demoWorld] ok
  have 1: "Process demoEnv demoCtx False [] usersModel
     (AList.update (TemplateType demoCtx) ((demoSet [])\<lparr>files := staleFiles\<rparr>) [(''demo'', demoSet [])])
     demoWorld =
   Process demoEnv demoCtx False [] usersModel [(''demo'', demoSet [])] demoWorld"
    by blast
  from Process_resets_files_keeps_emitted [OF h2, where env = demoEnv and doAppend = False and single = "[]"
      and v = missingModel and w = demoWorld] n
  have 2: "filesOf (fst (snd (Process demoEnv demoCtx False [] missingModel
     [(''demo'', (demoSet [])\<lparr>files := staleFiles\<rparr>)] demoWorld))) (TemplateType demoCtx) =
       files ((demoSet [])\<lparr>files := staleFiles\<rparr>) \<and>
     snd (snd (Process demoEnv demoCtx False [] missingModel
     [(''demo'', (demoSet [])\<lparr>files := staleFiles\<rparr>)] demoWorld)) = demoWorld"
    by blast
  from h ok demoEnv_sorts 1 c h2 n 2 show ?thesis by simp
qed

text \<open>
  C3 as stated fails for both fields.  After a second \<open>Process\<close> on the same
  registry, the fragment of the first run is still in \<open>set.emitted\<close>, next to the
  one of the second run, and both are merged into the file buffer.  And after a
  run that fails before the merge loops (here the generation logic emits a
  descriptor whose template file does not exist), the set still holds the file
  buffer of the run before.
\<close>

theorem emitted_not_reset_counterexample:
  "map Buf (emittedOf (fst (snd (Process demoEnv demoCtx False [] usersModel [(''demo'', demoSet [])] demoWorld)))
      ''demo'') = [''TABLE users;''] \<and>
   map Buf (emittedOf (fst (snd (Process demoEnv demoCtx False [] usersModel
      (fst (snd (Process demoEnv demoCtx False [] usersModel [(''demo'', demoSet [])] demoWorld))) demoWorld)))
      ''demo'') = [''TABLE users;'', ''TABLE users;''] \<and>
   filesOf (fst (snd (Process demoEnv demoCtx False [] usersModel
      (fst (snd (Process demoEnv demoCtx False [] usersModel [(''demo'', demoSet [])] demoWorld))) demoWorld)))
      ''demo'' = [(''out.go'', \<lparr>fBuf = ''TABLE users;TABLE users;'', fFile = ''out.go'', fErr = []\<rparr>)] \<and>
   filesOf (fst (snd (Process demoEnv demoCtx False [] usersModel [(''demo'', demoSet [])] demoWorld)))
      ''demo'' = [(''out.go'', \<lparr>fBuf = ''TABLE users;'', fFile = ''out.go'', fErr = []\<rparr>)] \<and>
   fst (Process demoEnv demoCtx False [] missingModel
      (fst (snd (Process demoEnv demoCtx False [] usersModel [(''demo'', demoSet [])] demoWorld))) demoWorld) =
     Returns (Some (Wrapped ''unable to open template nosuch.go.tpl'' (ErrNotExist ''nosuch.go.tpl''))) \<and>
   filesOf (fst (snd (Process demoEnv demoCtx False [] missingModel
      (fst (snd (Process demoEnv demoCtx False [] usersModel [(''demo'', demoSet [])] demoWorld))) demoWorld)))
      ''demo'' = [(''out.go'', \<lparr>fBuf = ''TABLE users;'', fFile = ''out.go'', fErr = []\<rparr>)]"
  by code_simp


section \<open>Another emission order\<close>

lemma renders_set: "set xs = set ys \<Longrightarrow> renders env ctx tset xs = renders env ctx tset ys"
  by (simp add: renders_def list_all_iff)

text \<open>
  The generation logic \<open>p'\<close> emits the descriptors of the set's own logic in
  another order and returns nil.  When the first run gets to the merge loops, so
  does the second; when moreover no two fragments that are sorted have the same
  key (or the order is the same), it gets there with the same emitted list.
\<close>

lemma prepare_reordered:
  assumes ok: "prepare env ctx a v tset = (Returns None, s3, order)"
    and srt: "sortsEmitted env"
    and perm: "mset (fst (p' ctx a v)) = mset (fst (set_Process tset ctx a v))"
    and res: "snd (p' ctx a v) = None"
    and keys: "fst (p' ctx a v) = fst (set_Process tset ctx a v) \<or>
               inj_on fragKey
                 (set (emitted tset @
                       map (renderOne env ctx (snd (BuildFuncs env ctx tset))) (fst (set_Process tset ctx a v))))"
  shows "prepare env ctx a v (tset\<lparr>set_Process := p'\<rparr>) = (Returns None, s3\<lparr>set_Process := p'\<rparr>, order)"
proof -
  from ok prepare_ok [of env ctx a v tset s3 order]
  obtain s1 where b: "BuildFuncs env ctx tset = (Returns None, s1)"
    and r: "renders env ctx s1 (fst (set_Process s1 ctx a v))"
    and rp: "renders env ctx s1 (packageTemplates ctx a s1)"
    and s3: "s3 = s1\<lparr>emitted := preparedEmitted env ctx a v s1\<rparr>"
    and o: "order = finalOrder ctx a s1"
    by auto
  from BuildFuncs_only_funcs [OF b] have f: "s1 = tset\<lparr>funcs := funcs s1\<rparr>" .
  have sp: "set_Process s1 = set_Process tset" by (subst f) simp
  have em: "emitted s1 = emitted tset" by (subst f) simp
  let ?s1' = "s1\<lparr>set_Process := p'\<rparr>"
  let ?old = "emitted tset @ map (renderOne env ctx s1) (fst (set_Process tset ctx a v))"
  let ?new = "emitted tset @ map (renderOne env ctx s1) (fst (p' ctx a v))"
  from perm have st: "set (fst (p' ctx a v)) = set (fst (set_Process tset ctx a v))"
    by (rule mset_eq_setD)
  have b': "BuildFuncs env ctx (tset\<lparr>set_Process := p'\<rparr>) = (Returns None, ?s1')"
    by (simp add: BuildFuncs_logic b)
  have r': "renders env ctx ?s1' (fst (set_Process ?s1' ctx a v))"
    using r by (simp add: sp renders_set [OF st])
  have rp': "renders env ctx ?s1' (packageTemplates ctx a ?s1')"
    using rp by simp
  have m: "mset ?old = mset ?new" using perm by simp
  have se: "sortEmitted env ?new = sortEmitted env ?old"
  proof (cases "fst (p' ctx a v) = fst (set_Process tset ctx a v)")
    case True
    then show ?thesis by simp
  next
    case False
    with keys b have "inj_on fragKey (set ?old)" by simp
    from sortEmitted_perm [OF srt m this] show ?thesis by simp
  qed
  have pe: "preparedEmitted env ctx a v ?s1' = preparedEmitted env ctx a v s1"
    by (simp add: preparedEmitted_def em sp se)
  have "prepare env ctx a v (tset\<lparr>set_Process := p'\<rparr>) =
          (Returns None, ?s1'\<lparr>emitted := preparedEmitted env ctx a v ?s1'\<rparr>, finalOrder ctx a ?s1')"
    unfolding prepare_ok using b' r' res rp' by simp
  then show ?thesis by (simp add: pe s3 o)
qed

lemma processSet_reordered:
  assumes ok: "prepareError env ctx0 a v tset = Returns None"
    and srt: "sortsEmitted env"
    and perm: "mset (fst (p' (buildContext tset ctx0) a v)) =
               mset (fst (set_Process tset (buildContext tset ctx0) a v))"
    and res: "snd (p' (buildContext tset ctx0) a v) = None"
    and keys: "fst (p' (buildContext tset ctx0) a v) = fst (set_Process tset (buildContext tset ctx0) a v) \<or>
               inj_on fragKey (set (logicEmitted env ctx0 a v tset))"
  shows "prepareError env ctx0 a v (tset\<lparr>set_Process := p'\<rparr>) = Returns None"
    and "processSet env ctx0 a single v (tset\<lparr>set_Process := p'\<rparr>) w =
         (case processSet env ctx0 a single v tset w of
            (ex, s, w') \<Rightarrow> (ex, s\<lparr>set_Process := p'\<rparr>, w'))"
proof -
  let ?ctx = "buildContext tset ctx0"
  let ?s3 = "preparedSet env ctx0 a v tset"
  let ?order = "preparedOrder env ctx0 a v tset"
  from keys have keys': "fst (p' ?ctx a v) = fst (set_Process tset ?ctx a v) \<or>
               inj_on fragKey
                 (set (emitted tset @
                       map (renderOne env ?ctx (snd (BuildFuncs env ?ctx tset))) (fst (set_Process tset ?ctx a v))))"
    by (simp add: logicEmitted_def builtSet_def)
  from prepare_reordered [where p' = p', OF prepare_split [OF ok] srt perm res keys']
  have p: "prepare env ?ctx a v (tset\<lparr>set_Process := p'\<rparr>) = (Returns None, ?s3\<lparr>set_Process := p'\<rparr>, ?order)" .
  then show "prepareError env ctx0 a v (tset\<lparr>set_Process := p'\<rparr>) = Returns None"
    by (simp add: prepareError_def)
  have "prepare env (buildContext (tset\<lparr>set_Process := p'\<rparr>) ctx0) a v (tset\<lparr>set_Process := p'\<rparr>) =
          (Returns None, ?s3\<lparr>set_Process := p'\<rparr>, ?order)"
    using p by simp
  from processSet_merge [OF this, of single w] processSet_prepared [OF ok, of single w]
  show "processSet env ctx0 a single v (tset\<lparr>set_Process := p'\<rparr>) w =
         (case processSet env ctx0 a single v tset w of
            (ex, s, w') \<Rightarrow> (ex, s\<lparr>set_Process := p'\<rparr>, w'))"
    by (simp split: prod.splits)
qed

section \<open>The order of the fragments in a file\<close>

text \<open>
  C1, as the code has it.  Under the contract of \<open>sort.Slice\<close>, when \<open>Process\<close> gets to
  its merge loops:
  \<^item> the emitted list is the fragments of the generation logic (and of earlier runs)
    as \<open>sortEmitted\<close> leaves them, followed by the fragments of the package templates;
    the sorted part has the same fragments as before the sort, with keys that never
    decrease;
  \<^item> when \<open>Process\<close> returns nil, a file name has a buffer exactly when a fragment is
    merged into it, and the buffer is its seed followed by \<open>mergedInto\<close>: for each name
    of the processing order in turn, the fragments of that name destined for the
    file, as they stand in the emitted list.  So the fragments of one file follow the
    processing order across template names, and within one template name those of
    the generation logic have keys (type, then instance name) that never decrease;
  \<^item> if no two fragments that are sorted have the same key, the sorted part is the
    list of these fragments in the order of their keys, and a run whose generation
    logic emits the same descriptors in another order ends the same way, with the
    same set and the same world.
\<close>

theorem merged_fragments_order:
  assumes "prepareError env ctx0 doAppend v tset = Returns None"
    and "sortsEmitted env"
  shows "emitted (preparedSet env ctx0 doAppend v tset) =
           sortEmitted env (logicEmitted env ctx0 doAppend v tset) @ packageEmitted env ctx0 doAppend tset \<and>
         preparedOrder env ctx0 doAppend v tset = finalOrder (buildContext tset ctx0) doAppend tset \<and>
         sorted (map fragKey (sortEmitted env (logicEmitted env ctx0 doAppend v tset))) \<and>
         mset (sortEmitted env (logicEmitted env ctx0 doAppend v tset)) =
           mset (logicEmitted env ctx0 doAppend v tset) \<and>
         sorted (map keyOf
           (filter (destined (buildContext tset ctx0) (preparedSet env ctx0 doAppend v tset) single n fname)
              (map frag (sortEmitted env (logicEmitted env ctx0 doAppend v tset))))) \<and>
         (fst (processSet env ctx0 doAppend single v tset w) = Returns None \<longrightarrow>
            map_of (files (fst (snd (processSet env ctx0 doAppend single v tset w)))) fname =
              (if mergedInto (buildContext tset ctx0) (preparedSet env ctx0 doAppend v tset) single
                    (finalOrder (buildContext tset ctx0) doAppend tset)
                    (map frag (sortEmitted env (logicEmitted env ctx0 doAppend v tset) @
                               packageEmitted env ctx0 doAppend tset)) fname = []
               then None
               else case seedSpec env (buildContext tset ctx0) (preparedSet env ctx0 doAppend v tset)
                           doAppend w fname of
                      Inr seed \<Rightarrow>
                        Some \<lparr>fBuf = seed @ concat (map snd
                                 (mergedInto (buildContext tset ctx0) (preparedSet env ctx0 doAppend v tset) single
                                    (finalOrder (buildContext tset ctx0) doAppend tset)
                                    (map frag (sortEmitted env (logicEmitted env ctx0 doAppend v tset) @
                                               packageEmitted env ctx0 doAppend tset)) fname)),
                              fFile = fname, fErr = []\<rparr>
                    | Inl e \<Rightarrow> None)) \<and>
         (inj_on fragKey (set (logicEmitted env ctx0 doAppend v tset)) \<longrightarrow>
            sortEmitted env (logicEmitted env ctx0 doAppend v tset) =
              sort_key fragKey (logicEmitted env ctx0 doAppend v tset) \<and>
            (mset (fst (p' (buildContext tset ctx0) doAppend v)) =
               mset (fst (set_Process tset (buildContext tset ctx0) doAppend v)) \<and>
             snd (p' (buildContext tset ctx0) doAppend v) = None \<longrightarrow>
               processSet env ctx0 doAppend single v (tset\<lparr>set_Process := p'\<rparr>) w =
                 (case processSet env ctx0 doAppend single v tset w of
                    (ex, s, w') \<Rightarrow> (ex, s\<lparr>set_Process := p'\<rparr>, w'))))"
proof -
  let ?ctx = "buildContext tset ctx0"
  let ?s3 = "preparedSet env ctx0 doAppend v tset"
  let ?L = "logicEmitted env ctx0 doAppend v tset"
  let ?P = "packageEmitted env ctx0 doAppend tset"
  note ok = assms(1) and srt = assms(2)
  note parts = prepared_parts [OF ok]
  from parts(1) have 1: "emitted ?s3 = sortEmitted env ?L @ ?P" by simp
  note 2 = parts(2)
  have 3: "sorted (map fragKey (sortEmitted env ?L))" using srt by (rule sorted_sortEmitted)
  have 4: "mset (sortEmitted env ?L) = mset ?L" using srt by (rule mset_sortEmitted)
  have 5: "sorted (map keyOf (filter (destined ?ctx ?s3 single n fname) (map frag (sortEmitted env ?L))))"
    using srt by (rule sorted_filter_frags)
  note 6 = processSet_file [OF ok, of single w fname]
  have 7: "sortEmitted env ?L = sort_key fragKey ?L" if "inj_on fragKey (set ?L)"
    using srt that by (rule sortEmitted_sort_key)
  have 8: "processSet env ctx0 doAppend single v (tset\<lparr>set_Process := p'\<rparr>) w =
                 (case processSet env ctx0 doAppend single v tset w of
                    (ex, s, w') \<Rightarrow> (ex, s\<lparr>set_Process := p'\<rparr>, w'))"
    if "inj_on fragKey (set ?L)"
      and "mset (fst (p' ?ctx doAppend v)) = mset (fst (set_Process tset ?ctx doAppend v)) \<and>
           snd (p' ?ctx doAppend v) = None"
    using that processSet_reordered(2) [where p' = p', OF ok srt, of single w] by blast
  from 1 2 3 4 5 6 7 8 show ?thesis by blast
qed

theorem merged_fragments_order_witness:
  "prepareError demoEnv demoCtx False scenarioModel (demoSet []) = Returns None \<and>
   sortsEmitted demoEnv \<and>
   fst (processSet demoEnv demoCtx False [] scenarioModel (demoSet []) demoWorld) = Returns None \<and>
   inj_on fragKey (set (logicEmitted demoEnv demoCtx False scenarioModel (demoSet []))) \<and>
   mset (fst ((\<lambda>ctx a v. (rev v, None)) (buildContext (demoSet []) demoCtx) False scenarioModel)) =
     mset (fst (set_Process (demoSet []) (buildContext (demoSet []) demoCtx) False scenarioModel)) \<and>
   map fragKey (sortEmitted demoEnv (logicEmitted demoEnv demoCtx False scenarioModel (demoSet []))) =
     [(''footer'', [], []), (''header'', [], []), (''table'', [], ''posts''), (''table'', [], ''users'')] \<and>
   finalOrder (buildContext (demoSet []) demoCtx) False (demoSet []) = [''header'', ''table'', ''footer''] \<and>
   files (fst (snd (processSet demoEnv demoCtx False [] scenarioModel
       ((demoSet [])\<lparr>set_Process := \<lambda>ctx a v. (rev v, None)\<rparr>) demoWorld))) =
     files (fst (snd (processSet demoEnv demoCtx False [] scenarioModel (demoSet []) demoWorld))) \<and>
   map_of (files (fst (snd (processSet demoEnv demoCtx False [] scenarioModel (demoSet []) demoWorld)))) ''out.go'' =
     Some \<lparr>fBuf = ''HEADER ;TABLE posts;TABLE users;FOOTER ;'', fFile = ''out.go'', fErr = []\<rparr>"
proof -
  let ?ctx = "buildContext (demoSet []) demoCtx"
  let ?s3 = "preparedSet demoEnv demoCtx False scenarioModel (demoSet [])"
  let ?M = "mergedInto ?ctx ?s3 [] (finalOrder ?ctx False (demoSet []))
              (map frag (sortEmitted demoEnv (logicEmitted demoEnv demoCtx False scenarioModel (demoSet [])) @
                         packageEmitted demoEnv demoCtx False (demoSet []))) ''out.go''"
  have h: "prepareError demoEnv demoCtx False scenarioModel (demoSet []) = Returns None"
    by code_simp
  have succ: "fst (processSet demoEnv demoCtx False [] scenarioModel (demoSet []) demoWorld) = Returns None"
    by code_simp
  have l: "fst (set_Process (demoSet []) ?ctx False scenarioModel) = scenarioModel"
    by (simp add: demoSet_def)
  have perm: "mset (fst ((\<lambda>ctx a v. (rev v, None)) ?ctx False scenarioModel)) =
     mset (fst (set_Process (demoSet []) ?ctx False scenarioModel))"
    unfolding l by simp
  have r: "snd ((\<lambda>ctx a v. (rev v, None)) ?ctx False scenarioModel) = None"
    by simp
  have le: "map fragKey (logicEmitted demoEnv demoCtx False scenarioModel (demoSet [])) =
     [(''table'', [], ''users''), (''footer'', [], []), (''table'', [], ''posts''), (''header'', [], [])]"
    by code_simp
  have "distinct (map fragKey (logicEmitted demoEnv demoCtx False scenarioModel (demoSet [])))"
    unfolding le by simp
  then have inj: "inj_on fragKey (set (logicEmitted demoEnv demoCtx False scenarioModel (demoSet [])))"
    by (simp add: distinct_map)
  have k: "map fragKey (sortEmitted demoEnv (logicEmitted demoEnv demoCtx False scenarioModel (demoSet []))) =
     [(''footer'', [], []), (''header'', [], []), (''table'', [], ''posts''), (''table'', [], ''users'')]"
    by code_simp
  have fo: "finalOrder ?ctx False (demoSet []) = [''header'', ''table'', ''footer'']"
    by code_simp
  have M: "map snd ?M = [''HEADER ;'', ''TABLE posts;'', ''TABLE users;'', ''FOOTER ;'']"
    by code_simp
  have sd: "seedSpec demoEnv ?ctx ?s3 False demoWorld ''out.go'' = Inr []"
    by code_simp
  note T = merged_fragments_order [OF h demoEnv_sorts, where p' = "\<lambda>ctx a v. (rev v, None)" and single = "[]"
      and w = demoWorld and fname = "''out.go''"]
  from T perm r inj
  have "processSet demoEnv demoCtx False [] scenarioModel
          ((demoSet [])\<lparr>set_Process := \<lambda>ctx a v. (rev v, None)\<rparr>) demoWorld =
        (case processSet demoEnv demoCtx False [] scenarioModel (demoSet []) demoWorld of
           (ex, s, w') \<Rightarrow> (ex, s\<lparr>set_Process := \<lambda>ctx a v. (rev v, None)\<rparr>, w'))"
    by blast
  then have e: "files (fst (snd (processSet demoEnv demoCtx False [] scenarioModel
       ((demoSet [])\<lparr>set_Process := \<lambda>ctx a v. (rev v, None)\<rparr>) demoWorld))) =
     files (fst (snd (processSet demoEnv demoCtx False [] scenarioModel (demoSet []) demoWorld)))"
    by (simp split: prod.splits)
  from T succ have
    "map_of (files (fst (snd (processSet demoEnv demoCtx False [] scenarioModel (demoSet []) demoWorld)))) ''out.go'' =
       (if ?M = [] then None
        else case seedSpec demoEnv ?ctx ?s3 False demoWorld ''out.go'' of
               Inr seed \<Rightarrow> Some \<lparr>fBuf = seed @ concat (map snd ?M), fFile = ''out.go'', fErr = []\<rparr>
             | Inl e \<Rightarrow> None)"
    by blast
  moreover from M have "?M \<noteq> []" by auto
  ultimately have c: "map_of (files (fst (snd (processSet demoEnv demoCtx False [] scenarioModel (demoSet []) demoWorld)))) ''out.go'' =
     Some \<lparr>fBuf = ''HEADER ;TABLE posts;TABLE users;FOOTER ;'', fFile = ''out.go'', fErr = []\<rparr>"
    by (simp only: M sd) simp
  from h demoEnv_sorts succ inj perm k fo e c show ?thesis by blast
qed

text \<open>
  C1 as stated fails.  In the run of the scenario the keys of the emitted
  fragments, in sorted order, are footer, header, table posts, table users, and
  the file has header, table posts, table users, footer: the order of the
  processing order, not of the key.  And two fragments with the same key and
  different bytes come out in the order they were emitted: on a slice of two
  elements neither of which the closure puts before the other, \<open>sort.Slice\<close> makes
  no swap.
\<close>

theorem file_not_sorted_by_key_counterexample:
  "map fragKey (emitted (fst (snd (processSet demoEnv demoCtx False [] scenarioModel (demoSet []) demoWorld)))) =
     [(''footer'', [], []), (''header'', [], []), (''table'', [], ''posts''), (''table'', [], ''users'')] \<and>
   map Buf (emitted (fst (snd (processSet demoEnv demoCtx False [] scenarioModel (demoSet []) demoWorld)))) =
     [''FOOTER ;'', ''HEADER ;'', ''TABLE posts;'', ''TABLE users;''] \<and>
   filesOf (fst (snd (Process demoEnv demoCtx False [] scenarioModel [(''demo'', demoSet [])] demoWorld))) ''demo'' =
     [(''out.go'', \<lparr>fBuf = ''HEADER ;TABLE posts;TABLE users;FOOTER ;'', fFile = ''out.go'', fErr = []\<rparr>)] \<and>
   filesOf (fst (snd (Process demoEnv demoCtx False [] (twinModel ''1'' ''2'') [(''demo'', demoSet [])] demoWorld))) ''demo'' =
     [(''out.go'', \<lparr>fBuf = ''TABLE users1;TABLE users2;'', fFile = ''out.go'', fErr = []\<rparr>)] \<and>
   filesOf (fst (snd (Process demoEnv demoCtx False [] (twinModel ''2'' ''1'') [(''demo'', demoSet [])] demoWorld))) ''demo'' =
     [(''out.go'', \<lparr>fBuf = ''TABLE users2;TABLE users1;'', fFile = ''out.go'', fErr = []\<rparr>)]"
  by code_simp


section \<open>Package templates\<close>

lemma mergedInto_append_order:
  "mergedInto ctx tset single (o1 @ o2) frs fname =
   mergedInto ctx tset single o1 frs fname @ mergedInto ctx tset single o2 frs fname"
  by (simp add: mergedInto_def)

lemma mergedInto_skip_left:
  "\<forall>fr \<in> set A. tTemplate (fst fr) \<notin> set order \<Longrightarrow>
   mergedInto ctx tset single order (A @ B) fname = mergedInto ctx tset single order B fname"
proof -
  assume a: "\<forall>fr \<in> set A. tTemplate (fst fr) \<notin> set order"
  have "filter (destined ctx tset single n fname) A = []" if "n \<in> set order" for n
    using a that by (auto simp: filter_empty_conv destined_def)
  then show ?thesis
    by (simp add: mergedInto_def cong: map_cong)
qed

lemma mergedInto_skip_right:
  "\<forall>fr \<in> set B. tTemplate (fst fr) \<notin> set order \<Longrightarrow>
   mergedInto ctx tset single order (A @ B) fname = mergedInto ctx tset single order A fname"
proof -
  assume a: "\<forall>fr \<in> set B. tTemplate (fst fr) \<notin> set order"
  have "filter (destined ctx tset single n fname) B = []" if "n \<in> set order" for n
    using a that by (auto simp: filter_empty_conv destined_def)
  then show ?thesis
    by (simp add: mergedInto_def cong: map_cong)
qed

lemma mergedInto_drop_head:
  "tTemplate (fst fr) \<notin> set order \<Longrightarrow>
   mergedInto ctx tset single order (fr # frs) fname = mergedInto ctx tset single order frs fname"
  using mergedInto_skip_left [of "[fr]" order ctx tset single frs fname] by simp

lemma mergedInto_names:
  "fr \<in> set (mergedInto ctx tset single order frs fname) \<Longrightarrow>
   fr \<in> set frs \<and> tTemplate (fst fr) \<in> set order \<and> fileNameOf ctx tset single (fst fr) = fname"
  by (auto simp: mergedInto_def destined_def)

lemma mergedInto_own_names:
  "distinct (map (\<lambda>fr. tTemplate (fst fr)) frs) \<Longrightarrow>
   mergedInto ctx tset single (map (\<lambda>fr. tTemplate (fst fr)) frs) frs fname =
     filter (\<lambda>fr. fileNameOf ctx tset single (fst fr) = fname) frs"
proof (induction frs)
  case Nil
  then show ?case by (simp add: mergedInto_def)
next
  case (Cons fr frs)
  let ?n = "tTemplate (fst fr)"
  from Cons.prems have notin: "?n \<notin> set (map (\<lambda>fr. tTemplate (fst fr)) frs)" and d: "distinct (map (\<lambda>fr. tTemplate (fst fr)) frs)"
    by simp_all
  have first: "filter (destined ctx tset single ?n fname) (fr # frs) =
     (if fileNameOf ctx tset single (fst fr) = fname then [fr] else [])"
    using notin by (force simp: destined_def filter_empty_conv image_iff)
  have rest: "mergedInto ctx tset single (map (\<lambda>fr. tTemplate (fst fr)) frs) (fr # frs) fname =
     mergedInto ctx tset single (map (\<lambda>fr. tTemplate (fst fr)) frs) frs fname"
    using notin by (rule mergedInto_drop_head)
  have "mergedInto ctx tset single (map (\<lambda>fr. tTemplate (fst fr)) (fr # frs)) (fr # frs) fname =
     filter (destined ctx tset single ?n fname) (fr # frs) @
     mergedInto ctx tset single (map (\<lambda>fr. tTemplate (fst fr)) frs) (fr # frs) fname"
    by (simp add: mergedInto_def)
  with first rest Cons.IH [OF d] show ?case by simp
qed

lemma packageEmitted_templates:
  "map Template (packageEmitted env ctx0 a tset) = packageTemplates (buildContext tset ctx0) a tset"
  by (simp add: packageEmitted_def renderOne_def comp_def)

lemma package_fragment_names:
  "map (\<lambda>fr. tTemplate (fst fr)) (map frag (packageEmitted env ctx0 a tset)) =
   map tTemplate (packageTemplates (buildContext tset ctx0) a tset)"
  by (simp add: packageEmitted_def renderOne_def frag_def comp_def)

lemma seedSpec_no_append: "seedSpec env ctx tset False w fname = headerSeed env ctx tset"
  by (simp add: seedSpec_def)

text \<open>
  C2, as the code has it.  In a run without append mode of a set that declares
  package templates, under the contract of \<open>sort.Slice\<close>, when \<open>Process\<close> gets to its
  merge loops every package template has been rendered, their fragments stand at
  the end of the emitted list, one for each template and in the order of the
  factory, and the processing order is the names of the package templates
  followed by the base order without these names.  If the names of the package
  templates are pairwise different and no fragment of the generation logic or of
  an earlier run has one of them as its template name, the fragments merged into
  a file are the package fragments destined for it, each once, in the order of
  the factory, followed by fragments of the sorted part under the other names of
  the order; and when \<open>Process\<close> returns nil, a file name has a buffer exactly when
  one of these is merged into it, and the buffer is the header (empty when none is
  declared), then the package content, then the content of the others, and
  nothing else.
\<close>

theorem package_templates_first:
  assumes ok: "prepareError env ctx0 False v tset = Returns None"
    and srt: "sortsEmitted env"
    and pt: "PackageTemplates tset = Some pt"
  shows "map Template (packageEmitted env ctx0 False tset) = pt (buildContext tset ctx0) \<and>
         renders env (buildContext tset ctx0) (builtSet env ctx0 tset) (pt (buildContext tset ctx0)) \<and>
         emitted (preparedSet env ctx0 False v tset) =
           sortEmitted env (logicEmitted env ctx0 False v tset) @ packageEmitted env ctx0 False tset \<and>
         preparedOrder env ctx0 False v tset =
           map tTemplate (pt (buildContext tset ctx0)) @
           filter (\<lambda>n. n \<notin> set (map tTemplate (pt (buildContext tset ctx0)))) (Order tset) \<and>
         (distinct (map tTemplate (pt (buildContext tset ctx0))) \<and>
          (\<forall>e \<in> set (logicEmitted env ctx0 False v tset).
              tTemplate (Template e) \<notin> set (map tTemplate (pt (buildContext tset ctx0)))) \<longrightarrow>
            mergedInto (buildContext tset ctx0) (preparedSet env ctx0 False v tset) single
                (preparedOrder env ctx0 False v tset)
                (map frag (emitted (preparedSet env ctx0 False v tset))) fname =
              filter (\<lambda>fr. fileNameOf (buildContext tset ctx0) (preparedSet env ctx0 False v tset) single (fst fr) = fname)
                (map frag (packageEmitted env ctx0 False tset)) @
              mergedInto (buildContext tset ctx0) (preparedSet env ctx0 False v tset) single
                (filter (\<lambda>n. n \<notin> set (map tTemplate (pt (buildContext tset ctx0)))) (Order tset))
                (map frag (sortEmitted env (logicEmitted env ctx0 False v tset))) fname \<and>
            (fst (processSet env ctx0 False single v tset w) = Returns None \<longrightarrow>
               map_of (files (fst (snd (processSet env ctx0 False single v tset w)))) fname =
                 (if filter (\<lambda>fr. fileNameOf (buildContext tset ctx0) (preparedSet env ctx0 False v tset) single (fst fr) = fname)
                       (map frag (packageEmitted env ctx0 False tset)) = [] \<and>
                     mergedInto (buildContext tset ctx0) (preparedSet env ctx0 False v tset) single
                       (filter (\<lambda>n. n \<notin> set (map tTemplate (pt (buildContext tset ctx0)))) (Order tset))
                       (map frag (sortEmitted env (logicEmitted env ctx0 False v tset))) fname = []
                  then None
                  else case headerSeed env (buildContext tset ctx0) (preparedSet env ctx0 False v tset) of
                         Inr seed \<Rightarrow>
                           Some \<lparr>fBuf = seed @
                                   concat (map snd
                                     (filter (\<lambda>fr. fileNameOf (buildContext tset ctx0) (preparedSet env ctx0 False v tset) single (fst fr) = fname)
                                        (map frag (packageEmitted env ctx0 False tset)))) @
                                   concat (map snd
                                     (mergedInto (buildContext tset ctx0) (preparedSet env ctx0 False v tset) single
                                        (filter (\<lambda>n. n \<notin> set (map tTemplate (pt (buildContext tset ctx0)))) (Order tset))
                                        (map frag (sortEmitted env (logicEmitted env ctx0 False v tset))) fname)),
                                 fFile = fname, fErr = []\<rparr>
                       | Inl e \<Rightarrow> None)))"
proof -
  let ?ctx = "buildContext tset ctx0"
  let ?s3 = "preparedSet env ctx0 False v tset"
  let ?order = "preparedOrder env ctx0 False v tset"
  let ?L = "logicEmitted env ctx0 False v tset"
  let ?P = "packageEmitted env ctx0 False tset"
  let ?names = "map tTemplate (pt ?ctx)"
  let ?rest = "filter (\<lambda>n. n \<notin> set ?names) (Order tset)"
  let ?pkgpart = "filter (\<lambda>fr. fileNameOf ?ctx ?s3 single (fst fr) = fname) (map frag ?P)"
  let ?restpart = "mergedInto ?ctx ?s3 single ?rest (map frag (sortEmitted env ?L)) fname"
  note parts = prepared_parts [OF ok]
  have pk: "packageTemplates ?ctx False tset = pt ?ctx"
    using pt by (simp add: packageTemplates_def)
  have 1: "map Template ?P = pt ?ctx"
    by (simp add: packageEmitted_templates pk)
  have 2: "renders env ?ctx (builtSet env ctx0 tset) (pt ?ctx)"
    using parts(6) pk by simp
  from parts(1) have 3: "emitted ?s3 = sortEmitted env ?L @ ?P" by simp
  have fo: "finalOrder ?ctx False tset = ?names @ ?rest"
    using pt by (simp add: finalOrder_def)
  have 4: "?order = ?names @ ?rest"
    using parts(2) fo by simp
  have pn: "map (\<lambda>fr. tTemplate (fst fr)) (map frag ?P) = ?names"
    by (simp only: package_fragment_names pk)
  have 5: "mergedInto ?ctx ?s3 single ?order (map frag (emitted ?s3)) fname = ?pkgpart @ ?restpart"
    if dist: "distinct ?names"
      and fresh: "\<forall>e \<in> set ?L. tTemplate (Template e) \<notin> set ?names"
  proof -
    have Lfresh: "\<forall>fr \<in> set (map frag (sortEmitted env ?L)). tTemplate (fst fr) \<notin> set ?names"
      using fresh by (auto simp: set_sortEmitted [OF srt] frag_def)
    have Pin: "\<forall>fr \<in> set (map frag ?P). tTemplate (fst fr) \<notin> set ?rest"
    proof
      fix fr assume "fr \<in> set (map frag ?P)"
      then have "tTemplate (fst fr) \<in> set (map (\<lambda>fr. tTemplate (fst fr)) (map frag ?P))"
        by (metis (mono_tags, lifting) image_eqI list.set_map)
      then have "tTemplate (fst fr) \<in> set ?names" by (simp only: pn)
      then show "tTemplate (fst fr) \<notin> set ?rest" by simp
    qed
    have a: "mergedInto ?ctx ?s3 single ?names (map frag (sortEmitted env ?L) @ map frag ?P) fname = ?pkgpart"
    proof -
      have "mergedInto ?ctx ?s3 single ?names (map frag (sortEmitted env ?L) @ map frag ?P) fname =
            mergedInto ?ctx ?s3 single ?names (map frag ?P) fname"
        using Lfresh by (rule mergedInto_skip_left)
      also have "\<dots> = mergedInto ?ctx ?s3 single (map (\<lambda>fr. tTemplate (fst fr)) (map frag ?P)) (map frag ?P) fname"
        by (simp only: pn)
      also have "\<dots> = ?pkgpart"
        using dist by (intro mergedInto_own_names) (simp only: pn)
      finally show ?thesis .
    qed
    have b: "mergedInto ?ctx ?s3 single ?rest (map frag (sortEmitted env ?L) @ map frag ?P) fname = ?restpart"
      using Pin by (rule mergedInto_skip_right)
    show ?thesis
      by (simp only: 3 4 map_append mergedInto_append_order a b)
  qed
  have 6: "map_of (files (fst (snd (processSet env ctx0 False single v tset w)))) fname =
                 (if ?pkgpart = [] \<and> ?restpart = [] then None
                  else case headerSeed env ?ctx ?s3 of
                         Inr seed \<Rightarrow>
                           Some \<lparr>fBuf = seed @ concat (map snd ?pkgpart) @ concat (map snd ?restpart),
                                 fFile = fname, fErr = []\<rparr>
                       | Inl e \<Rightarrow> None)"
    if dist: "distinct ?names"
      and fresh: "\<forall>e \<in> set ?L. tTemplate (Template e) \<notin> set ?names"
      and succ: "fst (processSet env ctx0 False single v tset w) = Returns None"
  proof -
    have m: "mergedInto ?ctx ?s3 single (finalOrder ?ctx False tset) (map frag (sortEmitted env ?L @ ?P)) fname =
             ?pkgpart @ ?restpart"
      using 5 [OF dist fresh] by (simp only: 3 [symmetric] parts(2) [symmetric])
    from processSet_file [OF ok succ, of fname] show ?thesis
      unfolding m seedSpec_no_append by (simp split: sum.splits)
  qed
  from 1 2 3 4 5 6 show ?thesis by blast
qed

theorem package_templates_first_witness:
  "prepareError demoEnv demoCtx False scenarioModel pkgSet = Returns None \<and>
   sortsEmitted demoEnv \<and>
   PackageTemplates pkgSet = Some (\<lambda>ctx. [mkTemplate ''db'' [] ''pkg'']) \<and>
   distinct (map tTemplate ((\<lambda>ctx. [mkTemplate ''db'' [] ''pkg'']) (buildContext pkgSet demoCtx))) \<and>
   map (\<lambda>e. tTemplate (Template e)) (logicEmitted demoEnv demoCtx False scenarioModel pkgSet) =
     [''table'', ''footer'', ''table'', ''header''] \<and>
   fst (processSet demoEnv demoCtx False [] scenarioModel pkgSet demoWorld) = Returns None \<and>
   Order pkgSet = [''header'', ''table'', ''footer'', ''db''] \<and>
   preparedOrder demoEnv demoCtx False scenarioModel pkgSet = [''db'', ''header'', ''table'', ''footer''] \<and>
   headerSeed demoEnv (buildContext pkgSet demoCtx) (preparedSet demoEnv demoCtx False scenarioModel pkgSet) = Inr [] \<and>
   map_of (files (fst (snd (processSet demoEnv demoCtx False [] scenarioModel pkgSet demoWorld)))) ''out.go'' =
     Some \<lparr>fBuf = ''DB pkg;HEADER ;TABLE posts;TABLE users;FOOTER ;'', fFile = ''out.go'', fErr = []\<rparr>"
proof -
  let ?pt = "\<lambda>ctx :: Context. [mkTemplate ''db'' [] ''pkg'']"
  let ?ctx = "buildContext pkgSet demoCtx"
  let ?s3 = "preparedSet demoEnv demoCtx False scenarioModel pkgSet"
  have ok: "prepareError demoEnv demoCtx False scenarioModel pkgSet = Returns None"
    by code_simp
  have pt: "PackageTemplates pkgSet = Some ?pt"
    by (simp add: pkgSet_def demoSet_def)
  have dist: "distinct (map tTemplate (?pt ?ctx))"
    by simp
  have names: "map (\<lambda>e. tTemplate (Template e)) (logicEmitted demoEnv demoCtx False scenarioModel pkgSet) =
     [''table'', ''footer'', ''table'', ''header'']"
    by code_simp
  have "\<forall>n \<in> set (map (\<lambda>e. tTemplate (Template e)) (logicEmitted demoEnv demoCtx False scenarioModel pkgSet)).
          n \<notin> set (map tTemplate (?pt ?ctx))"
    unfolding names by (simp add: mkTemplate_def)
  then have fresh: "\<forall>e \<in> set (logicEmitted demoEnv demoCtx False scenarioModel pkgSet).
     tTemplate (Template e) \<notin> set (map tTemplate (?pt ?ctx))"
    by simp
  have succ: "fst (processSet demoEnv demoCtx False [] scenarioModel pkgSet demoWorld) = Returns None"
    by code_simp
  have o: "Order pkgSet = [''header'', ''table'', ''footer'', ''db'']"
    by (simp add: pkgSet_def)
  have pp: "map snd (filter (\<lambda>fr. fileNameOf ?ctx ?s3 [] (fst fr) = ''out.go'')
                 (map frag (packageEmitted demoEnv demoCtx False pkgSet))) = [''DB pkg;'']"
    by code_simp
  have rp: "map snd (mergedInto ?ctx ?s3 [] (filter (\<lambda>n. n \<notin> set (map tTemplate (?pt ?ctx))) (Order pkgSet))
                 (map frag (sortEmitted demoEnv (logicEmitted demoEnv demoCtx False scenarioModel pkgSet))) ''out.go'') =
            [''HEADER ;'', ''TABLE posts;'', ''TABLE users;'', ''FOOTER ;'']"
    by code_simp
  have hs: "headerSeed demoEnv ?ctx ?s3 = Inr []"
    by code_simp
  note T = package_templates_first [OF ok demoEnv_sorts pt, where single = "[]" and w = demoWorld
      and fname = "''out.go''"]
  from T have "preparedOrder demoEnv demoCtx False scenarioModel pkgSet =
          map tTemplate [mkTemplate ''db'' [] ''pkg''] @
          filter (\<lambda>n. n \<notin> set (map tTemplate [mkTemplate ''db'' [] ''pkg''])) (Order pkgSet)"
    by simp
  then have po: "preparedOrder demoEnv demoCtx False scenarioModel pkgSet = [''db'', ''header'', ''table'', ''footer'']"
    by (simp add: o mkTemplate_def)
  from T dist fresh succ have
    "map_of (files (fst (snd (processSet demoEnv demoCtx False [] scenarioModel pkgSet demoWorld)))) ''out.go'' =
       (if filter (\<lambda>fr. fileNameOf ?ctx ?s3 [] (fst fr) = ''out.go'')
               (map frag (packageEmitted demoEnv demoCtx False pkgSet)) = [] \<and>
           mergedInto ?ctx ?s3 [] (filter (\<lambda>n. n \<notin> set (map tTemplate (?pt ?ctx))) (Order pkgSet))
               (map frag (sortEmitted demoEnv (logicEmitted demoEnv demoCtx False scenarioModel pkgSet))) ''out.go'' = []
        then None
        else case headerSeed demoEnv ?ctx ?s3 of
               Inr seed \<Rightarrow>
                 Some \<lparr>fBuf = seed @
                         concat (map snd (filter (\<lambda>fr. fileNameOf ?ctx ?s3 [] (fst fr) = ''out.go'')
                                   (map frag (packageEmitted demoEnv demoCtx False pkgSet)))) @
                         concat (map snd (mergedInto ?ctx ?s3 []
                                   (filter (\<lambda>n. n \<notin> set (map tTemplate (?pt ?ctx))) (Order pkgSet))
                                   (map frag (sortEmitted demoEnv (logicEmitted demoEnv demoCtx False scenarioModel pkgSet)))
                                   ''out.go'')),
                       fFile = ''out.go'', fErr = []\<rparr>
             | Inl e \<Rightarrow> None)"
    by blast
  moreover from pp have "filter (\<lambda>fr. fileNameOf ?ctx ?s3 [] (fst fr) = ''out.go'')
               (map frag (packageEmitted demoEnv demoCtx False pkgSet)) \<noteq> []"
    by auto
  ultimately have c: "map_of (files (fst (snd (processSet demoEnv demoCtx False [] scenarioModel pkgSet demoWorld)))) ''out.go'' =
     Some \<lparr>fBuf = ''DB pkg;HEADER ;TABLE posts;TABLE users;FOOTER ;'', fFile = ''out.go'', fErr = []\<rparr>"
    by (simp only: pp rp hs) simp
  from ok demoEnv_sorts pt dist names succ o po hs c show ?thesis by blast
qed

text \<open>
  C2 as stated fails in two ways.  When the generation logic emits a fragment
  under the name of a package template (here \<open>db\<close>), that fragment comes before the
  package content.  When two package templates have the same name, the name
  stands twice in the processing order and each of their fragments is merged
  twice.
\<close>

theorem package_content_counterexample:
  "filesOf (fst (snd (Process demoEnv demoCtx False [] entityModel
       [(''demo'', demoSet [mkTemplate ''db'' [] ''pkg''])] demoWorld))) ''demo'' =
     [(''out.go'', \<lparr>fBuf = ''DB entity;DB pkg;TABLE users;'', fFile = ''out.go'', fErr = []\<rparr>)] \<and>
   filesOf (fst (snd (Process demoEnv demoCtx False [] usersModel
       [(''demo'', demoSet [mkTemplate ''db'' [] ''a'', mkTemplate ''db'' [] ''b''])] demoWorld))) ''demo'' =
     [(''out.go'', \<lparr>fBuf = ''DB a;DB b;DB a;DB b;TABLE users;'', fFile = ''out.go'', fErr = []\<rparr>)]"
  by code_simp


section \<open>Two runs\<close>









end
